(* ===== verification/Go_Prelude.thy ===== *)
theory Go_Prelude
  imports Main "HOL-Library.Finite_Map"
begin

text \<open>
  What the development takes from the Go language and its standard library: the outcome of a
  computation that may panic, error values, the functions of \<open>strings\<close>, \<open>strconv\<close>, \<open>fmt\<close> and
  \<open>errors\<close> that the program calls, and Go maps with string keys.  A Go \<open>string\<close> is a sequence
  of bytes, so it is a HOL \<open>string\<close>.  A \<open>map[string]string\<close> that may be nil is an option of a
  finite map: reading a nil map yields the zero value, writing to it panics.

  The collection \<open>go_simps\<close> unfolds these library functions on concrete arguments.
\<close>

named_theorems go_simps
named_theorems hist_intros

section \<open>Panics\<close>

datatype 'a go = Ret 'a | Panic string

fun go_bind :: "'a go \<Rightarrow> ('a \<Rightarrow> 'b go) \<Rightarrow> 'b go" where
  "go_bind (Ret x) f = f x"
| "go_bind (Panic p) f = Panic p"

lemma go_bind_Ret_iff: "go_bind x f = Ret y \<longleftrightarrow> (\<exists>z. x = Ret z \<and> f z = Ret y)"
  by (cases x) auto

section \<open>Error values\<close>

text \<open>
  An error is known to the program by its text (\<open>Error()\<close>) and by how the Kubernetes
  classification predicates \<open>IsNotFound\<close>, \<open>IsAlreadyExists\<close> and \<open>IsNoMatchError\<close> answer.
\<close>

datatype err_class = NotFound | AlreadyExists | NoMatch | OtherErr

datatype goerror = GoError (err_class: err_class) (Error: string)

definition errors_New :: "string \<Rightarrow> goerror" where
  "errors_New msg = GoError OtherErr msg"

text \<open>\<open>fmt.Errorf\<close> with one \<open>%w\<close> verb between the texts \<open>pre\<close> and \<open>post\<close>.\<close>

definition errorf_w :: "string \<Rightarrow> goerror \<Rightarrow> string \<Rightarrow> goerror" where
  "errorf_w pre e post = GoError (err_class e) (pre @ Error e @ post)"

text \<open>\<open>errors.Join(a, b)\<close> where \<open>b\<close> is not nil; the texts are separated by a newline.\<close>

definition errors_Join :: "goerror option \<Rightarrow> goerror \<Rightarrow> goerror" where
  "errors_Join a b =
     (case a of
        None \<Rightarrow> GoError (err_class b) (Error b)
      | Some e \<Rightarrow> GoError (if err_class e = OtherErr then err_class b else err_class e)
                    (Error e @ [CHR 0x0A] @ Error b))"

section \<open>The packages strings, strconv and fmt\<close>

definition HasPrefix :: "string \<Rightarrow> string \<Rightarrow> bool" where
  "HasPrefix s p \<longleftrightarrow> take (length p) s = p"

definition TrimPrefix :: "string \<Rightarrow> string \<Rightarrow> string" where
  "TrimPrefix s p = (if HasPrefix s p then drop (length p) s else s)"

lemma HasPrefix_append [simp]: "HasPrefix (p @ s) p"
  by (simp add: HasPrefix_def)

lemma HasPrefix_self [simp]: "HasPrefix p p"
  by (simp add: HasPrefix_def)

lemma HasPrefix_iff: "HasPrefix s p \<longleftrightarrow> (\<exists>t. s = p @ t)"
  by (metis HasPrefix_def HasPrefix_append append_take_drop_id)

lemma HasPrefix_append_iff:
  "length q \<le> length p \<Longrightarrow> HasPrefix (p @ s) q \<longleftrightarrow> HasPrefix p q"
  by (simp add: HasPrefix_def)

text \<open>
  \<open>strings.ToLower\<close> and \<open>strings.EqualFold\<close> are only used to compare with the word \<open>true\<close>.  No
  character outside ASCII folds to one of its four letters, so folding the ASCII letters decides
  the comparison.
\<close>

definition lower_char :: "char \<Rightarrow> char" where
  "lower_char c =
     (let n = (of_char c :: nat) in if 65 \<le> n \<and> n \<le> 90 then char_of (n + 32) else c)"

definition ToLower :: "string \<Rightarrow> string" where
  "ToLower s = map lower_char s"

definition EqualFold :: "string \<Rightarrow> string \<Rightarrow> bool" where
  "EqualFold s t \<longleftrightarrow> ToLower s = ToLower t"

definition FormatBool :: "bool \<Rightarrow> string" where
  "FormatBool b = (if b then ''true'' else ''false'')"

text \<open>\<open>strings.Split\<close> on a separator of one character.\<close>

fun split_on :: "char \<Rightarrow> string \<Rightarrow> string list" where
  "split_on c [] = [[]]"
| "split_on c (x # xs) =
     (if x = c then [] # split_on c xs
      else (case split_on c xs of [] \<Rightarrow> [[x]] | y # ys \<Rightarrow> (x # y) # ys))"

lemma split_on_nonempty: "split_on c s \<noteq> []"
  by (induction s) (auto split: list.splits)

text \<open>The verb \<open>%d\<close> on a length.\<close>

definition digit_char :: "nat \<Rightarrow> char" where
  "digit_char n = char_of (48 + n)"

fun nat_string :: "nat \<Rightarrow> string" where
  "nat_string n =
     (if n < 10 then [digit_char n] else nat_string (n div 10) @ [digit_char (n mod 10)])"

declare nat_string.simps [simp del]

text \<open>
  The verb \<open>%q\<close>: a double-quoted literal.  Control characters, the quote and the backslash are
  escaped; bytes of characters outside ASCII are taken to be printable and stay as they are.
\<close>

definition hex_digit :: "nat \<Rightarrow> char" where
  "hex_digit n = (if n < 10 then char_of (48 + n) else char_of (87 + n))"

definition quote_char :: "char \<Rightarrow> string" where
  "quote_char c =
     (let n = (of_char c :: nat); b = CHR 0x5C in
      if n = 34 \<or> n = 92 then [b, c]
      else if n = 7 then [b, CHR ''a''] else if n = 8 then [b, CHR ''b'']
      else if n = 12 then [b, CHR ''f''] else if n = 10 then [b, CHR ''n'']
      else if n = 13 then [b, CHR ''r''] else if n = 9 then [b, CHR ''t'']
      else if n = 11 then [b, CHR ''v'']
      else if n < 32 \<or> n = 127 then [b, CHR ''x'', hex_digit (n div 16), hex_digit (n mod 16)]
      else [c])"

definition quote_string :: "string \<Rightarrow> string" where
  "quote_string s = [CHR 0x22] @ concat (map quote_char s) @ [CHR 0x22]"

lemmas [go_simps] = HasPrefix_def TrimPrefix_def lower_char_def ToLower_def EqualFold_def
  FormatBool_def errors_New_def errorf_w_def errors_Join_def

section \<open>Maps with string keys\<close>

type_synonym smap = "(string, string) fmap"

text \<open>\<open>m[k]\<close> on a \<open>map[string]string\<close>: the empty string when the key or the map is missing.\<close>

definition map_get :: "smap option \<Rightarrow> string \<Rightarrow> string" where
  "map_get m k =
     (case m of None \<Rightarrow> [] | Some f \<Rightarrow> (case fmlookup f k of None \<Rightarrow> [] | Some v \<Rightarrow> v))"

text \<open>\<open>m[k] = v\<close>: an assignment to an entry of a nil map panics.\<close>

definition map_put :: "smap option \<Rightarrow> string \<Rightarrow> string \<Rightarrow> smap option go" where
  "map_put m k v =
     (case m of None \<Rightarrow> Panic ''assignment to entry in nil map''
      | Some f \<Rightarrow> Ret (Some (fmupd k v f)))"

text \<open>The guard \<open>if m == nil { m = map[string]string{} }\<close>.\<close>

definition non_nil :: "smap option \<Rightarrow> smap" where
  "non_nil m = (case m of None \<Rightarrow> fmempty | Some f \<Rightarrow> f)"

lemma map_get_simps [simp]:
  "map_get None k = []"
  "map_get (Some fmempty) k = []"
  "map_get (Some (fmupd k' v f)) k = (if k' = k then v else map_get (Some f) k)"
  by (auto simp: map_get_def)

lemma non_nil_simps [simp]: "non_nil None = fmempty" "non_nil (Some f) = f"
  by (simp_all add: non_nil_def)

lemma map_get_non_nil [simp]: "map_get (Some (non_nil m)) k = map_get m k"
  by (cases m) auto

end
