(* ===== verification/K8s_Lib.thy ===== *)
theory K8s_Lib
  imports Go_Prelude "HOL-Library.Word"
begin

text \<open>
  The third-party code the program is written against.  Its data types are modelled down to the
  fields the program reads or writes; the rest of each type is one opaque field.  Its functions
  are \<^emph>\<open>parameters\<close> of the model: the record \<open>k8s_lib\<close> has one field per function, and every
  definition that calls one takes the record as its first argument.  What the program relies on
  of them is stated by the predicates \<open>conditions_doc\<close>, \<open>finalizers_doc\<close>, \<open>unstructured_doc\<close>
  and \<open>converter_doc\<close>, the documented behaviour of the packages \<open>meta\<close>, \<open>controllerutil\<close>,
  \<open>unstructured\<close> and \<open>runtime\<close>; a theorem that needs one names it as a hypothesis.
\<close>

section \<open>JSON values and unstructured objects\<close>

text \<open>
  The dynamic values an \<open>unstructured.Unstructured\<close> holds: \<open>nil\<close>, \<open>bool\<close>, \<open>int64\<close>,
  \<open>float64\<close> (by its bits), \<open>string\<close>, \<open>[]interface{}\<close> and \<open>map[string]interface{}\<close>.
\<close>

datatype json =
    JNull
  | JBool bool
  | JInt "64 word"
  | JFloat "64 word"
  | JStr string
  | JList "json list"
  | JMap "(string, json) fmap"

type_synonym obj = "(string, json) fmap"

text \<open>\<open>v, _ := x.(string)\<close> and the assertions to a slice and to a map.\<close>

fun as_string :: "json option \<Rightarrow> string option" where
  "as_string (Some (JStr s)) = Some s"
| "as_string _ = None"

fun as_list :: "json option \<Rightarrow> json list option" where
  "as_list (Some (JList xs)) = Some xs"
| "as_list _ = None"

fun as_map :: "json option \<Rightarrow> obj option" where
  "as_map (Some (JMap m)) = Some m"
| "as_map _ = None"

section \<open>Kubernetes data\<close>

text \<open>A \<open>metav1.Time\<close> is a number of seconds, 0 for the zero time.\<close>

type_synonym time = int

record GVK =
  gvk_Group :: string
  gvk_Version :: string
  gvk_Kind :: string

record Condition =
  cond_Type :: string
  cond_Status :: string
  cond_ObservedGeneration :: int
  cond_LastTransitionTime :: time
  cond_Reason :: string
  cond_Message :: string

record ObjectMeta =
  meta_Name :: string
  meta_Namespace :: string
  meta_Annotations :: "smap option"
  meta_Finalizers :: "string list"
  meta_DeletionTimestamp :: "time option"
  meta_Generation :: int

definition IsZero :: "time option \<Rightarrow> bool" where
  "IsZero t = (case t of None \<Rightarrow> True | Some x \<Rightarrow> x = 0)"

datatype EnvVarSource = FieldRef string | OtherSource json

record EnvVar =
  env_Name :: string
  env_Value :: string
  env_ValueFrom :: "EnvVarSource option"

record Container =
  c_Image :: string
  c_Args :: "string list"
  c_Env :: "EnvVar list"
  c_Resources :: json
  c_rest :: json

record Deployment =
  d_APIVersion :: string
  d_Namespace :: string
  d_Name :: string
  d_Labels :: "smap option"
  d_TemplateLabels :: "smap option"
  d_TemplateAnnotations :: "smap option"
  d_Containers :: "Container list"
  d_PriorityClassName :: string
  d_Conditions :: "json list"
  d_rest :: json

text \<open>The port of a network policy rule is a pointer to an \<open>IntOrString\<close>.\<close>

record IntOrString =
  ios_IntVal :: "32 word"
  ios_rest :: json

datatype NetworkPolicyPeer = IPBlockPeer string | OtherPeer json

record IngressRule =
  in_Ports :: "IntOrString option list"
  in_From :: "NetworkPolicyPeer list"

record NetworkPolicy =
  np_Ingress :: "IngressRule list"
  np_rest :: json

record CustomResourceDefinition =
  crd_Group :: string
  crd_Kind :: string
  crd_Versions :: "(string \<times> bool) list"

section \<open>The library functions\<close>

text \<open>
  \<open>NestedStringMap\<close> and \<open>NestedSlice\<close> return \<open>None\<close> where the Go function reports "not found"
  or an error; \<open>NestedString\<close> returns the empty string there.  A setter whose error the program
  drops returns the object it leaves behind.  \<open>YamlDecode\<close> lists what successive calls of a
  decoder return on a text, before \<open>io.EOF\<close>.  \<open>JsonDecodeTags\<close> decodes the list of tags of the
  GitHub API to their names.
\<close>

record k8s_lib =
  SetStatusCondition :: "Condition list \<Rightarrow> Condition \<Rightarrow> Condition list"
  RemoveStatusCondition :: "Condition list \<Rightarrow> string \<Rightarrow> Condition list"
  FindStatusCondition :: "Condition list \<Rightarrow> string \<Rightarrow> Condition option"
  ContainsFinalizer :: "string list \<Rightarrow> string \<Rightarrow> bool"
  AddFinalizer :: "string list \<Rightarrow> string \<Rightarrow> string list"
  RemoveFinalizer :: "string list \<Rightarrow> string \<Rightarrow> string list"
  GetName :: "obj \<Rightarrow> string"
  GetNamespace :: "obj \<Rightarrow> string"
  GetKind :: "obj \<Rightarrow> string"
  GetAPIVersion :: "obj \<Rightarrow> string"
  GroupVersionKind :: "obj \<Rightarrow> GVK"
  GetLabels :: "obj \<Rightarrow> smap option"
  GetAnnotations :: "obj \<Rightarrow> smap option"
  SetName :: "obj \<Rightarrow> string \<Rightarrow> obj"
  SetNamespace :: "obj \<Rightarrow> string \<Rightarrow> obj"
  SetGroupVersionKind :: "obj \<Rightarrow> GVK \<Rightarrow> obj"
  SetLabels :: "obj \<Rightarrow> smap option \<Rightarrow> obj"
  SetAnnotations :: "obj \<Rightarrow> smap option \<Rightarrow> obj"
  NestedString :: "obj \<Rightarrow> string list \<Rightarrow> string"
  NestedStringMap :: "obj \<Rightarrow> string list \<Rightarrow> smap option"
  SetNestedStringMap :: "obj \<Rightarrow> smap \<Rightarrow> string list \<Rightarrow> obj"
  NestedSlice :: "obj \<Rightarrow> string list \<Rightarrow> json list option"
  SetNestedSlice :: "obj \<Rightarrow> json list \<Rightarrow> string list \<Rightarrow> obj"
  APIVersionOf :: "GVK \<Rightarrow> string"
  FromDeployment :: "obj \<Rightarrow> goerror + Deployment"
  ToDeployment :: "Deployment \<Rightarrow> goerror + obj"
  FromNetworkPolicy :: "obj \<Rightarrow> goerror + NetworkPolicy"
  ToNetworkPolicy :: "NetworkPolicy \<Rightarrow> goerror + obj"
  FromCRD :: "obj \<Rightarrow> goerror + CustomResourceDefinition"
  IsDeploymentReady :: "Deployment \<Rightarrow> bool"
  HasDeploymentConditionTrueStatus :: "json list \<Rightarrow> string \<Rightarrow> bool"
  YamlDecode :: "string \<Rightarrow> (goerror + obj) list"
  JsonMarshal :: "obj \<Rightarrow> goerror + string"
  JsonUnmarshal :: "string \<Rightarrow> goerror + obj"
  JsonDecodeTags :: "string \<Rightarrow> goerror + string list"
  Sha256 :: "string \<Rightarrow> string"
  Base64URL :: "string \<Rightarrow> string"

section \<open>Documented behaviour of the libraries\<close>

text \<open>
  Package \<open>meta\<close>: \<open>FindStatusCondition\<close> finds the condition of a type; after
  \<open>SetStatusCondition\<close> the condition of the given type carries the new status, reason and
  message and every other condition is as before; \<open>RemoveStatusCondition\<close> removes the conditions
  of the type and no other.
\<close>

definition same_content :: "Condition \<Rightarrow> Condition \<Rightarrow> bool" where
  "same_content a b \<longleftrightarrow> cond_Type a = cond_Type b \<and> cond_Status a = cond_Status b
     \<and> cond_Reason a = cond_Reason b \<and> cond_Message a = cond_Message b"

definition conditions_doc :: "k8s_lib \<Rightarrow> bool" where
  "conditions_doc L \<longleftrightarrow>
     (\<forall>cs t. FindStatusCondition L cs t = find (\<lambda>c. cond_Type c = t) cs)
   \<and> (\<forall>cs c. \<exists>c'. find (\<lambda>d. cond_Type d = cond_Type c) (SetStatusCondition L cs c) = Some c'
        \<and> same_content c' c)
   \<and> (\<forall>cs c. filter (\<lambda>d. cond_Type d \<noteq> cond_Type c) (SetStatusCondition L cs c)
            = filter (\<lambda>d. cond_Type d \<noteq> cond_Type c) cs)
   \<and> (\<forall>cs t. RemoveStatusCondition L cs t = filter (\<lambda>d. cond_Type d \<noteq> t) cs)"

text \<open>Package \<open>controllerutil\<close>: a finalizer list is used as a set.\<close>

definition finalizers_doc :: "k8s_lib \<Rightarrow> bool" where
  "finalizers_doc L \<longleftrightarrow>
     (\<forall>fs f. ContainsFinalizer L fs f \<longleftrightarrow> f \<in> set fs)
   \<and> (\<forall>fs f. set (AddFinalizer L fs f) = insert f (set fs))
   \<and> (\<forall>fs f. set (RemoveFinalizer L fs f) = set fs - {f})"

text \<open>
  Package \<open>runtime\<close>: converting a typed object to its unstructured form and back gives the
  object again, except that an empty map comes back as nil; the fields are \<open>omitempty\<close>, so an
  empty map and nil convert to the same object.
\<close>

definition nil_if_empty :: "smap option \<Rightarrow> smap option" where
  "nil_if_empty m = (if m = Some fmempty then None else m)"

definition omit_empty :: "Deployment \<Rightarrow> Deployment" where
  "omit_empty d = d\<lparr>d_Labels := nil_if_empty (d_Labels d),
     d_TemplateLabels := nil_if_empty (d_TemplateLabels d),
     d_TemplateAnnotations := nil_if_empty (d_TemplateAnnotations d)\<rparr>"

definition converter_doc :: "k8s_lib \<Rightarrow> bool" where
  "converter_doc L \<longleftrightarrow>
     (\<forall>d o'. ToDeployment L d = Inr o' \<longrightarrow> FromDeployment L o' = Inr (omit_empty d))
   \<and> (\<forall>d. ToDeployment L (omit_empty d) = ToDeployment L d)
   \<and> (\<forall>p o'. ToNetworkPolicy L p = Inr o' \<longrightarrow> FromNetworkPolicy L o' = Inr p)"

text \<open>
  Package \<open>unstructured\<close>: the accessors read and write nested fields.  \<open>json_get\<close> follows a path
  of keys; \<open>json_set\<close> creates the missing maps on the way and fails where the path runs through a
  value that is not a map; \<open>put\<close> leaves the object unchanged on that failure.
\<close>

fun json_get :: "json \<Rightarrow> string list \<Rightarrow> json option" where
  "json_get v [] = Some v"
| "json_get (JMap m) (k # ks) =
     (case fmlookup m k of None \<Rightarrow> None | Some v \<Rightarrow> json_get v ks)"
| "json_get _ (k # ks) = None"

fun json_set :: "obj \<Rightarrow> json \<Rightarrow> string list \<Rightarrow> obj option" where
  "json_set m v [] = None"
| "json_set m v [k] = Some (fmupd k v m)"
| "json_set m v (k # k' # ks) =
     (case fmlookup m k of
        None \<Rightarrow> map_option (\<lambda>m'. fmupd k (JMap m') m) (json_set fmempty v (k' # ks))
      | Some (JMap m1) \<Rightarrow> map_option (\<lambda>m'. fmupd k (JMap m') m) (json_set m1 v (k' # ks))
      | Some _ \<Rightarrow> None)"

definition put :: "obj \<Rightarrow> json \<Rightarrow> string list \<Rightarrow> obj" where
  "put m v p = (case json_set m v p of None \<Rightarrow> m | Some m' \<Rightarrow> m')"

definition settable :: "obj \<Rightarrow> string list \<Rightarrow> bool" where
  "settable m p \<longleftrightarrow> json_set m JNull p \<noteq> None"

definition str_at :: "obj \<Rightarrow> string list \<Rightarrow> string" where
  "str_at m p = (case as_string (json_get (JMap m) p) of None \<Rightarrow> [] | Some s \<Rightarrow> s)"

definition of_smap :: "smap \<Rightarrow> json" where
  "of_smap f = JMap (fmmap JStr f)"

fun is_JStr :: "json \<Rightarrow> bool" where
  "is_JStr (JStr s) = True"
| "is_JStr _ = False"

fun the_JStr :: "json \<Rightarrow> string" where
  "the_JStr (JStr s) = s"
| "the_JStr _ = []"

definition to_smap :: "obj \<Rightarrow> smap option" where
  "to_smap m = (if fmpred (\<lambda>_. is_JStr) m then Some (fmmap the_JStr m) else None)"

definition smap_at :: "obj \<Rightarrow> string list \<Rightarrow> smap option" where
  "smap_at m p = (case as_map (json_get (JMap m) p) of None \<Rightarrow> None | Some f \<Rightarrow> to_smap f)"

definition unstructured_doc :: "k8s_lib \<Rightarrow> bool" where
  "unstructured_doc L \<longleftrightarrow>
     (\<forall>u. GetName L u = str_at u [''metadata'', ''name''])
   \<and> (\<forall>u. GetNamespace L u = str_at u [''metadata'', ''namespace''])
   \<and> (\<forall>u. GetKind L u = str_at u [''kind''])
   \<and> (\<forall>u. GetAPIVersion L u = str_at u [''apiVersion''])
   \<and> (\<forall>u. GetLabels L u = smap_at u [''metadata'', ''labels''])
   \<and> (\<forall>u. GetAnnotations L u = smap_at u [''metadata'', ''annotations''])
   \<and> (\<forall>u f. SetLabels L u (Some f) = put u (of_smap f) [''metadata'', ''labels''])
   \<and> (\<forall>u f. SetAnnotations L u (Some f) = put u (of_smap f) [''metadata'', ''annotations''])
   \<and> (\<forall>u s. s \<noteq> [] \<longrightarrow> SetNamespace L u s = put u (JStr s) [''metadata'', ''namespace''])
   \<and> (\<forall>u p. NestedString L u p = str_at u p)
   \<and> (\<forall>u p. NestedStringMap L u p = smap_at u p)
   \<and> (\<forall>u f p. SetNestedStringMap L u f p = put u (of_smap f) p)
   \<and> (\<forall>u p. NestedSlice L u p = as_list (json_get (JMap u) p))
   \<and> (\<forall>u xs p. SetNestedSlice L u xs p = put u (JList xs) p)"

section \<open>Paths\<close>

lemma settable_json_set: "settable m p \<Longrightarrow> \<exists>m'. json_set m v p = Some m'"
  unfolding settable_def
  by (induction m v p rule: json_set.induct) (auto split: option.splits json.splits)

lemma json_get_set: "json_set m v p = Some m' \<Longrightarrow> json_get (JMap m') p = Some v"
  by (induction m v p arbitrary: m' rule: json_set.induct)
     (auto split: option.splits json.splits)

lemma json_get_put: "settable m p \<Longrightarrow> json_get (JMap (put m v p)) p = Some v"
  using settable_json_set [of m p v] by (auto simp: put_def json_get_set)

text \<open>Two paths fork when neither is a prefix of the other; a write on one is not seen on the other.\<close>

fun fork :: "string list \<Rightarrow> string list \<Rightarrow> bool" where
  "fork (a # p) (b # q) \<longleftrightarrow> a \<noteq> b \<or> fork p q"
| "fork _ _ \<longleftrightarrow> False"

lemma json_get_empty: "q \<noteq> [] \<Longrightarrow> json_get (JMap fmempty) q = None"
  by (cases q) auto

lemma fork_Nil [simp]: "\<not> fork p []"
  by (cases p) auto

lemma json_get_set_fork:
  "json_set m v p = Some m' \<Longrightarrow> fork p q \<Longrightarrow> json_get (JMap m') q = json_get (JMap m) q"
proof (induction m v p arbitrary: m' q rule: json_set.induct)
  case (1 m v)
  then show ?case by simp
next
  case (2 m v k)
  then show ?case by (cases q) auto
next
  case (3 m v k k' ks)
  then obtain b q' where q: "q = b # q'" by (cases q) auto
  show ?case
  proof (cases "fmlookup m k")
    case None
    with 3 obtain m1 where m1: "json_set fmempty v (k' # ks) = Some m1"
      "m' = fmupd k (JMap m1) m" by auto
    show ?thesis
    proof (cases "b = k")
      case True
      with 3 q have f: "fork (k' # ks) q'" by simp
      then have "q' \<noteq> []" by (cases q') auto
      with "3.IH"(1) [OF None m1(1) f] have "json_get (JMap m1) q' = None"
        by (simp add: json_get_empty)
      with True None m1 q show ?thesis by simp
    next
      case False
      with m1 q show ?thesis by simp
    qed
  next
    case (Some j)
    with 3 q show ?thesis by (cases j) auto
  qed
qed

lemma json_get_put_fork:
  "fork p q \<Longrightarrow> json_get (JMap (put m v p)) q = json_get (JMap m) q"
  by (auto simp: put_def json_get_set_fork split: option.splits)

lemma to_smap_of_smap [simp]: "to_smap (fmmap JStr f) = Some f"
proof -
  have "fmmap the_JStr (fmmap JStr f) = f"
    by (rule fmap_ext) (simp add: option.map_comp comp_def option.map_ident)
  moreover have "fmpred (\<lambda>_. is_JStr) (fmmap JStr f)"
    by auto
  ultimately show ?thesis by (simp add: to_smap_def)
qed

lemma smap_at_put [simp]: "settable m p \<Longrightarrow> smap_at (put m (of_smap f) p) p = Some f"
  by (simp add: smap_at_def json_get_put of_smap_def)

lemma smap_at_put_fork: "fork p q \<Longrightarrow> smap_at (put m v p) q = smap_at m q"
  by (simp add: smap_at_def json_get_put_fork)

lemma str_at_put_fork: "fork p q \<Longrightarrow> str_at (put m v p) q = str_at m q"
  by (simp add: str_at_def json_get_put_fork)

lemma str_at_put [simp]: "settable m p \<Longrightarrow> str_at (put m (JStr s) p) p = s"
  by (simp add: str_at_def json_get_put)

text \<open>Writing on one path keeps a forking path, and the path itself, writable.\<close>

lemma settable_put_same: "settable m p \<Longrightarrow> settable (put m v p) p"
proof (induction m v p rule: json_set.induct)
  case (3 m v k k' ks)
  then show ?case
    by (cases "fmlookup m k"; (cases "the (fmlookup m k)")?)
      (auto simp: settable_def put_def split: option.splits)
qed (auto simp: settable_def put_def)

lemmas put_simps = smap_at_put_fork str_at_put_fork json_get_put_fork settable_put_same

end
