(* ===== verification/Log_Args.thy ===== *)
theory Log_Args
  imports K8s_Lib
begin

text \<open>
  The logging configuration of \<open>api/v1alpha1/keda_types.go\<close> and the two interfaces of
  \<open>pkg/reconciler/api/api.go\<close> it implements.  A pointer to a string type is an option.  The
  locales \<open>match_stringer\<close> and \<open>arg_updater\<close> are the contracts of the Go interfaces
  \<open>MatchStringer\<close> and \<open>ArgUpdater\<close>; they are interpreted on the log level, the log format, the
  time encoding and on \<open>LoggingCommonCfg\<close>.
\<close>

section \<open>The interfaces\<close>

text \<open>A \<open>MatchStringer\<close> recognises the command line argument it prints.\<close>

locale match_stringer =
  fixes Match :: "string \<Rightarrow> bool"
    and String :: string
  assumes Match_String: "Match String"
begin

definition replace :: "string \<Rightarrow> string" where
  "replace arg = (if Match arg then String else arg)"

lemma replace_idem: "replace (replace arg) = replace arg"
  by (simp add: replace_def)

end

text \<open>
  An \<open>ArgUpdater\<close> rewrites the arguments it owns and adds the missing ones; its own output needs
  no further update.  A client that runs both steps twice does nothing the second time.
\<close>

locale arg_updater =
  fixes update :: "string \<Rightarrow> string"
    and missing :: "string list \<Rightarrow> string list"
  assumes update_idem: "update (update a) = update a"
    and missing_stable: "a \<in> set (missing xs) \<Longrightarrow> update a = a"
    and missing_done: "missing (xs @ missing xs) = []"
begin

lemma map_update_fixed: "map update (map update xs @ missing ys) = map update xs @ missing ys"
  by (simp add: update_idem missing_stable map_idI)

lemma configure_idem:
  assumes "ys = map update xs @ missing (map update xs)"
  shows "map update ys @ missing (map update ys) = ys"
proof -
  have m: "map update ys = ys"
    unfolding assms by (rule map_update_fixed)
  have "missing ys = []"
    unfolding assms by (rule missing_done)
  with m show ?thesis by simp
qed

end

section \<open>Constants\<close>

abbreviation CommonLogLevelInfo :: string where
  "CommonLogLevelInfo \<equiv> ''info''"
abbreviation LogFormatJSON :: string where
  "LogFormatJSON \<equiv> ''json''"
abbreviation LogFormatConsole :: string where
  "LogFormatConsole \<equiv> ''console''"
abbreviation TimeEncodingRFC3339 :: string where
  "TimeEncodingRFC3339 \<equiv> ''rfc3339''"
abbreviation zapLogLevel :: string where
  "zapLogLevel \<equiv> ''--zap-log-level''"
abbreviation zapEncoder :: string where
  "zapEncoder \<equiv> ''--zap-encoder''"
abbreviation zapTimeEncoding :: string where
  "zapTimeEncoding \<equiv> ''--zap-time-encoding''"

section \<open>Log level, log format, time encoding\<close>

definition LogLevel_zero :: string where
  "LogLevel_zero = CommonLogLevelInfo"

definition LogLevel_String :: "string option \<Rightarrow> string" where
  "LogLevel_String l =
     zapLogLevel @ ''='' @ (case l of None \<Rightarrow> LogLevel_zero | Some v \<Rightarrow> v)"

definition LogLevel_Match :: "string \<Rightarrow> bool" where
  "LogLevel_Match s = HasPrefix s zapLogLevel"

definition LogFormat_zero :: string where
  "LogFormat_zero = LogFormatConsole"

definition LogFormat_String :: "string option \<Rightarrow> string" where
  "LogFormat_String f =
     zapEncoder @ ''='' @ (case f of None \<Rightarrow> LogFormat_zero | Some v \<Rightarrow> v)"

definition LogFormat_Match :: "string \<Rightarrow> bool" where
  "LogFormat_Match s = HasPrefix s zapEncoder"

definition LogTimeEncoding_zero :: string where
  "LogTimeEncoding_zero = TimeEncodingRFC3339"

definition LogTimeEncoding_String :: "string option \<Rightarrow> string" where
  "LogTimeEncoding_String e =
     zapTimeEncoding @ ''='' @ (case e of None \<Rightarrow> LogTimeEncoding_zero | Some v \<Rightarrow> v)"

definition LogTimeEncoding_Match :: "string \<Rightarrow> bool" where
  "LogTimeEncoding_Match s = HasPrefix s zapTimeEncoding"

lemmas log_defs [go_simps] = LogLevel_zero_def LogLevel_String_def LogLevel_Match_def
  LogFormat_zero_def LogFormat_String_def LogFormat_Match_def
  LogTimeEncoding_zero_def LogTimeEncoding_String_def LogTimeEncoding_Match_def

interpretation log_level: match_stringer LogLevel_Match "LogLevel_String l" for l
  by unfold_locales (simp add: go_simps)

interpretation log_format: match_stringer LogFormat_Match "LogFormat_String f" for f
  by unfold_locales (simp add: go_simps)

interpretation log_time_encoding: match_stringer LogTimeEncoding_Match "LogTimeEncoding_String e" for e
  by unfold_locales (simp add: go_simps)

section \<open>LoggingCommonCfg\<close>

record LoggingCommonCfg =
  log_Level :: "string option"
  log_Format :: "string option"
  log_TimeEncoding :: "string option"

text \<open>An interface value of type \<open>MatchStringer\<close> is a pointer with its dynamic type.\<close>

datatype MatchStringer =
    LogLevelPtr "string option"
  | LogFormatPtr "string option"
  | LogTimeEncodingPtr "string option"

fun MS_String :: "MatchStringer \<Rightarrow> string" where
  "MS_String (LogLevelPtr l) = LogLevel_String l"
| "MS_String (LogFormatPtr f) = LogFormat_String f"
| "MS_String (LogTimeEncodingPtr e) = LogTimeEncoding_String e"

fun MS_Match :: "MatchStringer \<Rightarrow> string \<Rightarrow> bool" where
  "MS_Match (LogLevelPtr l) s = LogLevel_Match s"
| "MS_Match (LogFormatPtr f) s = LogFormat_Match s"
| "MS_Match (LogTimeEncodingPtr e) s = LogTimeEncoding_Match s"

definition cfg_list :: "LoggingCommonCfg \<Rightarrow> MatchStringer list" where
  "cfg_list c =
     [LogLevelPtr (log_Level c), LogFormatPtr (log_Format c), LogTimeEncodingPtr (log_TimeEncoding c)]"

fun UpdateArg_loop :: "MatchStringer list \<Rightarrow> string \<Rightarrow> string" where
  "UpdateArg_loop [] arg = arg"
| "UpdateArg_loop (p # ps) arg =
     (if \<not> MS_Match p arg then UpdateArg_loop ps arg else UpdateArg_loop ps (MS_String p))"

definition UpdateArg :: "LoggingCommonCfg \<Rightarrow> string \<Rightarrow> string" where
  "UpdateArg c arg = UpdateArg_loop (cfg_list c) arg"

fun AppendMissingArgs_loop :: "MatchStringer list \<Rightarrow> string list \<Rightarrow> string list" where
  "AppendMissingArgs_loop [] existingArgs = []"
| "AppendMissingArgs_loop (p # ps) existingArgs =
     (if list_ex (MS_Match p) existingArgs then AppendMissingArgs_loop ps existingArgs
      else MS_String p # AppendMissingArgs_loop ps existingArgs)"

definition AppendMissingArgs :: "LoggingCommonCfg \<Rightarrow> string list \<Rightarrow> string list" where
  "AppendMissingArgs c existingArgs = AppendMissingArgs_loop (cfg_list c) existingArgs"

text \<open>\<open>Sanitize\<close> writes through the \<open>Format\<close> pointer.\<close>

definition LoggingCommonCfg_Sanitize :: "LoggingCommonCfg \<Rightarrow> LoggingCommonCfg" where
  "LoggingCommonCfg_Sanitize c =
     (if log_Format c = Some ''text'' then c\<lparr>log_Format := Some LogFormatConsole\<rparr> else c)"

section \<open>The three flags do not interfere\<close>

lemma MS_Match_String [simp]: "MS_Match p (MS_String p)"
  by (cases p) (simp_all add: log_level.Match_String log_format.Match_String
      log_time_encoding.Match_String)

fun same_flag :: "MatchStringer \<Rightarrow> MatchStringer \<Rightarrow> bool" where
  "same_flag (LogLevelPtr _) (LogLevelPtr _) = True"
| "same_flag (LogFormatPtr _) (LogFormatPtr _) = True"
| "same_flag (LogTimeEncodingPtr _) (LogTimeEncodingPtr _) = True"
| "same_flag _ _ = False"

lemma MS_Match_String_iff: "MS_Match p (MS_String q) \<longleftrightarrow> same_flag p q"
  by (cases p; cases q) (simp_all add: log_defs HasPrefix_def)

lemma MS_Match_disjoint: "MS_Match p a \<Longrightarrow> MS_Match q a \<Longrightarrow> same_flag p q"
  by (cases p; cases q) (auto simp: log_defs HasPrefix_iff)

lemma UpdateArg_cases:
  "UpdateArg c a =
     (if LogLevel_Match a then LogLevel_String (log_Level c)
      else if LogFormat_Match a then LogFormat_String (log_Format c)
      else if LogTimeEncoding_Match a then LogTimeEncoding_String (log_TimeEncoding c)
      else a)"
  using MS_Match_String_iff [of "LogFormatPtr None" "LogLevelPtr (log_Level c)"]
    MS_Match_String_iff [of "LogTimeEncodingPtr None" "LogLevelPtr (log_Level c)"]
    MS_Match_String_iff [of "LogTimeEncodingPtr None" "LogFormatPtr (log_Format c)"]
  by (simp add: UpdateArg_def cfg_list_def)

lemma UpdateArg_Match: "MS_Match p (UpdateArg c a) \<longleftrightarrow> MS_Match p a"
  using MS_Match_disjoint [of "LogLevelPtr None" a p] MS_Match_disjoint [of "LogFormatPtr None" a p]
    MS_Match_disjoint [of "LogTimeEncodingPtr None" a p]
    MS_Match_String_iff [of p "LogLevelPtr (log_Level c)"]
    MS_Match_String_iff [of p "LogFormatPtr (log_Format c)"]
    MS_Match_String_iff [of p "LogTimeEncodingPtr (log_TimeEncoding c)"]
  by (cases p) (auto simp: UpdateArg_cases)

lemma UpdateArg_owned: "p \<in> set (cfg_list c) \<Longrightarrow> MS_Match p a \<Longrightarrow> UpdateArg c a = MS_String p"
  using MS_Match_disjoint [of "LogLevelPtr None" a p] MS_Match_disjoint [of "LogFormatPtr None" a p]
  by (auto simp: UpdateArg_cases cfg_list_def)

lemma UpdateArg_other: "\<forall>p\<in>set (cfg_list c). \<not> MS_Match p a \<Longrightarrow> UpdateArg c a = a"
  by (simp add: UpdateArg_cases cfg_list_def)

lemma AppendMissingArgs_loop_filter:
  "AppendMissingArgs_loop ps xs = map MS_String (filter (\<lambda>p. \<not> list_ex (MS_Match p) xs) ps)"
  by (induction ps) auto

lemma AppendMissingArgs_filter:
  "AppendMissingArgs c xs = map MS_String (filter (\<lambda>p. \<not> list_ex (MS_Match p) xs) (cfg_list c))"
  by (simp add: AppendMissingArgs_def AppendMissingArgs_loop_filter)

lemma AppendMissingArgs_none:
  "\<forall>p\<in>set (cfg_list c). list_ex (MS_Match p) xs \<Longrightarrow> AppendMissingArgs c xs = []"
  by (simp add: AppendMissingArgs_filter)

lemma configured_present:
  assumes "p \<in> set (cfg_list c)"
  shows "list_ex (MS_Match p) (xs @ AppendMissingArgs c xs)"
proof (cases "list_ex (MS_Match p) xs")
  case True
  then show ?thesis by simp
next
  case False
  with assms have "MS_String p \<in> set (AppendMissingArgs c xs)"
    by (simp add: AppendMissingArgs_filter)
  then show ?thesis
    unfolding list_ex_iff using MS_Match_String by fastforce
qed

interpretation logging_cfg: arg_updater "UpdateArg c" "AppendMissingArgs c" for c
proof unfold_locales
  show "UpdateArg c (UpdateArg c a) = UpdateArg c a" for a
    using UpdateArg_owned [of _ c "UpdateArg c a"] UpdateArg_owned [of _ c a]
      UpdateArg_other [of c "UpdateArg c a"]
    by (metis UpdateArg_Match)
next
  fix a xs assume "a \<in> set (AppendMissingArgs c xs)"
  then show "UpdateArg c a = a"
    by (auto simp: AppendMissingArgs_filter UpdateArg_owned)
next
  show "AppendMissingArgs c (xs @ AppendMissingArgs c xs) = []" for xs
    using configured_present by (simp add: AppendMissingArgs_none)
qed

end
