(* ===== verification/Keda_Types.thy ===== *)
theory Keda_Types
  imports Log_Args
begin

text \<open>
  The Keda custom resource of \<open>api/v1alpha1/keda_types.go\<close>: the specification, the status with
  its conditions, the environment variables with their defaults, and the annotations that
  configure the HTTP add-on.  The status methods take the library record and the current time,
  and return the updated resource.
\<close>

section \<open>Constants\<close>

abbreviation StateReady :: string where
  "StateReady \<equiv> ''Ready''"
abbreviation StateError :: string where
  "StateError \<equiv> ''Error''"
abbreviation StateWarning :: string where
  "StateWarning \<equiv> ''Warning''"
abbreviation StateProcessing :: string where
  "StateProcessing \<equiv> ''Processing''"
abbreviation StateDeleting :: string where
  "StateDeleting \<equiv> ''Deleting''"
abbreviation ServedTrue :: string where
  "ServedTrue \<equiv> ''True''"
abbreviation ServedFalse :: string where
  "ServedFalse \<equiv> ''False''"
abbreviation ConditionReasonDeploymentUpdateErr :: string where
  "ConditionReasonDeploymentUpdateErr \<equiv> ''KedaDeploymentUpdateErr''"
abbreviation ConditionReasonNetworkPolicyUpdateErr :: string where
  "ConditionReasonNetworkPolicyUpdateErr \<equiv> ''NetworkPolicyUpdateErr''"
abbreviation ConditionReasonVerificationErr :: string where
  "ConditionReasonVerificationErr \<equiv> ''VerificationErr''"
abbreviation ConditionReasonVerified :: string where
  "ConditionReasonVerified \<equiv> ''Verified''"
abbreviation ConditionReasonDeploymentReplicaFailure :: string where
  "ConditionReasonDeploymentReplicaFailure \<equiv> ''DeploymentReplicaFailure''"
abbreviation ConditionReasonApplyObjError :: string where
  "ConditionReasonApplyObjError \<equiv> ''ApplyObjError''"
abbreviation ConditionReasonVerification :: string where
  "ConditionReasonVerification \<equiv> ''Verification''"
abbreviation ConditionReasonValidationErr :: string where
  "ConditionReasonValidationErr \<equiv> ''ValidationErr''"
abbreviation ConditionReasonInitialized :: string where
  "ConditionReasonInitialized \<equiv> ''Initialized''"
abbreviation ConditionReasonKedaDuplicated :: string where
  "ConditionReasonKedaDuplicated \<equiv> ''KedaDuplicated''"
abbreviation ConditionReasonDeletion :: string where
  "ConditionReasonDeletion \<equiv> ''Deletion''"
abbreviation ConditionReasonDeletionErr :: string where
  "ConditionReasonDeletionErr \<equiv> ''DeletionErr''"
abbreviation ConditionReasonDeleted :: string where
  "ConditionReasonDeleted \<equiv> ''Deleted''"
abbreviation ConditionTypeDeploymentFailure :: string where
  "ConditionTypeDeploymentFailure \<equiv> ''DeploymentFailure''"
abbreviation ConditionTypeInstalled :: string where
  "ConditionTypeInstalled \<equiv> ''Installed''"
abbreviation ConditionTypeDeleted :: string where
  "ConditionTypeDeleted \<equiv> ''Deleted''"
abbreviation KymaBootstraperRegistryUrlMutation :: string where
  "KymaBootstraperRegistryUrlMutation \<equiv> ''rt-cfg.kyma-project.io/alter-img-registry''"
abbreviation KymaBootstraperAddImagePullSecretMutation :: string where
  "KymaBootstraperAddImagePullSecretMutation \<equiv> ''rt-cfg.kyma-project.io/add-img-pull-secret''"
abbreviation KymaBootstrapperSetFipsMode :: string where
  "KymaBootstrapperSetFipsMode \<equiv> ''rt-cfg.kyma-project.io/set-fips-mode''"
abbreviation Finalizer_name :: string where
  "Finalizer_name \<equiv> ''keda-manager.kyma-project.io/deletion-hook''"
abbreviation conditionTypeAddon :: string where
  "conditionTypeAddon \<equiv> ''AddonInstalled''"
abbreviation ConditionReasonAddonInstalled :: string where
  "ConditionReasonAddonInstalled \<equiv> ''HTTPAddonInstalled''"
abbreviation ConditionReasonAddonDeleted :: string where
  "ConditionReasonAddonDeleted \<equiv> ''HTTPAddonDeleted''"
abbreviation ConditionReasonAddonInstallErr :: string where
  "ConditionReasonAddonInstallErr \<equiv> ''HTTPAddonInstallErr''"
abbreviation ConditionReasonAddonDisabled :: string where
  "ConditionReasonAddonDisabled \<equiv> ''HTTPAddonDisabled''"
abbreviation ConditionReasonAddonInUse :: string where
  "ConditionReasonAddonInUse \<equiv> ''HTTPAddonInUse''"
abbreviation AnnotationAddonEnabled :: string where
  "AnnotationAddonEnabled \<equiv> ''keda.kyma-project.io/addon-enabled''"
abbreviation AnnotationAddonNamespace :: string where
  "AnnotationAddonNamespace \<equiv> ''keda.kyma-project.io/addon-namespace''"
abbreviation AnnotationAddonIstioInjection :: string where
  "AnnotationAddonIstioInjection \<equiv> ''keda.kyma-project.io/addon-istio-injection''"
abbreviation AnnotationAddonInstalledVersion :: string where
  "AnnotationAddonInstalledVersion \<equiv> ''keda.kyma-project.io/addon-installed-version''"
abbreviation AnnotationAddonInstalledNamespace :: string where
  "AnnotationAddonInstalledNamespace \<equiv> ''keda.kyma-project.io/addon-installed-namespace''"
abbreviation DefaultAddonNamespace :: string where
  "DefaultAddonNamespace \<equiv> ''kyma-system''"
abbreviation DefaultAddonVersion :: string where
  "DefaultAddonVersion \<equiv> ''0.15.0''"

section \<open>The specification\<close>

record IstioCfg =
  istio_EnabledSidecarInjection :: bool

record Istio =
  istio_Operator :: "IstioCfg option"
  istio_MetricServer :: "IstioCfg option"

record LoggingCfg =
  lc_Operator :: "LoggingCommonCfg option"
  lc_MetricsServer :: "LoggingCommonCfg option"
  lc_AdmissionWebhook :: "LoggingCommonCfg option"

record Resources =
  res_Operator :: "json option"
  res_MetricsServer :: "json option"
  res_AdmissionWebhook :: "json option"

record PodAnnotations =
  ann_Operator :: "smap option"
  ann_MetricsServer :: "smap option"
  ann_AdmissionWebhook :: "smap option"

type_synonym EnvVars = "EnvVar list"

record KedaSpec =
  spec_Istio :: "Istio option"
  spec_Logging :: "LoggingCfg option"
  spec_Resources :: "Resources option"
  spec_Env :: EnvVars
  spec_PodAnnotations :: "PodAnnotations option"

record Status =
  st_State :: string
  st_Served :: string
  st_KedaVersion :: string
  st_Conditions :: "Condition list"

record Keda =
  k_Meta :: ObjectMeta
  k_Spec :: KedaSpec
  k_Status :: Status

text \<open>The zero value of \<open>Status\<close>.\<close>

definition zero_Status :: Status where
  "zero_Status = \<lparr>st_State = [], st_Served = [], st_KedaVersion = [], st_Conditions = []\<rparr>"

section \<open>Environment variables\<close>

definition watchNamespace :: EnvVar where
  "watchNamespace = \<lparr>env_Name = ''WATCH_NAMESPACE'', env_Value = [], env_ValueFrom = None\<rparr>"

definition podName :: EnvVar where
  "podName = \<lparr>env_Name = ''POD_NAME'', env_Value = [],
     env_ValueFrom = Some (FieldRef ''metadata.name'')\<rparr>"

definition podNamespace :: EnvVar where
  "podNamespace = \<lparr>env_Name = ''POD_NAMESPACE'', env_Value = [],
     env_ValueFrom = Some (FieldRef ''metadata.namespace'')\<rparr>"

definition operatorNameEnv :: EnvVar where
  "operatorNameEnv = \<lparr>env_Name = ''OPERATOR_NAME'', env_Value = ''keda-operator'',
     env_ValueFrom = None\<rparr>"

definition kedaHTTPdefaultTimeout :: EnvVar where
  "kedaHTTPdefaultTimeout = \<lparr>env_Name = ''KEDA_HTTP_DEFAULT_TIMEOUT'', env_Value = ''3000'',
     env_ValueFrom = None\<rparr>"

definition kedaHTTPMinTLSVersion :: EnvVar where
  "kedaHTTPMinTLSVersion = \<lparr>env_Name = ''KEDA_HTTP_MIN_TLS_VERSION'', env_Value = ''TLS12'',
     env_ValueFrom = None\<rparr>"

definition EnvVars_zero :: EnvVars where
  "EnvVars_zero = [watchNamespace, podName, podNamespace, operatorNameEnv,
     kedaHTTPdefaultTimeout, kedaHTTPMinTLSVersion]"

fun env_contains :: "EnvVars \<Rightarrow> EnvVar \<Rightarrow> bool" where
  "env_contains [] e = False"
| "env_contains (v # vs) e = (if env_Name v = env_Name e then True else env_contains vs e)"

text \<open>
  The guard \<open>v == nil\<close> of \<open>Sanitize\<close> is about the receiver pointer, which the callers never
  leave nil.
\<close>

definition EnvVars_Sanitize :: "EnvVars \<Rightarrow> EnvVars" where
  "EnvVars_Sanitize v = v @ filter (\<lambda>e. \<not> env_contains v e) EnvVars_zero"

section \<open>Status updates\<close>

definition set_condition :: "k8s_lib \<Rightarrow> Condition \<Rightarrow> Keda \<Rightarrow> Keda" where
  "set_condition L c k =
     k\<lparr>k_Status := (k_Status k)\<lparr>st_Conditions := SetStatusCondition L (st_Conditions (k_Status k)) c\<rparr>\<rparr>"

definition set_state :: "string \<Rightarrow> Keda \<Rightarrow> Keda" where
  "set_state st k = k\<lparr>k_Status := (k_Status k)\<lparr>st_State := st\<rparr>\<rparr>"

definition mk_condition :: "string \<Rightarrow> string \<Rightarrow> time \<Rightarrow> string \<Rightarrow> string \<Rightarrow> Condition" where
  "mk_condition c status now r msg =
     \<lparr>cond_Type = c, cond_Status = status, cond_ObservedGeneration = 0,
      cond_LastTransitionTime = now, cond_Reason = r, cond_Message = msg\<rparr>"

definition RemoveCondition :: "k8s_lib \<Rightarrow> string \<Rightarrow> Keda \<Rightarrow> Keda" where
  "RemoveCondition L c k =
     k\<lparr>k_Status := (k_Status k)\<lparr>st_Conditions := RemoveStatusCondition L (st_Conditions (k_Status k)) c\<rparr>\<rparr>"

definition UpdateStateReplicaFailure :: "k8s_lib \<Rightarrow> time \<Rightarrow> string \<Rightarrow> string \<Rightarrow> string \<Rightarrow> Keda \<Rightarrow> Keda" where
  "UpdateStateReplicaFailure L now c r msg k =
     set_condition L (mk_condition c ''True'' now r msg) (set_state StateError k)"

definition UpdateStateFromErr :: "k8s_lib \<Rightarrow> time \<Rightarrow> string \<Rightarrow> string \<Rightarrow> goerror \<Rightarrow> Keda \<Rightarrow> Keda" where
  "UpdateStateFromErr L now c r err k =
     set_condition L (mk_condition c ''False'' now r (Error err)) (set_state StateError k)"

definition UpdateStateFromWarning :: "k8s_lib \<Rightarrow> time \<Rightarrow> string \<Rightarrow> string \<Rightarrow> goerror \<Rightarrow> Keda \<Rightarrow> Keda" where
  "UpdateStateFromWarning L now c r err k =
     set_condition L (mk_condition c ''False'' now r (Error err)) (set_state StateWarning k)"

definition UpdateStateReady :: "k8s_lib \<Rightarrow> time \<Rightarrow> string \<Rightarrow> string \<Rightarrow> string \<Rightarrow> Keda \<Rightarrow> Keda" where
  "UpdateStateReady L now c r msg k =
     set_condition L (mk_condition c ''True'' now r msg) (set_state StateReady k)"

definition UpdateStateProcessing :: "k8s_lib \<Rightarrow> time \<Rightarrow> string \<Rightarrow> string \<Rightarrow> string \<Rightarrow> Keda \<Rightarrow> Keda" where
  "UpdateStateProcessing L now c r msg k =
     set_condition L (mk_condition c ''Unknown'' now r msg) (set_state StateProcessing k)"

definition UpdateStateDeletion :: "k8s_lib \<Rightarrow> time \<Rightarrow> string \<Rightarrow> string \<Rightarrow> string \<Rightarrow> Keda \<Rightarrow> Keda" where
  "UpdateStateDeletion L now c r msg k =
     set_condition L (mk_condition c ''Unknown'' now r msg) (set_state StateDeleting k)"

definition UpdateStateDeletionTrue :: "k8s_lib \<Rightarrow> time \<Rightarrow> string \<Rightarrow> string \<Rightarrow> string \<Rightarrow> Keda \<Rightarrow> Keda" where
  "UpdateStateDeletionTrue L now c r msg k =
     set_condition L (mk_condition c ''True'' now r msg) (set_state StateDeleting k)"

definition UpdateServed :: "string \<Rightarrow> Keda \<Rightarrow> Keda" where
  "UpdateServed served k = k\<lparr>k_Status := (k_Status k)\<lparr>st_Served := served\<rparr>\<rparr>"

definition IsServedEmpty :: "Keda \<Rightarrow> bool" where
  "IsServedEmpty k \<longleftrightarrow> st_Served (k_Status k) = []"

definition SetAddonCondition :: "k8s_lib \<Rightarrow> time \<Rightarrow> string \<Rightarrow> string \<Rightarrow> string \<Rightarrow> Keda \<Rightarrow> Keda" where
  "SetAddonCondition L now status reason msg k =
     set_condition L (mk_condition conditionTypeAddon status now reason msg) k"

lemmas status_defs = set_condition_def set_state_def mk_condition_def RemoveCondition_def
  UpdateStateReplicaFailure_def UpdateStateFromErr_def UpdateStateFromWarning_def
  UpdateStateReady_def UpdateStateProcessing_def UpdateStateDeletion_def
  UpdateStateDeletionTrue_def SetAddonCondition_def

section \<open>The add-on configuration\<close>

record AddonCfg =
  addon_Enabled :: bool
  addon_Namespace :: string
  addon_IstioInjection :: bool

definition EffectiveNamespace :: "AddonCfg \<Rightarrow> string" where
  "EffectiveNamespace a =
     (if addon_Namespace a = [] then DefaultAddonNamespace else addon_Namespace a)"

definition ReadAddonCfg :: "Keda \<Rightarrow> AddonCfg" where
  "ReadAddonCfg k =
     (let ann = meta_Annotations (k_Meta k) in
      if ann = None then \<lparr>addon_Enabled = False, addon_Namespace = [], addon_IstioInjection = False\<rparr>
      else \<lparr>addon_Enabled = EqualFold (map_get ann AnnotationAddonEnabled) ''true'',
             addon_Namespace = map_get ann AnnotationAddonNamespace,
             addon_IstioInjection = EqualFold (map_get ann AnnotationAddonIstioInjection) ''true''\<rparr>)"

definition SetAnnotation :: "string \<Rightarrow> string \<Rightarrow> Keda \<Rightarrow> Keda" where
  "SetAnnotation key v k =
     (let ann = non_nil (meta_Annotations (k_Meta k));
          ann' = (if v = [] then fmdrop key ann else fmupd key v ann)
      in k\<lparr>k_Meta := (k_Meta k)\<lparr>meta_Annotations := Some ann'\<rparr>\<rparr>)"

end
