(* ===== verification/Environment.thy ===== *)
theory Environment
  imports Keda_Types
begin

text \<open>
  What the controller talks to: the Kubernetes API through \<open>client.Client\<close>, the event recorder,
  the HTTP client, the process environment, the files beside the binary and the clock
  (\<open>pkg/reconciler/fsm.go\<close>, types \<open>K8s\<close>, \<open>Cfg\<close>, \<open>fsm\<close>, \<open>systemState\<close>).  Every call that
  leaves the process is recorded in a history; an answer of the environment is a function of the
  history before the call and of the arguments, and is otherwise unconstrained: the API server
  may fail, and may change between two calls.
\<close>

section \<open>Calls\<close>

datatype request =
    ReqGet string string
  | ReqListKedas
  | ReqList GVK
  | ReqCreateNamespace string
  | ReqPatch obj
  | ReqDelete obj
  | ReqUpdate Keda
  | ReqStatusUpdate Keda
  | ReqEvent string string string
  | ReqHTTPGet string

type_synonym hist = "request list"

fun is_ReqPatch :: "request \<Rightarrow> bool" where
  "is_ReqPatch (ReqPatch u) = True"
| "is_ReqPatch _ = False"

fun is_ReqDelete :: "request \<Rightarrow> bool" where
  "is_ReqDelete (ReqDelete u) = True"
| "is_ReqDelete _ = False"

fun is_ReqUpdate :: "request \<Rightarrow> bool" where
  "is_ReqUpdate (ReqUpdate k) = True"
| "is_ReqUpdate _ = False"

fun is_ReqStatusUpdate :: "request \<Rightarrow> bool" where
  "is_ReqStatusUpdate (ReqStatusUpdate k) = True"
| "is_ReqStatusUpdate _ = False"

fun is_ReqEvent :: "request \<Rightarrow> bool" where
  "is_ReqEvent (ReqEvent t r m) = True"
| "is_ReqEvent _ = False"

text \<open>
  The error of an HTTP request, down to the types \<open>errors.As\<close> looks for; the first field of each
  is its text.
\<close>

datatype net_error =
    CertificateVerificationError string net_error
  | UnknownAuthorityError string
  | UrlError string net_error
  | OtherNetError string

fun net_text :: "net_error \<Rightarrow> string" where
  "net_text (CertificateVerificationError t e) = t"
| "net_text (UnknownAuthorityError t) = t"
| "net_text (UrlError t e) = t"
| "net_text (OtherNetError t) = t"

record http_response =
  StatusCode :: nat
  Body :: "goerror + string"

text \<open>
  The answers.  \<open>e_ctx_err\<close> is \<open>ctx.Err()\<close> before the n-th step of a run, \<open>None\<close> while the context is
  not done.  A write returns the error and the object as the call leaves it.  \<open>e_map_order\<close> is the
  order in which \<open>range\<close> visits the keys of a map.
\<close>

record env =
  e_now :: "hist \<Rightarrow> time"
  e_ctx_err :: "nat \<Rightarrow> hist \<Rightarrow> goerror option"
  e_getenv :: "string \<Rightarrow> string"
  e_open :: "string \<Rightarrow> goerror + string"
  e_get :: "hist \<Rightarrow> string \<Rightarrow> string \<Rightarrow> goerror + Keda"
  e_list_kedas :: "hist \<Rightarrow> goerror + Keda list"
  e_list :: "hist \<Rightarrow> GVK \<Rightarrow> goerror option \<times> obj list"
  e_create_ns :: "hist \<Rightarrow> string \<Rightarrow> goerror option"
  e_patch :: "hist \<Rightarrow> obj \<Rightarrow> goerror option \<times> obj"
  e_delete :: "hist \<Rightarrow> obj \<Rightarrow> goerror option"
  e_update :: "hist \<Rightarrow> Keda \<Rightarrow> goerror option \<times> Keda"
  e_status_update :: "hist \<Rightarrow> Keda \<Rightarrow> goerror option \<times> Keda"
  e_http_get :: "hist \<Rightarrow> string \<Rightarrow> net_error + http_response"
  e_map_order :: "string list \<Rightarrow> string list"

section \<open>The classification of errors\<close>

definition IsNotFound :: "goerror option \<Rightarrow> bool" where
  "IsNotFound e = (case e of None \<Rightarrow> False | Some x \<Rightarrow> err_class x = NotFound)"

definition IsAlreadyExists :: "goerror option \<Rightarrow> bool" where
  "IsAlreadyExists e = (case e of None \<Rightarrow> False | Some x \<Rightarrow> err_class x = AlreadyExists)"

definition IsNoMatchError :: "goerror option \<Rightarrow> bool" where
  "IsNoMatchError e = (case e of None \<Rightarrow> False | Some x \<Rightarrow> err_class x = NoMatch)"

definition IgnoreNotFound :: "goerror option \<Rightarrow> goerror option" where
  "IgnoreNotFound e = (if IsNotFound e then None else e)"

lemma IgnoreNotFound_None [simp]: "IgnoreNotFound None = None"
  by (simp add: IgnoreNotFound_def)

lemma IgnoreNotFound_Some_iff:
  "IgnoreNotFound e = Some x \<longleftrightarrow> e = Some x \<and> err_class x \<noteq> NotFound"
  by (auto simp: IgnoreNotFound_def IsNotFound_def split: option.splits if_splits)

section \<open>The state of a reconciliation\<close>

record fsm =
  f_Finalizer :: string
  f_Objs :: "obj list"
  f_AddonObjs :: "obj list"
  f_APIServerIP :: string
  f_hist :: hist

record systemState =
  s_instance :: Keda
  s_objs :: "obj list"
  s_snapshot :: Status

record Result =
  r_Requeue :: bool
  r_RequeueAfter :: nat

definition log_req :: "request \<Rightarrow> fsm \<Rightarrow> fsm" where
  "log_req q r = r\<lparr>f_hist := f_hist r @ [q]\<rparr>"

lemma log_req_simps [simp]:
  "f_hist (log_req q r) = f_hist r @ [q]"
  "f_Objs (log_req q r) = f_Objs r"
  "f_AddonObjs (log_req q r) = f_AddonObjs r"
  "f_Finalizer (log_req q r) = f_Finalizer r"
  "f_APIServerIP (log_req q r) = f_APIServerIP r"
  by (simp_all add: log_req_def)

definition set_instance :: "Keda \<Rightarrow> systemState \<Rightarrow> systemState" where
  "set_instance k s = s\<lparr>s_instance := k\<rparr>"

lemma set_instance_simps [simp]:
  "s_instance (set_instance k s) = k"
  "s_objs (set_instance k s) = s_objs s"
  "s_snapshot (set_instance k s) = s_snapshot s"
  "set_instance k (set_instance k' s) = set_instance k s"
  by (simp_all add: set_instance_def)

text \<open>\<open>saveKedaStatus\<close>: the instance is a value, so \<open>DeepCopy\<close> of its status is not nil.\<close>

definition saveKedaStatus :: "systemState \<Rightarrow> systemState" where
  "saveKedaStatus s = s\<lparr>s_snapshot := k_Status (s_instance s)\<rparr>"

section \<open>Histories\<close>

text \<open>
  \<open>hist_ext P r r'\<close>: between the states \<open>r\<close> and \<open>r'\<close> only requests satisfying \<open>P\<close> were made.
\<close>

definition hist_ext :: "(request \<Rightarrow> bool) \<Rightarrow> fsm \<Rightarrow> fsm \<Rightarrow> bool" where
  "hist_ext P r r' \<longleftrightarrow> (\<exists>qs. f_hist r' = f_hist r @ qs \<and> list_all P qs)"

lemma hist_ext_refl [simp, intro, hist_intros]: "hist_ext P r r"
  by (simp add: hist_ext_def)

lemma hist_ext_same_hist [simp, hist_intros]: "f_hist r' = f_hist r \<Longrightarrow> hist_ext P r r'"
  by (simp add: hist_ext_def)

lemma hist_ext_log_req [simp, hist_intros]: "P q \<Longrightarrow> hist_ext P r (log_req q r)"
  by (simp add: hist_ext_def)

lemma hist_ext_trans: "hist_ext P r r' \<Longrightarrow> hist_ext P r' r'' \<Longrightarrow> hist_ext P r r''"
  by (auto simp: hist_ext_def)

lemma hist_ext_mono: "hist_ext P r r' \<Longrightarrow> (\<And>q. P q \<Longrightarrow> Q q) \<Longrightarrow> hist_ext Q r r'"
  by (auto simp: hist_ext_def list_all_iff)

lemma hist_ext_set:
  "hist_ext P r r' \<Longrightarrow> q \<in> set (f_hist r') \<Longrightarrow> q \<in> set (f_hist r) \<or> P q"
  by (auto simp: hist_ext_def list_all_iff)

end
