(* ===== verification/Deployment_Updates.thy ===== *)
theory Deployment_Updates
  imports Environment
begin

text \<open>
  The functions of \<open>pkg/reconciler/fsm.go\<close> that change one object of the module: the generic
  \<open>updateObj\<close>, the updaters of deployments and of the webhook network policy, and the predicates
  that find the objects.  An updater takes the typed object and its data and returns its error,
  the object and the data as it leaves them (\<open>Sanitize\<close> writes through a pointer of the data).
  The locale \<open>updater\<close> is the contract every updater keeps; it is interpreted on all of them.
\<close>

section \<open>Updating an unstructured object\<close>

type_synonym 'd conv = "(obj \<Rightarrow> goerror + 'd) \<times> ('d \<Rightarrow> goerror + obj)"

definition deployment_conv :: "k8s_lib \<Rightarrow> Deployment conv" where
  "deployment_conv L = (FromDeployment L, ToDeployment L)"

definition network_policy_conv :: "k8s_lib \<Rightarrow> NetworkPolicy conv" where
  "network_policy_conv L = (FromNetworkPolicy L, ToNetworkPolicy L)"

type_synonym ('d, 'r) update = "'d \<Rightarrow> 'r \<Rightarrow> (goerror option \<times> 'd \<times> 'r) go"

text \<open>
  \<open>u.Object\<close> is assigned both results of \<open>toUnstructed\<close>: on its error the object is left nil,
  here the empty map.
\<close>

definition updateObj ::
  "'d conv \<Rightarrow> obj \<Rightarrow> 'r \<Rightarrow> ('d, 'r) update \<Rightarrow> (goerror option \<times> obj \<times> 'r) go" where
  "updateObj conv u data update =
     (case fst conv u of
        Inl err \<Rightarrow> Ret (Some err, u, data)
      | Inr result \<Rightarrow>
          (case update result data of
             Panic p \<Rightarrow> Panic p
           | Ret (Some err, result', data') \<Rightarrow> Ret (Some err, u, data')
           | Ret (None, result', data') \<Rightarrow>
               (case snd conv result' of
                  Inl err \<Rightarrow> Ret (Some err, fmempty, data')
                | Inr u' \<Rightarrow> Ret (None, u', data'))))"

section \<open>Finding objects\<close>

abbreviation operatorName :: string where
  "operatorName \<equiv> ''keda-operator''"
abbreviation matricsServerName :: string where
  "matricsServerName \<equiv> ''keda-operator-metrics-apiserver''"
abbreviation admissionWebhooksName :: string where
  "admissionWebhooksName \<equiv> ''keda-admission-webhooks''"

definition ErrNotFound :: goerror where
  "ErrNotFound = errors_New ''not found''"

definition hasOperatorName :: "k8s_lib \<Rightarrow> obj \<Rightarrow> bool" where
  "hasOperatorName L u \<longleftrightarrow> GetName L u = operatorName"

definition isDeployment :: "k8s_lib \<Rightarrow> obj \<Rightarrow> bool" where
  "isDeployment L u \<longleftrightarrow> GetKind L u = ''Deployment'' \<and> GetAPIVersion L u = ''apps/v1''"

definition isWebhookNetworkPolicy :: "k8s_lib \<Rightarrow> obj \<Rightarrow> bool" where
  "isWebhookNetworkPolicy L u \<longleftrightarrow>
     GetKind L u = ''NetworkPolicy'' \<and> GetAPIVersion L u = ''networking.k8s.io/v1''
     \<and> map_get (GetLabels L u) ''purpose'' = ''webhook''"

definition isKedaOperatorDeployment :: "k8s_lib \<Rightarrow> obj \<Rightarrow> bool" where
  "isKedaOperatorDeployment L u \<longleftrightarrow> hasOperatorName L u \<and> isDeployment L u"

definition hasMetricsServerName :: "k8s_lib \<Rightarrow> obj \<Rightarrow> bool" where
  "hasMetricsServerName L u \<longleftrightarrow> GetName L u = matricsServerName"

definition isKedaMatricsServerDeployment :: "k8s_lib \<Rightarrow> obj \<Rightarrow> bool" where
  "isKedaMatricsServerDeployment L u \<longleftrightarrow> hasMetricsServerName L u \<and> isDeployment L u"

definition hasAdmissionWebhooksName :: "k8s_lib \<Rightarrow> obj \<Rightarrow> bool" where
  "hasAdmissionWebhooksName L u \<longleftrightarrow> GetName L u = admissionWebhooksName"

definition isAdmissionWebhooksDeployment :: "k8s_lib \<Rightarrow> obj \<Rightarrow> bool" where
  "isAdmissionWebhooksDeployment L u \<longleftrightarrow> hasAdmissionWebhooksName L u \<and> isDeployment L u"

definition isAddmissionWebhookNetworkPolicy :: "k8s_lib \<Rightarrow> obj \<Rightarrow> bool" where
  "isAddmissionWebhookNetworkPolicy L u \<longleftrightarrow> isWebhookNetworkPolicy L u"

text \<open>A pointer into \<open>c.Objs\<close> is the index of the element.\<close>

fun first_index :: "(obj \<Rightarrow> bool) \<Rightarrow> obj list \<Rightarrow> nat option" where
  "first_index p [] = None"
| "first_index p (u # us) = (if \<not> p u then map_option Suc (first_index p us) else Some 0)"

definition firstUnstructed :: "(obj \<Rightarrow> bool) \<Rightarrow> obj list \<Rightarrow> goerror + nat" where
  "firstUnstructed p us =
     (case first_index p us of
        Some i \<Rightarrow> Inr i
      | None \<Rightarrow> Inl (errorf_w [] ErrNotFound '': no object for given predicate''))"

definition kedaOperatorDeployment :: "k8s_lib \<Rightarrow> fsm \<Rightarrow> goerror + nat" where
  "kedaOperatorDeployment L c = firstUnstructed (isKedaOperatorDeployment L) (f_Objs c)"

definition kedaMetricsServerDeployment :: "k8s_lib \<Rightarrow> fsm \<Rightarrow> goerror + nat" where
  "kedaMetricsServerDeployment L c = firstUnstructed (isKedaMatricsServerDeployment L) (f_Objs c)"

definition kedaAdmissionWebhooksDeployment :: "k8s_lib \<Rightarrow> fsm \<Rightarrow> goerror + nat" where
  "kedaAdmissionWebhooksDeployment L c =
     firstUnstructed (isAdmissionWebhooksDeployment L) (f_Objs c)"

lemma first_index_Some:
  "first_index p us = Some i \<Longrightarrow> i < length us \<and> p (us ! i) \<and> (\<forall>j<i. \<not> p (us ! j))"
  by (induction us arbitrary: i) (auto split: if_splits simp: less_Suc_eq_0_disj)

lemma first_index_None: "first_index p us = None \<longleftrightarrow> (\<forall>u\<in>set us. \<not> p u)"
  by (induction us) auto

lemma firstUnstructed_Inr:
  "firstUnstructed p us = Inr i \<Longrightarrow> i < length us \<and> p (us ! i)"
  using first_index_Some [of p us i] by (auto simp: firstUnstructed_def split: option.splits)

section \<open>Labels, annotations, priority class\<close>

definition setCommonLabels :: "smap option \<Rightarrow> smap option go" where
  "setCommonLabels labels =
     go_bind (map_put labels ''kyma-project.io/module'' ''keda'') (\<lambda>l1.
     go_bind (map_put l1 ''app.kubernetes.io/part-of'' ''keda-manager'') (\<lambda>l2.
     map_put l2 ''app.kubernetes.io/managed-by'' ''keda-manager''))"

definition updateDeploymentLabels :: "(Deployment, IstioCfg) update" where
  "updateDeploymentLabels d config =
     go_bind (setCommonLabels (d_TemplateLabels d)) (\<lambda>l.
     go_bind (map_put l ''sidecar.istio.io/inject''
               (FormatBool (istio_EnabledSidecarInjection config))) (\<lambda>l'.
     Ret (None, d\<lparr>d_TemplateLabels := l'\<rparr>, config)))"

text \<open>A pointer to \<open>map[string]string\<close> is dereferenced by the caller; ranging over a nil map does nothing.\<close>

definition updateDeploymentAnnotations :: "(Deployment, smap option) update" where
  "updateDeploymentAnnotations d annotations =
     Ret (None,
          d\<lparr>d_TemplateAnnotations :=
              Some (fmadd (non_nil (d_TemplateAnnotations d)) (non_nil annotations))\<rparr>,
          annotations)"

definition updateDeploymentPriorityClass :: "(Deployment, string) update" where
  "updateDeploymentPriorityClass d name = Ret (None, d\<lparr>d_PriorityClassName := name\<rparr>, name)"

section \<open>The first container\<close>

text \<open>\<open>Containers[0]\<close> panics on an empty slice.\<close>

definition container0 :: "(Container \<Rightarrow> Container) \<Rightarrow> Deployment \<Rightarrow> Deployment go" where
  "container0 f d =
     (case d_Containers d of
        [] \<Rightarrow> Panic ''index out of range [0] with length 0''
      | c # cs \<Rightarrow> Ret (d\<lparr>d_Containers := f c # cs\<rparr>))"

definition updateDeploymentContainer0Args ::
  "(string \<Rightarrow> string) \<Rightarrow> (string list \<Rightarrow> string list) \<Rightarrow> Deployment \<Rightarrow> Deployment go" where
  "updateDeploymentContainer0Args update_arg missing_args d =
     container0 (\<lambda>c. let args = map update_arg (c_Args c)
                     in c\<lparr>c_Args := args @ missing_args args\<rparr>) d"

definition updateKedaOperatorContainer0Args :: "(Deployment, LoggingCommonCfg) update" where
  "updateKedaOperatorContainer0Args d logCfg =
     (let cfg = LoggingCommonCfg_Sanitize logCfg in
      go_bind (updateDeploymentContainer0Args (UpdateArg cfg) (AppendMissingArgs cfg) d)
        (\<lambda>d'. Ret (None, d', cfg)))"

definition updateKedaContanier0Resources :: "(Deployment, json) update" where
  "updateKedaContanier0Resources d resources =
     go_bind (container0 (\<lambda>c. c\<lparr>c_Resources := resources\<rparr>) d) (\<lambda>d'. Ret (None, d', resources))"

text \<open>\<open>Sanitize\<close> appends to the parameter's own slice; the caller's is as before.\<close>

definition updateKedaContanierEnvs :: "(Deployment, EnvVars) update" where
  "updateKedaContanierEnvs d envs =
     go_bind (container0 (\<lambda>c. c\<lparr>c_Env := EnvVars_Sanitize envs\<rparr>) d) (\<lambda>d'. Ret (None, d', envs))"

abbreviation logToStderrFlag :: string where
  "logToStderrFlag \<equiv> ''--logtostderr''"

definition logToStderrArg :: "string option \<Rightarrow> string" where
  "logToStderrArg format = ''--logtostderr='' @ FormatBool (format \<noteq> Some LogFormatJSON)"

fun set_logtostderr :: "string \<Rightarrow> string list \<Rightarrow> string list" where
  "set_logtostderr v [] = [v]"
| "set_logtostderr v (a # as) =
     (if HasPrefix a logToStderrFlag then v # as else a # set_logtostderr v as)"

definition updateMetricsServerLogToStderr :: "string option \<Rightarrow> Deployment \<Rightarrow> Deployment go" where
  "updateMetricsServerLogToStderr format d =
     container0 (\<lambda>c. c\<lparr>c_Args := set_logtostderr (logToStderrArg format) (c_Args c)\<rparr>) d"

definition updateKedaMetricsServerContainer0Args :: "(Deployment, LoggingCommonCfg) update" where
  "updateKedaMetricsServerContainer0Args d logCfg =
     (let cfg = LoggingCommonCfg_Sanitize logCfg in
      go_bind (updateMetricsServerLogToStderr (log_Format cfg) d) (\<lambda>d1.
      go_bind (updateDeploymentContainer0Args (UpdateArg cfg) (AppendMissingArgs cfg) d1)
        (\<lambda>d'. Ret (None, d', cfg))))"

definition updateKedaAdmissionWebhooksContainer0Args :: "(Deployment, LoggingCommonCfg) update" where
  "updateKedaAdmissionWebhooksContainer0Args d logCfg =
     (let cfg = LoggingCommonCfg_Sanitize logCfg in
      go_bind (updateDeploymentContainer0Args (UpdateArg cfg) (AppendMissingArgs cfg) d)
        (\<lambda>d'. Ret (None, d', cfg)))"

section \<open>The webhook network policy\<close>

text \<open>\<open>p.Port.IntVal\<close> dereferences the port, which panics when it is nil.\<close>

fun update_rule_from :: "string \<Rightarrow> IntOrString option list \<Rightarrow> NetworkPolicyPeer list
    \<Rightarrow> NetworkPolicyPeer list go" where
  "update_rule_from addr [] from = Ret from"
| "update_rule_from addr (None # ps) from =
     Panic ''invalid memory address or nil pointer dereference''"
| "update_rule_from addr (Some p # ps) from =
     (if ios_IntVal p = 9443 \<and> from = [] then update_rule_from addr ps [IPBlockPeer addr]
      else update_rule_from addr ps from)"

fun update_ingress :: "string \<Rightarrow> IngressRule list \<Rightarrow> IngressRule list go" where
  "update_ingress addr [] = Ret []"
| "update_ingress addr (i # is) =
     go_bind (update_rule_from addr (in_Ports i) (in_From i)) (\<lambda>from.
     go_bind (update_ingress addr is) (\<lambda>is'. Ret (i\<lparr>in_From := from\<rparr> # is')))"

definition updateAdmissionWebhooksNetworkPolicy :: "(NetworkPolicy, string) update" where
  "updateAdmissionWebhooksNetworkPolicy np apiServerAddress =
     go_bind (update_ingress apiServerAddress (np_Ingress np)) (\<lambda>is.
     Ret (None, np\<lparr>np_Ingress := is\<rparr>, apiServerAddress))"

section \<open>Images\<close>

abbreviation EnvOperatorImage :: string where
  "EnvOperatorImage \<equiv> ''IMAGE_KEDA_OPERATOR''"
abbreviation EnvMetricsImage :: string where
  "EnvMetricsImage \<equiv> ''IMAGE_KEDA_METRICS_APISERVER''"
abbreviation EnvAdmissionImage :: string where
  "EnvAdmissionImage \<equiv> ''IMAGE_KEDA_ADMISSION_WEBHOOKS''"
abbreviation EnvKymaFipsMode :: string where
  "EnvKymaFipsMode \<equiv> ''KYMA_FIPS_MODE_ENABLED''"
abbreviation EnvFipsImageVariantKeySuffix :: string where
  "EnvFipsImageVariantKeySuffix \<equiv> ''_FIPS''"

definition updateImageIfOverride ::
  "(string \<Rightarrow> string) \<Rightarrow> string \<Rightarrow> bool \<Rightarrow> Deployment \<Rightarrow> Deployment go" where
  "updateImageIfOverride getenv envName fipsEnabled dep =
     (let name = (if fipsEnabled then envName @ EnvFipsImageVariantKeySuffix else envName);
          imageName = getenv name
      in if imageName \<noteq> [] then container0 (\<lambda>c. c\<lparr>c_Image := imageName\<rparr>) dep else Ret dep)"

text \<open>
  The first result is the map to assign to \<open>obj.Object\<close>: nil, here empty, with an error.
\<close>

definition updateImagesInDeployments ::
  "k8s_lib \<Rightarrow> (string \<Rightarrow> string) \<Rightarrow> obj \<Rightarrow> (obj \<times> goerror option) go" where
  "updateImagesInDeployments L getenv u =
     (if fmlookup u ''kind'' = Some (JStr ''Deployment'') then
        (case FromDeployment L u of
           Inl err \<Rightarrow> Ret (fmempty, Some (errorf_w ''convert from unstructured error: '' err []))
         | Inr dep \<Rightarrow>
             (let fipsEnabled = (ToLower (getenv EnvKymaFipsMode) = ''true'') in
              go_bind
                (if d_Name dep = operatorName
                   then updateImageIfOverride getenv EnvOperatorImage fipsEnabled dep
                 else if d_Name dep = matricsServerName
                   then updateImageIfOverride getenv EnvMetricsImage fipsEnabled dep
                 else if d_Name dep = admissionWebhooksName
                   then updateImageIfOverride getenv EnvAdmissionImage fipsEnabled dep
                 else Ret dep)
                (\<lambda>dep'. case ToDeployment L dep' of
                    Inl err \<Rightarrow> Ret (fmempty, Some (errorf_w ''convert to unstructured error: '' err []))
                  | Inr converted \<Rightarrow> Ret (converted, None))))
      else Ret (u, None))"

end
