(* ===== verification/Updater_Contract.thy ===== *)
theory Updater_Contract
  imports Deployment_Updates
begin

text \<open>
  The contract of the updaters of \<open>Deployment_Updates\<close>, as a locale, and its interpretation on
  each of them.  An updater never reports an error, and applied to its own result with the data it
  left behind it changes nothing more, up to the normal form of the conversion to an unstructured
  object.  The objects of the module live across reconciliations, so every reconciliation applies
  the updaters to the result of the previous one: \<open>updateObj_again\<close> is what keeps them stable.
\<close>

section \<open>The contract\<close>

locale updater =
  fixes update :: "('d, 'r) update"
    and norm :: "'d \<Rightarrow> 'd"
  assumes no_error: "update d x = Ret (e, d', x') \<Longrightarrow> e = None"
    and again: "update d x = Ret (None, d', x') \<Longrightarrow>
        \<exists>d''. update (norm d') x' = Ret (None, d'', x') \<and> norm d'' = norm d'"
begin

text \<open>A conversion that agrees with the normal form.\<close>

definition converts :: "'d conv \<Rightarrow> bool" where
  "converts conv \<longleftrightarrow>
     (\<forall>d u. snd conv d = Inr u \<longrightarrow> fst conv u = Inr (norm d)) \<and> (\<forall>d. snd conv (norm d) = snd conv d)"

lemma updateObj_RetD:
  assumes "updateObj conv u x update = Ret (None, u', x')"
  obtains d d' where "fst conv u = Inr d" "update d x = Ret (None, d', x')" "snd conv d' = Inr u'"
  using assms by (auto simp: updateObj_def split: sum.splits go.splits option.splits prod.splits)

lemma updateObj_again:
  assumes "converts conv" "updateObj conv u x update = Ret (None, u', x')"
  shows "updateObj conv u' x' update = Ret (None, u', x')"
proof -
  from assms(2) obtain d d' where d: "update d x = Ret (None, d', x')" "snd conv d' = Inr u'"
    by (rule updateObj_RetD)
  from again [OF d(1)] obtain d'' where
    d'': "update (norm d') x' = Ret (None, d'', x')" "norm d'' = norm d'" by blast
  have "fst conv u' = Inr (norm d')" using assms(1) d(2) by (auto simp: converts_def)
  moreover have "snd conv d'' = Inr u'"
    using assms(1) d(2) d''(2) unfolding converts_def by metis
  ultimately show ?thesis using d''(1) by (simp add: updateObj_def)
qed

text \<open>The only errors are those of the conversion.\<close>

lemma updateObj_error:
  assumes "updateObj conv u x update = Ret (Some err, u', x')"
  shows "fst conv u = Inl err \<and> u' = u \<or> (\<exists>d. snd conv d = Inl err) \<and> u' = fmempty"
  using assms
  by (auto simp: updateObj_def split: sum.splits go.splits option.splits prod.splits
      dest: no_error)

end

section \<open>The updaters keep the contract\<close>

definition with_common_labels :: "smap \<Rightarrow> smap" where
  "with_common_labels f =
     fmupd ''app.kubernetes.io/managed-by'' ''keda-manager''
       (fmupd ''app.kubernetes.io/part-of'' ''keda-manager''
         (fmupd ''kyma-project.io/module'' ''keda'' f))"

lemma setCommonLabels_simps:
  "setCommonLabels None = Panic ''assignment to entry in nil map''"
  "setCommonLabels (Some f) = Ret (Some (with_common_labels f))"
  by (simp_all add: setCommonLabels_def map_put_def with_common_labels_def)

lemma setCommonLabels_Ret:
  "setCommonLabels l = Ret l' \<longleftrightarrow> (\<exists>f. l = Some f \<and> l' = Some (with_common_labels f))"
  by (cases l) (auto simp: setCommonLabels_simps)

lemma fmupd_swap: "a \<noteq> b \<Longrightarrow> fmupd a x (fmupd b y f) = fmupd b y (fmupd a x f)"
  by (rule fmap_ext) auto

lemma fmupd_absorb: "fmlookup f a = Some x \<Longrightarrow> fmupd a x f = f"
  by (rule fmap_ext) auto

lemma with_common_labels_idem [simp]:
  "with_common_labels (with_common_labels f) = with_common_labels f"
  unfolding with_common_labels_def by (rule fmap_ext) simp

lemma fmlookup_with_common_labels:
  "fmlookup (with_common_labels f) k =
     (if k = ''app.kubernetes.io/managed-by'' \<or> k = ''app.kubernetes.io/part-of'' then Some ''keda-manager''
      else if k = ''kyma-project.io/module'' then Some ''keda'' else fmlookup f k)"
  by (simp add: with_common_labels_def)

lemma with_common_labels_again:
  "with_common_labels (fmupd ''sidecar.istio.io/inject'' v (with_common_labels f))
   = fmupd ''sidecar.istio.io/inject'' v (with_common_labels f)"
  by (rule fmap_ext) (simp add: fmlookup_with_common_labels)

lemma fmupd_not_empty [simp]: "fmupd k v f \<noteq> fmempty" "fmempty \<noteq> fmupd k v f"
  by (metis fmempty_lookup fmupd_lookup option.distinct(1))+

lemma nil_if_empty_upd [simp]: "nil_if_empty (Some (fmupd k v f)) = Some (fmupd k v f)"
  by (simp add: nil_if_empty_def)

lemma nil_if_empty_idem [simp]: "nil_if_empty (nil_if_empty m) = nil_if_empty m"
  by (simp add: nil_if_empty_def)

lemma non_nil_nil_if_empty [simp]: "non_nil (nil_if_empty m) = non_nil m"
  by (simp add: nil_if_empty_def)

lemma fmadd_absorb [simp]: "fmadd (fmadd f g) g = fmadd f g"
  by (rule fmap_ext) auto

interpretation upd_labels: updater updateDeploymentLabels omit_empty
proof unfold_locales
  fix d x e d' x'
  assume "updateDeploymentLabels d x = Ret (e, d', x')"
  then show "e = None" by (auto simp: updateDeploymentLabels_def go_bind_Ret_iff)
next
  fix d x d' x'
  assume "updateDeploymentLabels d x = Ret (None, d', x')"
  then show "\<exists>d''. updateDeploymentLabels (omit_empty d') x' = Ret (None, d'', x')
      \<and> omit_empty d'' = omit_empty d'"
    by (auto simp: updateDeploymentLabels_def go_bind_Ret_iff setCommonLabels_Ret map_put_def
        omit_empty_def with_common_labels_again)
qed

interpretation upd_annotations: updater updateDeploymentAnnotations omit_empty
  by unfold_locales (auto simp: updateDeploymentAnnotations_def omit_empty_def)

interpretation upd_priority: updater updateDeploymentPriorityClass omit_empty
  by unfold_locales (auto simp: updateDeploymentPriorityClass_def omit_empty_def)

lemma container0_Ret:
  "container0 f d = Ret d' \<longleftrightarrow>
     (\<exists>c cs. d_Containers d = c # cs \<and> d' = d\<lparr>d_Containers := f c # cs\<rparr>)"
  by (auto simp: container0_def split: list.splits)

text \<open>Updating the first container with a function that is stable on its results.\<close>

lemma container0_again:
  assumes "container0 f d = Ret d'" and "\<And>c. g (f c) = f c"
  shows "container0 g (omit_empty d') = Ret (omit_empty d')"
  using assms by (auto simp: container0_Ret omit_empty_def)

lemma omit_empty_idem [simp]: "omit_empty (omit_empty d) = omit_empty d"
  by (simp add: omit_empty_def)

interpretation upd_resources: updater updateKedaContanier0Resources omit_empty
  by unfold_locales
     (auto simp: updateKedaContanier0Resources_def go_bind_Ret_iff
        intro!: exI [of _ "omit_empty d" for d] container0_again)

interpretation upd_envs: updater updateKedaContanierEnvs omit_empty
  by unfold_locales
     (auto simp: updateKedaContanierEnvs_def go_bind_Ret_iff
        intro!: exI [of _ "omit_empty d" for d] container0_again)

lemma Sanitize_idem [simp]:
  "LoggingCommonCfg_Sanitize (LoggingCommonCfg_Sanitize c) = LoggingCommonCfg_Sanitize c"
  by (simp add: LoggingCommonCfg_Sanitize_def)

interpretation upd_operator_args: updater updateKedaOperatorContainer0Args omit_empty
proof unfold_locales
  fix d x e d' x'
  assume "updateKedaOperatorContainer0Args d x = Ret (e, d', x')"
  then show "e = None"
    by (auto simp: updateKedaOperatorContainer0Args_def Let_def go_bind_Ret_iff)
next
  fix d x d' x'
  let ?c = "LoggingCommonCfg_Sanitize x"
  assume "updateKedaOperatorContainer0Args d x = Ret (None, d', x')"
  then have a: "updateDeploymentContainer0Args (UpdateArg ?c) (AppendMissingArgs ?c) d = Ret d'" "x' = ?c"
    by (auto simp: updateKedaOperatorContainer0Args_def Let_def go_bind_Ret_iff)
  have "updateDeploymentContainer0Args (UpdateArg ?c) (AppendMissingArgs ?c) (omit_empty d')
      = Ret (omit_empty d')"
    using a(1) unfolding updateDeploymentContainer0Args_def
    by (rule container0_again) (simp add: Let_def logging_cfg.configure_idem del: map_append map_map)
  with a(2) show "\<exists>d''. updateKedaOperatorContainer0Args (omit_empty d') x' = Ret (None, d'', x')
      \<and> omit_empty d'' = omit_empty d'"
    by (simp add: updateKedaOperatorContainer0Args_def)
qed

text \<open>The flag \<open>--logtostderr\<close> is none of the three zap flags.\<close>

lemma logtostderr_not_zap:
  "HasPrefix a logToStderrFlag \<Longrightarrow> UpdateArg c a = a"
  by (auto simp: UpdateArg_cases log_defs HasPrefix_iff)

lemma HasPrefix_UpdateArg: "HasPrefix (UpdateArg c a) logToStderrFlag \<longleftrightarrow> HasPrefix a logToStderrFlag"
  by (auto simp: UpdateArg_cases log_defs HasPrefix_iff)

lemma logToStderrArg_prefix [simp]: "HasPrefix (logToStderrArg f) logToStderrFlag"
  by (simp add: logToStderrArg_def HasPrefix_def)

lemma map_UpdateArg_set_logtostderr:
  "HasPrefix v logToStderrFlag \<Longrightarrow>
   map (UpdateArg c) (set_logtostderr v xs) = set_logtostderr v (map (UpdateArg c) xs)"
  by (induction xs) (simp_all add: logtostderr_not_zap HasPrefix_UpdateArg)

lemma set_logtostderr_again:
  "HasPrefix v logToStderrFlag \<Longrightarrow>
   set_logtostderr v (set_logtostderr v xs @ ys) = set_logtostderr v xs @ ys"
  by (induction xs) simp_all

lemma set_logtostderr_mem: "v \<in> set (set_logtostderr v xs)"
  by (induction xs) auto

definition metrics_args :: "LoggingCommonCfg \<Rightarrow> string list \<Rightarrow> string list" where
  "metrics_args c xs =
     (let args = map (UpdateArg c) (set_logtostderr (logToStderrArg (log_Format c)) xs)
      in args @ AppendMissingArgs c args)"

lemma metrics_args_again: "metrics_args c (metrics_args c xs) = metrics_args c xs"
proof -
  let ?v = "logToStderrArg (log_Format c)"
  let ?args = "map (UpdateArg c) (set_logtostderr ?v xs)"
  let ?ys = "?args @ AppendMissingArgs c ?args"
  have "set_logtostderr ?v ?ys = ?ys"
    by (simp only: map_UpdateArg_set_logtostderr [OF logToStderrArg_prefix]
        set_logtostderr_again [OF logToStderrArg_prefix])
  then show ?thesis
    by (simp only: metrics_args_def Let_def logging_cfg.configure_idem [OF refl])
qed

lemma updateKedaMetricsServerContainer0Args_eq:
  "updateKedaMetricsServerContainer0Args d x =
     (let cfg = LoggingCommonCfg_Sanitize x in
      go_bind (container0 (\<lambda>c. c\<lparr>c_Args := metrics_args cfg (c_Args c)\<rparr>) d)
        (\<lambda>d'. Ret (None, d', cfg)))"
  by (simp add: updateKedaMetricsServerContainer0Args_def updateMetricsServerLogToStderr_def
      updateDeploymentContainer0Args_def container0_def metrics_args_def Let_def split: list.splits)

interpretation upd_metrics_args: updater updateKedaMetricsServerContainer0Args omit_empty
  by unfold_locales
     (auto simp: updateKedaMetricsServerContainer0Args_eq Let_def go_bind_Ret_iff metrics_args_again
        intro!: exI [of _ "omit_empty d" for d] container0_again)

lemma webhooks_args_eq: "updateKedaAdmissionWebhooksContainer0Args = updateKedaOperatorContainer0Args"
  by (intro ext) (simp add: updateKedaAdmissionWebhooksContainer0Args_def
      updateKedaOperatorContainer0Args_def)

interpretation upd_webhooks_args: updater updateKedaAdmissionWebhooksContainer0Args omit_empty
  unfolding webhooks_args_eq by (rule upd_operator_args.updater_axioms)

lemma update_rule_from_nonempty:
  "update_rule_from addr ps from = Ret from' \<Longrightarrow> from \<noteq> [] \<Longrightarrow> from' = from"
  by (induction addr ps "from" rule: update_rule_from.induct) auto

lemma update_rule_from_again:
  "update_rule_from addr ps from = Ret from' \<Longrightarrow> update_rule_from addr ps from' = Ret from'"
proof (induction addr ps "from" rule: update_rule_from.induct)
  case (3 addr p ps "from")
  then show ?case
    using update_rule_from_nonempty [of addr ps "[IPBlockPeer addr]" from']
      update_rule_from_nonempty [of addr ps "from" from']
    by (auto split: if_splits)
qed auto

lemma update_ingress_again:
  "update_ingress addr is = Ret is' \<Longrightarrow> update_ingress addr is' = Ret is'"
  by (induction "is" arbitrary: is') (auto simp: go_bind_Ret_iff dest: update_rule_from_again)

interpretation upd_network_policy: updater updateAdmissionWebhooksNetworkPolicy id
  by unfold_locales
     (auto simp: updateAdmissionWebhooksNetworkPolicy_def go_bind_Ret_iff dest: update_ingress_again)

text \<open>The converters of the library agree with the normal forms.\<close>

lemma deployment_converts:
  "converter_doc L \<Longrightarrow> upd_labels.converts (deployment_conv L)"
  by (auto simp: upd_labels.converts_def deployment_conv_def converter_doc_def)

lemma network_policy_converts:
  "converter_doc L \<Longrightarrow> upd_network_policy.converts (network_policy_conv L)"
  by (auto simp: upd_network_policy.converts_def network_policy_conv_def converter_doc_def)

end
