(* ===== verification/Ref_Lib.thy ===== *)
theory Ref_Lib
  imports Updater_Contract Environment
begin

text \<open>
  A concrete instance \<open>ref_lib\<close> of the library record, which satisfies every hypothesis the
  theorems make of the third-party packages: conditions, finalizers, nested fields of
  unstructured objects, and a JSON encoding of deployments and network policies with its decoder.
  The theorems do not depend on it; their witnesses are stated with it.
\<close>

section \<open>Conditions and finalizers\<close>

fun ref_replace :: "Condition list \<Rightarrow> Condition \<Rightarrow> Condition list" where
  "ref_replace [] c = [c]"
| "ref_replace (d # ds) c =
     (if cond_Type d = cond_Type c
      then (if cond_Status d = cond_Status c
            then c\<lparr>cond_LastTransitionTime := cond_LastTransitionTime d\<rparr> else c) # ds
      else d # ref_replace ds c)"

definition ref_remove :: "Condition list \<Rightarrow> string \<Rightarrow> Condition list" where
  "ref_remove cs t = filter (\<lambda>d. cond_Type d \<noteq> t) cs"

definition ref_find :: "Condition list \<Rightarrow> string \<Rightarrow> Condition option" where
  "ref_find cs t = find (\<lambda>d. cond_Type d = t) cs"

lemma ref_replace_find:
  "\<exists>c'. find (\<lambda>d. cond_Type d = cond_Type c) (ref_replace cs c) = Some c' \<and> same_content c' c"
  by (induction cs) (auto simp: same_content_def)

lemma ref_replace_filter:
  "filter (\<lambda>d. cond_Type d \<noteq> cond_Type c) (ref_replace cs c)
   = filter (\<lambda>d. cond_Type d \<noteq> cond_Type c) cs"
  by (induction cs) auto

definition ref_add_finalizer :: "string list \<Rightarrow> string \<Rightarrow> string list" where
  "ref_add_finalizer fs f = (if f \<in> set fs then fs else fs @ [f])"

definition ref_remove_finalizer :: "string list \<Rightarrow> string \<Rightarrow> string list" where
  "ref_remove_finalizer fs f = filter (\<lambda>x. x \<noteq> f) fs"

section \<open>Unstructured objects\<close>

abbreviation namePath :: "string list" where
  "namePath \<equiv> [''metadata'', ''name'']"
abbreviation namespacePath :: "string list" where
  "namespacePath \<equiv> [''metadata'', ''namespace'']"
abbreviation labelsPath :: "string list" where
  "labelsPath \<equiv> [''metadata'', ''labels'']"
abbreviation annotationsPath :: "string list" where
  "annotationsPath \<equiv> [''metadata'', ''annotations'']"

definition ref_put_map :: "obj \<Rightarrow> smap option \<Rightarrow> string list \<Rightarrow> obj" where
  "ref_put_map u m p = (case m of None \<Rightarrow> u | Some f \<Rightarrow> put u (of_smap f) p)"

definition ref_gvk :: "obj \<Rightarrow> GVK" where
  "ref_gvk u =
     (case split_on CHR ''/'' (str_at u [''apiVersion'']) of
        [g, v] \<Rightarrow> \<lparr>gvk_Group = g, gvk_Version = v, gvk_Kind = str_at u [''kind'']\<rparr>
      | vs \<Rightarrow> \<lparr>gvk_Group = [], gvk_Version = str_at u [''apiVersion''], gvk_Kind = str_at u [''kind'']\<rparr>)"

definition ref_api_version :: "GVK \<Rightarrow> string" where
  "ref_api_version g =
     (if gvk_Group g = [] then gvk_Version g else gvk_Group g @ ''/'' @ gvk_Version g)"

definition ref_set_gvk :: "obj \<Rightarrow> GVK \<Rightarrow> obj" where
  "ref_set_gvk u g =
     put (put u (JStr (ref_api_version g)) [''apiVersion'']) (JStr (gvk_Kind g)) [''kind'']"

section \<open>Deployments\<close>

definition enc_smap :: "string \<Rightarrow> smap option \<Rightarrow> (string \<times> json) list" where
  "enc_smap k m = (case nil_if_empty m of None \<Rightarrow> [] | Some f \<Rightarrow> [(k, of_smap f)])"

definition dec_smap :: "obj \<Rightarrow> string \<Rightarrow> smap option" where
  "dec_smap u k = (case as_map (fmlookup u k) of None \<Rightarrow> None | Some f \<Rightarrow> to_smap f)"

definition jmap :: "(string \<times> json) list \<Rightarrow> json" where
  "jmap kvs = JMap (fmap_of_list kvs)"

definition fld_obj :: "obj \<Rightarrow> string \<Rightarrow> obj" where
  "fld_obj u k = (case as_map (fmlookup u k) of None \<Rightarrow> fmempty | Some m \<Rightarrow> m)"

definition fld_str :: "obj \<Rightarrow> string \<Rightarrow> string" where
  "fld_str u k = (case as_string (fmlookup u k) of None \<Rightarrow> [] | Some s \<Rightarrow> s)"

definition fld_val :: "obj \<Rightarrow> string \<Rightarrow> json" where
  "fld_val u k = (case fmlookup u k of None \<Rightarrow> JNull | Some v \<Rightarrow> v)"

definition fld_list :: "obj \<Rightarrow> string \<Rightarrow> json list" where
  "fld_list u k = (case as_list (fmlookup u k) of None \<Rightarrow> [] | Some xs \<Rightarrow> xs)"

fun obj_of :: "json \<Rightarrow> obj" where
  "obj_of (JMap m) = m"
| "obj_of _ = fmempty"

definition enc_source :: "EnvVarSource option \<Rightarrow> json" where
  "enc_source s =
     (case s of
        None \<Rightarrow> JNull
      | Some (FieldRef f) \<Rightarrow> jmap [(''fieldRef'', JStr f)]
      | Some (OtherSource j) \<Rightarrow> JList [j])"

fun dec_source :: "json \<Rightarrow> EnvVarSource option" where
  "dec_source (JMap m) = Some (FieldRef (fld_str m ''fieldRef''))"
| "dec_source (JList [j]) = Some (OtherSource j)"
| "dec_source _ = None"

definition enc_env :: "EnvVar \<Rightarrow> json" where
  "enc_env e = jmap [(''name'', JStr (env_Name e)), (''value'', JStr (env_Value e)),
     (''valueFrom'', enc_source (env_ValueFrom e))]"

definition dec_env :: "json \<Rightarrow> EnvVar" where
  "dec_env j = (let m = obj_of j in
     \<lparr>env_Name = fld_str m ''name'', env_Value = fld_str m ''value'',
      env_ValueFrom = dec_source (fld_val m ''valueFrom'')\<rparr>)"

definition enc_container :: "Container \<Rightarrow> json" where
  "enc_container c = jmap [(''image'', JStr (c_Image c)), (''args'', JList (map JStr (c_Args c))),
     (''env'', JList (map enc_env (c_Env c))), (''resources'', c_Resources c), (''rest'', c_rest c)]"

definition dec_container :: "json \<Rightarrow> Container" where
  "dec_container j = (let m = obj_of j in
     \<lparr>c_Image = fld_str m ''image'', c_Args = map the_JStr (fld_list m ''args''),
      c_Env = map dec_env (fld_list m ''env''), c_Resources = fld_val m ''resources'', c_rest = fld_val m ''rest''\<rparr>)"

definition enc_deployment :: "Deployment \<Rightarrow> obj" where
  "enc_deployment d = fmap_of_list
     [(''kind'', JStr ''Deployment''),
      (''apiVersion'', JStr (d_APIVersion d)),
      (''metadata'', jmap ((''name'', JStr (d_Name d)) # (''namespace'', JStr (d_Namespace d)) # enc_smap ''labels'' (d_Labels d))),
      (''spec'', jmap
        [(''template'', jmap
          [(''metadata'', jmap (enc_smap ''labels'' (d_TemplateLabels d)
              @ enc_smap ''annotations'' (d_TemplateAnnotations d))),
           (''spec'', jmap
             [(''containers'', JList (map enc_container (d_Containers d))),
              (''priorityClassName'', JStr (d_PriorityClassName d))])]),
         (''rest'', d_rest d)]),
      (''status'', jmap [(''conditions'', JList (d_Conditions d))])]"

definition dec_deployment :: "obj \<Rightarrow> Deployment" where
  "dec_deployment u =
     (let md = fld_obj u ''metadata''; sp = fld_obj u ''spec''; t = fld_obj sp ''template'';
          tmd = fld_obj t ''metadata''; tsp = fld_obj t ''spec'' in
      \<lparr>d_APIVersion = fld_str u ''apiVersion'', d_Namespace = fld_str md ''namespace'', d_Name = fld_str md ''name'', d_Labels = dec_smap md ''labels'',
       d_TemplateLabels = dec_smap tmd ''labels'',
       d_TemplateAnnotations = dec_smap tmd ''annotations'',
       d_Containers = map dec_container (fld_list tsp ''containers''),
       d_PriorityClassName = fld_str tsp ''priorityClassName'',
       d_Conditions = fld_list (fld_obj u ''status'') ''conditions'', d_rest = fld_val sp ''rest''\<rparr>)"

lemmas json_field_defs = jmap_def fld_obj_def fld_str_def fld_val_def fld_list_def

lemma enc_source_inv: "dec_source (enc_source s) = s"
  by (simp add: enc_source_def json_field_defs fmlookup_of_list split: option.split EnvVarSource.split)

lemma enc_env_inv: "dec_env (enc_env e) = e"
  by (simp add: enc_env_def dec_env_def json_field_defs fmlookup_of_list Let_def enc_source_inv)

lemma enc_container_inv: "dec_container (enc_container c) = c"
  by (simp add: enc_container_def dec_container_def json_field_defs fmlookup_of_list Let_def
      comp_def enc_env_inv)


lemma fmlookup_jlist [simp]: "fmlookup (fmap_of_list kvs) k = map_of kvs k"
  by (simp add: fmlookup_of_list)

lemma map_of_enc_smap [simp]: "map_of (enc_smap k m) k' =
   (if k = k' then map_option of_smap (nil_if_empty m) else None)"
  by (simp add: enc_smap_def split: option.split)

lemma to_smap_of_smap_opt [simp]:
  "(case map_option of_smap m of None \<Rightarrow> None
    | Some j \<Rightarrow> (case as_map (Some j) of None \<Rightarrow> None | Some f \<Rightarrow> to_smap f)) = m"
  by (simp add: of_smap_def split: option.split)

lemma as_map_of_smap [simp]:
  "(case as_map (map_option of_smap m) of None \<Rightarrow> None | Some f \<Rightarrow> to_smap f) = m"
  by (cases m) (simp_all add: of_smap_def)

lemma enc_deployment_inv: "dec_deployment (enc_deployment d) = omit_empty d"
  by (simp add: dec_deployment_def enc_deployment_def json_field_defs Let_def comp_def
      enc_container_inv dec_smap_def omit_empty_def enc_smap_def of_smap_def
      split: option.split)

lemma enc_deployment_omit: "enc_deployment (omit_empty d) = enc_deployment d"
  by (simp add: enc_deployment_def enc_smap_def omit_empty_def)

section \<open>Network policies and custom resource definitions\<close>

definition enc_port :: "IntOrString option \<Rightarrow> json" where
  "enc_port p = (case p of None \<Rightarrow> JNull
     | Some x \<Rightarrow> jmap [(''intVal'', JInt (ucast (ios_IntVal x))), (''rest'', ios_rest x)])"

fun the_JInt :: "json \<Rightarrow> 64 word" where
  "the_JInt (JInt w) = w"
| "the_JInt _ = 0"

fun dec_port :: "json \<Rightarrow> IntOrString option" where
  "dec_port (JMap m) = Some \<lparr>ios_IntVal = ucast (the_JInt (fld_val m ''intVal'')), ios_rest = fld_val m ''rest''\<rparr>"
| "dec_port _ = None"

fun enc_peer :: "NetworkPolicyPeer \<Rightarrow> json" where
  "enc_peer (IPBlockPeer s) = JStr s"
| "enc_peer (OtherPeer j) = JList [j]"

fun dec_peer :: "json \<Rightarrow> NetworkPolicyPeer" where
  "dec_peer (JStr s) = IPBlockPeer s"
| "dec_peer (JList [j]) = OtherPeer j"
| "dec_peer j = OtherPeer j"

definition enc_rule :: "IngressRule \<Rightarrow> json" where
  "enc_rule i = jmap [(''ports'', JList (map enc_port (in_Ports i))), (''from'', JList (map enc_peer (in_From i)))]"

definition dec_rule :: "json \<Rightarrow> IngressRule" where
  "dec_rule j = \<lparr>in_Ports = map dec_port (fld_list (obj_of j) ''ports''),
     in_From = map dec_peer (fld_list (obj_of j) ''from'')\<rparr>"

definition enc_policy :: "NetworkPolicy \<Rightarrow> obj" where
  "enc_policy p = fmap_of_list [(''kind'', JStr ''NetworkPolicy''),
     (''apiVersion'', JStr ''networking.k8s.io/v1''),
     (''spec'', jmap [(''ingress'', JList (map enc_rule (np_Ingress p)))]), (''metadata'', np_rest p)]"

definition dec_policy :: "obj \<Rightarrow> NetworkPolicy" where
  "dec_policy u = \<lparr>np_Ingress = map dec_rule (fld_list (fld_obj u ''spec'') ''ingress''),
     np_rest = fld_val u ''metadata''\<rparr>"

lemma enc_port_inv: "dec_port (enc_port p) = p"
  by (cases p) (simp_all add: enc_port_def json_field_defs ucast_down_ucast_id is_down)

lemma enc_peer_inv: "dec_peer (enc_peer p) = p"
  by (cases p) simp_all

lemma enc_rule_inv: "dec_rule (enc_rule i) = i"
  by (simp add: enc_rule_def dec_rule_def json_field_defs comp_def enc_port_inv enc_peer_inv)

lemma enc_policy_inv: "dec_policy (enc_policy p) = p"
  by (simp add: enc_policy_def dec_policy_def json_field_defs comp_def enc_rule_inv)

definition dec_crd :: "obj \<Rightarrow> CustomResourceDefinition" where
  "dec_crd u =
     (let sp = fld_obj u ''spec'' in
      \<lparr>crd_Group = fld_str sp ''group'', crd_Kind = fld_str (fld_obj sp ''names'') ''kind'',
       crd_Versions = map (\<lambda>j. (fld_str (obj_of j) ''name'', fld_val (obj_of j) ''storage'' = JBool True))
         (fld_list sp ''versions'')\<rparr>)"

section \<open>The instance\<close>

text \<open>
  The decoder reads an empty text as no document and any other text as one document of kind
  \<open>Text\<close>; JSON texts are not modelled further, so marshalling is the identity on the single field.
\<close>

definition ref_decode :: "string \<Rightarrow> (goerror + obj) list" where
  "ref_decode s = (if s = [] then [] else [Inr (fmap_of_list [(''kind'', JStr ''Text''), (''text'', JStr s)])])"

definition ref_marshal :: "obj \<Rightarrow> goerror + string" where
  "ref_marshal u = Inr (fld_str u ''text'')"

definition ref_unmarshal :: "string \<Rightarrow> goerror + obj" where
  "ref_unmarshal s = Inr (fmap_of_list [(''kind'', JStr ''Text''), (''text'', JStr s)])"

definition ref_lib :: k8s_lib where
  "ref_lib = \<lparr>
     SetStatusCondition = ref_replace,
     RemoveStatusCondition = ref_remove,
     FindStatusCondition = ref_find,
     ContainsFinalizer = (\<lambda>fs f. f \<in> set fs),
     AddFinalizer = ref_add_finalizer,
     RemoveFinalizer = ref_remove_finalizer,
     GetName = (\<lambda>u. str_at u namePath),
     GetNamespace = (\<lambda>u. str_at u namespacePath),
     GetKind = (\<lambda>u. str_at u [''kind'']),
     GetAPIVersion = (\<lambda>u. str_at u [''apiVersion'']),
     GroupVersionKind = ref_gvk,
     GetLabels = (\<lambda>u. smap_at u labelsPath),
     GetAnnotations = (\<lambda>u. smap_at u annotationsPath),
     SetName = (\<lambda>u s. put u (JStr s) namePath),
     SetNamespace = (\<lambda>u s. put u (JStr s) namespacePath),
     SetGroupVersionKind = ref_set_gvk,
     SetLabels = (\<lambda>u m. ref_put_map u m labelsPath),
     SetAnnotations = (\<lambda>u m. ref_put_map u m annotationsPath),
     NestedString = str_at,
     NestedStringMap = smap_at,
     SetNestedStringMap = (\<lambda>u f p. put u (of_smap f) p),
     NestedSlice = (\<lambda>u p. as_list (json_get (JMap u) p)),
     SetNestedSlice = (\<lambda>u xs p. put u (JList xs) p),
     APIVersionOf = ref_api_version,
     FromDeployment = (\<lambda>u. Inr (dec_deployment u)),
     ToDeployment = (\<lambda>d. Inr (enc_deployment d)),
     FromNetworkPolicy = (\<lambda>u. Inr (dec_policy u)),
     ToNetworkPolicy = (\<lambda>p. Inr (enc_policy p)),
     FromCRD = (\<lambda>u. Inr (dec_crd u)),
     IsDeploymentReady = (\<lambda>d. JStr ''Available'' \<in> set (d_Conditions d)),
     HasDeploymentConditionTrueStatus = (\<lambda>cs t. JStr t \<in> set cs),
     YamlDecode = ref_decode,
     JsonMarshal = ref_marshal,
     JsonUnmarshal = ref_unmarshal,
     JsonDecodeTags = (\<lambda>s. Inr [s]),
     Sha256 = id,
     Base64URL = id\<rparr>"

lemma ref_conditions_doc [simp]: "conditions_doc ref_lib"
  using ref_replace_find ref_replace_filter
  by (simp add: conditions_doc_def ref_lib_def ref_find_def ref_remove_def)

lemma ref_finalizers_doc [simp]: "finalizers_doc ref_lib"
  by (auto simp: finalizers_doc_def ref_lib_def ref_add_finalizer_def ref_remove_finalizer_def)

lemma ref_converter_doc [simp]: "converter_doc ref_lib"
  by (simp add: converter_doc_def ref_lib_def enc_deployment_inv enc_deployment_omit enc_policy_inv)

lemma ref_unstructured_doc [simp]: "unstructured_doc ref_lib"
  by (simp add: unstructured_doc_def ref_lib_def ref_put_map_def)

lemmas ref_eval = ref_find_def ref_remove_def ref_add_finalizer_def
  ref_remove_finalizer_def ref_put_map_def

section \<open>Data for the witnesses\<close>

definition ref_meta :: ObjectMeta where
  "ref_meta = \<lparr>meta_Name = ''default'', meta_Namespace = ''kyma-system'', meta_Annotations = None,
     meta_Finalizers = [Finalizer_name], meta_DeletionTimestamp = None, meta_Generation = 1\<rparr>"

definition ref_spec :: KedaSpec where
  "ref_spec = \<lparr>spec_Istio = None, spec_Logging = None, spec_Resources = None, spec_Env = [],
     spec_PodAnnotations = None\<rparr>"

definition ref_keda :: Keda where
  "ref_keda = \<lparr>k_Meta = ref_meta, k_Spec = ref_spec, k_Status = zero_Status\<rparr>"

definition ref_env :: env where
  "ref_env = \<lparr>
     e_now = (\<lambda>h. int (length h)),
     e_ctx_err = (\<lambda>n h. None),
     e_getenv = (\<lambda>x. []),
     e_open = (\<lambda>p. Inr []),
     e_get = (\<lambda>h ns n. Inr ref_keda),
     e_list_kedas = (\<lambda>h. Inr []),
     e_list = (\<lambda>h g. (None, [])),
     e_create_ns = (\<lambda>h n. None),
     e_patch = (\<lambda>h u. (None, u)),
     e_delete = (\<lambda>h u. None),
     e_update = (\<lambda>h k. (None, k)),
     e_status_update = (\<lambda>h k. (None, k)),
     e_http_get = (\<lambda>h u. Inr \<lparr>StatusCode = 200, Body = Inr []\<rparr>),
     e_map_order = id\<rparr>"

definition ref_fsm :: fsm where
  "ref_fsm = \<lparr>f_Finalizer = Finalizer_name, f_Objs = [], f_AddonObjs = [], f_APIServerIP = ''10.0.0.1'',
     f_hist = []\<rparr>"

lemma ref_lib_simps:
  "SetStatusCondition ref_lib = ref_replace"
  "RemoveStatusCondition ref_lib = ref_remove"
  "FindStatusCondition ref_lib = ref_find"
  "ContainsFinalizer ref_lib = (\<lambda>fs f. f \<in> set fs)"
  "AddFinalizer ref_lib = ref_add_finalizer"
  "RemoveFinalizer ref_lib = ref_remove_finalizer"
  "GetName ref_lib = (\<lambda>u. str_at u namePath)"
  "GetNamespace ref_lib = (\<lambda>u. str_at u namespacePath)"
  "GetKind ref_lib = (\<lambda>u. str_at u [''kind''])"
  "GetAPIVersion ref_lib = (\<lambda>u. str_at u [''apiVersion''])"
  "GroupVersionKind ref_lib = ref_gvk"
  "GetLabels ref_lib = (\<lambda>u. smap_at u labelsPath)"
  "GetAnnotations ref_lib = (\<lambda>u. smap_at u annotationsPath)"
  "SetName ref_lib = (\<lambda>u s. put u (JStr s) namePath)"
  "SetNamespace ref_lib = (\<lambda>u s. put u (JStr s) namespacePath)"
  "SetGroupVersionKind ref_lib = ref_set_gvk"
  "SetLabels ref_lib = (\<lambda>u m. ref_put_map u m labelsPath)"
  "SetAnnotations ref_lib = (\<lambda>u m. ref_put_map u m annotationsPath)"
  "NestedString ref_lib = str_at"
  "NestedStringMap ref_lib = smap_at"
  "SetNestedStringMap ref_lib = (\<lambda>u f p. put u (of_smap f) p)"
  "NestedSlice ref_lib = (\<lambda>u p. as_list (json_get (JMap u) p))"
  "SetNestedSlice ref_lib = (\<lambda>u xs p. put u (JList xs) p)"
  "APIVersionOf ref_lib = ref_api_version"
  "FromDeployment ref_lib = (\<lambda>u. Inr (dec_deployment u))"
  "ToDeployment ref_lib = (\<lambda>d. Inr (enc_deployment d))"
  "FromNetworkPolicy ref_lib = (\<lambda>u. Inr (dec_policy u))"
  "ToNetworkPolicy ref_lib = (\<lambda>p. Inr (enc_policy p))"
  "FromCRD ref_lib = (\<lambda>u. Inr (dec_crd u))"
  "IsDeploymentReady ref_lib = (\<lambda>d. JStr ''Available'' \<in> set (d_Conditions d))"
  "HasDeploymentConditionTrueStatus ref_lib = (\<lambda>cs t. JStr t \<in> set cs)"
  "YamlDecode ref_lib = ref_decode"
  "JsonMarshal ref_lib = ref_marshal"
  "JsonUnmarshal ref_lib = ref_unmarshal"
  "JsonDecodeTags ref_lib = (\<lambda>s. Inr [s])"
  "Sha256 ref_lib = id"
  "Base64URL ref_lib = id"
  by (simp_all add: ref_lib_def)

lemma ref_env_simps:
  "e_now ref_env = (\<lambda>h. int (length h))"
  "e_ctx_err ref_env = (\<lambda>n h. None)"
  "e_getenv ref_env = (\<lambda>x. [])"
  "e_open ref_env = (\<lambda>p. Inr [])"
  "e_get ref_env = (\<lambda>h ns n. Inr ref_keda)"
  "e_list_kedas ref_env = (\<lambda>h. Inr [])"
  "e_list ref_env = (\<lambda>h g. (None, []))"
  "e_create_ns ref_env = (\<lambda>h n. None)"
  "e_patch ref_env = (\<lambda>h u. (None, u))"
  "e_delete ref_env = (\<lambda>h u. None)"
  "e_update ref_env = (\<lambda>h k. (None, k))"
  "e_status_update ref_env = (\<lambda>h k. (None, k))"
  "e_http_get ref_env = (\<lambda>h u. Inr \<lparr>StatusCode = 200, Body = Inr []\<rparr>)"
  "e_map_order ref_env = id"
  by (simp_all add: ref_env_def)

lemma ref_fsm_simps:
  "f_Finalizer ref_fsm = Finalizer_name"
  "f_Objs ref_fsm = []"
  "f_AddonObjs ref_fsm = []"
  "f_APIServerIP ref_fsm = ''10.0.0.1''"
  "f_hist ref_fsm = []"
  by (simp_all add: ref_fsm_def)

definition ref_container :: Container where
  "ref_container = \<lparr>c_Image = ''keda'', c_Args = [''--zap-log-level=debug''], c_Env = [],
     c_Resources = JNull, c_rest = JNull\<rparr>"

definition ref_deployment :: "string \<Rightarrow> Deployment" where
  "ref_deployment name = \<lparr>d_APIVersion = ''apps/v1'', d_Namespace = ''kyma-system'', d_Name = name, d_Labels = Some (fmap_of_list [(''app'', name)]),
     d_TemplateLabels = Some (fmap_of_list [(''app'', name)]), d_TemplateAnnotations = None,
     d_Containers = [ref_container], d_PriorityClassName = [],
     d_Conditions = [JStr ''Available''], d_rest = JNull\<rparr>"

definition ref_crd :: obj where
  "ref_crd = fmap_of_list
     [(''apiVersion'', JStr ''apiextensions.k8s.io/v1''), (''kind'', JStr ''CustomResourceDefinition''),
      (''spec'', jmap [(''group'', JStr ''keda.sh''), (''names'', jmap [(''kind'', JStr ''ScaledObject'')])])]"

end
