(* ===== verification/State_Fns.thy ===== *)
theory State_Fns
  imports Deployment_Updates
begin

text \<open>
  The type of state functions of \<open>pkg/reconciler/fsm.go\<close> and the states that do not touch module
  objects: \<open>common.go\<close>, \<open>served_filter.go\<close>, \<open>take_snapshot.go\<close>, \<open>initialize.go\<close>, \<open>validate.go\<close>,
  \<open>update_status.go\<close>, \<open>emmit_event.go\<close> and \<open>remove_finalizer.go\<close>.  A Go value of type \<open>stateFn\<close>
  is a constructor of the datatype \<open>stateFn\<close>, with what a closure captured as arguments; running it
  is the function \<open>exec\<close> of the theory \<open>Fsm\<close>.
\<close>

section \<open>State functions\<close>

text \<open>
  What \<open>buildSfnUpdateObject\<close> captures: the object (an index of \<open>Objs\<close>), the update with its data
  source and the next state.  The update takes the instance and the object; it is \<open>None\<close> where
  \<open>getData\<close> returns nil.
\<close>

type_synonym object_update = "Keda \<Rightarrow> (obj \<Rightarrow> (goerror option \<times> obj \<times> Keda) go) option"

datatype stateFn =
    SFnServedFilter
  | SFnTakeSnapshot
  | SFnInitialize
  | SFnBootstrapperValidation
  | SFnUpdateKedaDeployment
  | SFnUpdateMetricsServerDeployment
  | SFnUpdateAdmissionWebhooksDeployment
  | SFnUpdateAdmissionWebhooksNetworkPolicy
  | SFnUpdateObject nat object_update stateFn
  | SFnApply
  | SFnVerify
  | SFnHandleAddon
  | SFnGuardAddonInUse
  | SFnApplyAddon
  | SFnDeleteAddon
  | SFnDeleteResources
  | SFnCascadeDeletionState
  | SFnUpstreamDeletionState
  | SFnSafeDeletionState
  | SFnRemoveFinalizer
  | SFnUpdateStatus "Result option" "goerror option"
  | SFnEmitEventfunc "stateFn option" "Result option" "goerror option"

type_synonym step = "stateFn option \<times> Result option \<times> goerror option"
type_synonym outcome = "step go \<times> fsm \<times> systemState"

section \<open>common.go\<close>

definition Second :: nat where
  "Second = 1000000000"

definition stopWithErrorAndNoRequeue :: "goerror option \<Rightarrow> step" where
  "stopWithErrorAndNoRequeue err = (Some (SFnUpdateStatus None err), None, None)"

definition stopWithNoRequeue :: step where
  "stopWithNoRequeue = (Some (SFnUpdateStatus None None), None, None)"

definition stopWithRequeue :: step where
  "stopWithRequeue =
     (Some (SFnUpdateStatus (Some \<lparr>r_Requeue = True, r_RequeueAfter = 0\<rparr>) None), None, None)"

definition stopWithRequeueAfter :: "nat \<Rightarrow> step" where
  "stopWithRequeueAfter d =
     (Some (SFnUpdateStatus (Some \<lparr>r_Requeue = False, r_RequeueAfter = d\<rparr>) None), None, None)"

definition switchState :: "stateFn \<Rightarrow> step" where
  "switchState fn = (Some fn, None, None)"

lemmas stop_defs = stopWithErrorAndNoRequeue_def stopWithNoRequeue_def stopWithRequeue_def
  stopWithRequeueAfter_def switchState_def

section \<open>served\_filter.go\<close>

fun first_served :: "Keda list \<Rightarrow> Keda option" where
  "first_served [] = None"
| "first_served (item # items) =
     (if \<not> IsServedEmpty item \<and> st_Served (k_Status item) = ServedTrue then Some item
      else first_served items)"

definition findServedKeda :: "env \<Rightarrow> fsm \<Rightarrow> (goerror + Keda option) \<times> fsm" where
  "findServedKeda E r =
     (case e_list_kedas E (f_hist r) of
        Inl err \<Rightarrow> (Inl err, log_req ReqListKedas r)
      | Inr items \<Rightarrow> (Inr (first_served items), log_req ReqListKedas r))"

definition kedaDuplicatedErr :: "Keda \<Rightarrow> goerror" where
  "kedaDuplicatedErr k =
     errors_New (''only one instance of Keda is allowed (current served instance: ''
       @ meta_Namespace (k_Meta k) @ ''/'' @ meta_Name (k_Meta k) @ '')'')"

definition sFnServedFilter :: "k8s_lib \<Rightarrow> env \<Rightarrow> fsm \<Rightarrow> systemState \<Rightarrow> outcome" where
  "sFnServedFilter L E r s =
     (if IsServedEmpty (s_instance s) \<or> st_Served (k_Status (s_instance s)) = ServedFalse then
        (case findServedKeda E r of
           (Inl err, r') \<Rightarrow> (Ret (stopWithErrorAndNoRequeue (Some err)), r', s)
         | (Inr servedKeda, r') \<Rightarrow>
             (let k = UpdateServed ServedTrue (s_instance s);
                  k' = (case servedKeda of None \<Rightarrow> k
                        | Some sk \<Rightarrow>
                            UpdateStateFromErr L (e_now E (f_hist r')) ConditionTypeInstalled
                              ConditionReasonKedaDuplicated (kedaDuplicatedErr sk)
                              (UpdateServed ServedFalse k))
              in (Ret stopWithRequeue, r', set_instance k' s)))
      else (Ret (switchState SFnTakeSnapshot), r, s))"

section \<open>take\_snapshot.go, initialize.go, validate.go\<close>

definition sFnTakeSnapshot :: "fsm \<Rightarrow> systemState \<Rightarrow> outcome" where
  "sFnTakeSnapshot r s = (Ret (switchState SFnInitialize), r, saveKedaStatus s)"

definition set_finalizers :: "string list \<Rightarrow> Keda \<Rightarrow> Keda" where
  "set_finalizers fs k = k\<lparr>k_Meta := (k_Meta k)\<lparr>meta_Finalizers := fs\<rparr>\<rparr>"

text \<open>\<open>r.Update(ctx, &s.instance)\<close> overwrites the instance with what the call leaves in it.\<close>

definition client_Update :: "env \<Rightarrow> fsm \<Rightarrow> systemState \<Rightarrow> goerror option \<times> fsm \<times> systemState" where
  "client_Update E r s =
     (case e_update E (f_hist r) (s_instance s) of
        (err, k') \<Rightarrow> (err, log_req (ReqUpdate (s_instance s)) r, set_instance k' s))"

definition sFnInitialize :: "k8s_lib \<Rightarrow> env \<Rightarrow> fsm \<Rightarrow> systemState \<Rightarrow> outcome" where
  "sFnInitialize L E r s =
     (let instanceIsBeingDeleted = (\<not> IsZero (meta_DeletionTimestamp (k_Meta (s_instance s))));
          fins = meta_Finalizers (k_Meta (s_instance s));
          instanceHasFinalizer = ContainsFinalizer L fins (f_Finalizer r)
      in if \<not> instanceIsBeingDeleted \<and> \<not> instanceHasFinalizer then
           (let s1 = set_instance (set_finalizers (AddFinalizer L fins (f_Finalizer r)) (s_instance s)) s
            in case client_Update E r s1 of
                 (Some err, r', s2) \<Rightarrow> (Ret (stopWithErrorAndNoRequeue (Some err)), r', s2)
               | (None, r', s2) \<Rightarrow>
                   (Ret stopWithRequeue, r',
                    set_instance (UpdateStateProcessing L (e_now E (f_hist r')) ConditionTypeInstalled
                      ConditionReasonInitialized ''initialized'' (s_instance s2)) s2))
         else if instanceIsBeingDeleted \<and> \<not> ContainsFinalizer L fins (f_Finalizer r) then
           (Ret (None, None, None), r, s)
         else if instanceIsBeingDeleted then (Ret (switchState SFnDeleteResources), r, s)
         else (Ret (switchState SFnBootstrapperValidation), r, s))"

definition has_key :: "smap option \<Rightarrow> string \<Rightarrow> bool" where
  "has_key m k = (case m of None \<Rightarrow> False | Some f \<Rightarrow> fmlookup f k \<noteq> None)"

definition restricted :: "string list" where
  "restricted = [KymaBootstraperAddImagePullSecretMutation, KymaBootstraperRegistryUrlMutation,
     KymaBootstrapperSetFipsMode]"

fun restricted_loop :: "PodAnnotations \<Rightarrow> string list \<Rightarrow> bool" where
  "restricted_loop anns [] = False"
| "restricted_loop anns (an # ans) =
     (if has_key (ann_AdmissionWebhook anns) an then True
      else if has_key (ann_Operator anns) an then True
      else if has_key (ann_MetricsServer anns) an then True
      else restricted_loop anns ans)"

definition hasRestrictedAnnotations :: "Keda \<Rightarrow> bool" where
  "hasRestrictedAnnotations dep =
     (case spec_PodAnnotations (k_Spec dep) of
        None \<Rightarrow> False
      | Some anns \<Rightarrow> restricted_loop anns restricted)"

definition restrictedErr :: "Keda \<Rightarrow> goerror" where
  "restrictedErr k = errors_New (''used restricted annotations in Keda CR '' @ meta_Name (k_Meta k))"

definition sFnBootstrapperValidation :: "k8s_lib \<Rightarrow> env \<Rightarrow> fsm \<Rightarrow> systemState \<Rightarrow> outcome" where
  "sFnBootstrapperValidation L E r s =
     (if hasRestrictedAnnotations (s_instance s) then
        (let err = restrictedErr (s_instance s) in
         (Ret (stopWithErrorAndNoRequeue (Some err)), r,
          set_instance (UpdateStateFromErr L (e_now E (f_hist r)) ConditionTypeInstalled
            ConditionReasonValidationErr err (s_instance s)) s))
      else (Ret (switchState SFnUpdateKedaDeployment), r, s))"

section \<open>update\_status.go\<close>

definition sFnUpdateStatus ::
  "Result option \<Rightarrow> goerror option \<Rightarrow> env \<Rightarrow> fsm \<Rightarrow> systemState \<Rightarrow> outcome" where
  "sFnUpdateStatus result err E r s =
     (case e_status_update E (f_hist r) (s_instance s) of
        (updateErr, k') \<Rightarrow>
          (let r' = log_req (ReqStatusUpdate (s_instance s)) r;
               s' = set_instance k' s
           in case updateErr of
                Some ue \<Rightarrow> (Ret (None, None, if err = None then Some ue else err), r', s')
              | None \<Rightarrow> (Ret (Some (SFnEmitEventfunc None result err), None, None), r', s')))"

section \<open>emmit\_event.go\<close>

definition eventType :: "Condition \<Rightarrow> string" where
  "eventType c = (if cond_Status c = ''False'' then ''Warning'' else ''Normal'')"

text \<open>The test that skips a condition: it is in the snapshot with the same content.\<close>

definition unchanged :: "k8s_lib \<Rightarrow> Status \<Rightarrow> Condition \<Rightarrow> bool" where
  "unchanged L snap c =
     (case FindStatusCondition L (st_Conditions snap) (cond_Type c) of
        None \<Rightarrow> False
      | Some m \<Rightarrow> cond_Status m = cond_Status c \<and> cond_Reason m = cond_Reason c
                 \<and> cond_Message m = cond_Message c)"

fun emit_loop :: "k8s_lib \<Rightarrow> Status \<Rightarrow> Condition list \<Rightarrow> fsm \<Rightarrow> fsm" where
  "emit_loop L snap [] r = r"
| "emit_loop L snap (c # cs) r =
     (if unchanged L snap c then emit_loop L snap cs r
      else emit_loop L snap cs (log_req (ReqEvent (eventType c) (cond_Reason c) (cond_Message c)) r))"

definition sFnEmitEventfunc ::
  "stateFn option \<Rightarrow> Result option \<Rightarrow> goerror option \<Rightarrow> k8s_lib \<Rightarrow> fsm \<Rightarrow> systemState \<Rightarrow> outcome" where
  "sFnEmitEventfunc next result err L r s =
     (Ret (next, result, err),
      emit_loop L (s_snapshot s) (st_Conditions (k_Status (s_instance s))) r, s)"

section \<open>remove\_finalizer.go\<close>

definition sFnRemoveFinalizer :: "k8s_lib \<Rightarrow> env \<Rightarrow> fsm \<Rightarrow> systemState \<Rightarrow> outcome" where
  "sFnRemoveFinalizer L E r s =
     (let s1 = set_instance (set_finalizers
                 (RemoveFinalizer L (meta_Finalizers (k_Meta (s_instance s))) (f_Finalizer r))
                 (s_instance s)) s
      in case client_Update E r s1 of
           (err, r', s2) \<Rightarrow>
             if IgnoreNotFound err \<noteq> None
             then (Ret (None, Some \<lparr>r_Requeue = True, r_RequeueAfter = 0\<rparr>, err), r', s2)
             else (Ret (None, None, None), r', s2))"

end
