(* ===== verification/Update_Objects.thy ===== *)
theory Update_Objects
  imports State_Fns
begin

text \<open>
  \<open>pkg/reconciler/update_objects.go\<close>: the chain of states that configures the three deployments and
  the webhook network policy of the module from the Keda resource.  The chain is built backwards,
  each state with its successor; the last one continues with \<open>sFnApply\<close>.
\<close>

section \<open>Where the data comes from\<close>

text \<open>The nil guard on the receiver \<open>k\<close> never fires: the callers pass the address of the instance.\<close>

definition loggingOperatorCfg :: "Keda \<Rightarrow> LoggingCommonCfg option" where
  "loggingOperatorCfg k = (case spec_Logging (k_Spec k) of None \<Rightarrow> None | Some l \<Rightarrow> lc_Operator l)"

definition loggingMetricsSrvCfg :: "Keda \<Rightarrow> LoggingCommonCfg option" where
  "loggingMetricsSrvCfg k =
     (case spec_Logging (k_Spec k) of None \<Rightarrow> None | Some l \<Rightarrow> lc_MetricsServer l)"

definition loggingAdmissionWebhookCfg :: "Keda \<Rightarrow> LoggingCommonCfg option" where
  "loggingAdmissionWebhookCfg k =
     (case spec_Logging (k_Spec k) of None \<Rightarrow> None | Some l \<Rightarrow> lc_AdmissionWebhook l)"

definition disabledIstioSidecar :: "Keda \<Rightarrow> IstioCfg option" where
  "disabledIstioSidecar k = Some \<lparr>istio_EnabledSidecarInjection = False\<rparr>"

definition istioOperatorCfg :: "Keda \<Rightarrow> IstioCfg option" where
  "istioOperatorCfg k =
     (case spec_Istio (k_Spec k) of
        None \<Rightarrow> disabledIstioSidecar k
      | Some i \<Rightarrow> (case istio_Operator i of None \<Rightarrow> disabledIstioSidecar k | Some c \<Rightarrow> Some c))"

definition istioMetricServerCfg :: "Keda \<Rightarrow> IstioCfg option" where
  "istioMetricServerCfg k =
     (case spec_Istio (k_Spec k) of
        None \<Rightarrow> disabledIstioSidecar k
      | Some i \<Rightarrow> (case istio_MetricServer i of None \<Rightarrow> disabledIstioSidecar k | Some c \<Rightarrow> Some c))"

definition podAnnotationsOperatorCfg :: "Keda \<Rightarrow> smap option option" where
  "podAnnotationsOperatorCfg k = map_option ann_Operator (spec_PodAnnotations (k_Spec k))"

definition podAnnotationsMetricsServerCfg :: "Keda \<Rightarrow> smap option option" where
  "podAnnotationsMetricsServerCfg k =
     (let sidecar = (case spec_Istio (k_Spec k) of
                       None \<Rightarrow> False
                     | Some i \<Rightarrow> (case istio_MetricServer i of
                                    None \<Rightarrow> False
                                  | Some c \<Rightarrow> istio_EnabledSidecarInjection c));
          annotations = (if sidecar
             then fmupd ''traffic.sidecar.istio.io/excludeInboundPorts'' ''6443'' fmempty else fmempty)
      in Some (Some (case spec_PodAnnotations (k_Spec k) of
                       None \<Rightarrow> annotations
                     | Some p \<Rightarrow> fmadd annotations (non_nil (ann_MetricsServer p)))))"

definition podAnnotationsAdmissionWebhookCfg :: "Keda \<Rightarrow> smap option option" where
  "podAnnotationsAdmissionWebhookCfg k = map_option ann_AdmissionWebhook (spec_PodAnnotations (k_Spec k))"

definition operatorResources :: "Keda \<Rightarrow> json option" where
  "operatorResources k = (case spec_Resources (k_Spec k) of None \<Rightarrow> None | Some x \<Rightarrow> res_Operator x)"

definition metricsSvrResources :: "Keda \<Rightarrow> json option" where
  "metricsSvrResources k =
     (case spec_Resources (k_Spec k) of None \<Rightarrow> None | Some x \<Rightarrow> res_MetricsServer x)"

definition admissionWebhookResources :: "Keda \<Rightarrow> json option" where
  "admissionWebhookResources k =
     (case spec_Resources (k_Spec k) of None \<Rightarrow> None | Some x \<Rightarrow> res_AdmissionWebhook x)"

definition envVars :: "Keda \<Rightarrow> EnvVars option" where
  "envVars k = Some (spec_Env (k_Spec k))"

definition networkPolicyAPIServerAddress :: "string \<Rightarrow> Keda \<Rightarrow> string option" where
  "networkPolicyAPIServerAddress address k = Some address"

definition priorityClassName :: "Keda \<Rightarrow> string option" where
  "priorityClassName k = Some ''keda-priority-class''"

section \<open>One update state\<close>

text \<open>
  The data is read through pointers into the instance; \<open>share\<close> is what the update wrote through
  them, seen from the instance.
\<close>

definition buildSfnUpdateObject ::
  "'d conv \<Rightarrow> nat \<Rightarrow> ('d, 'r) update \<Rightarrow> (Keda \<Rightarrow> 'r option) \<Rightarrow> ('r \<Rightarrow> Keda \<Rightarrow> Keda) \<Rightarrow> stateFn \<Rightarrow> stateFn" where
  "buildSfnUpdateObject conv u update getData share next =
     SFnUpdateObject u
       (\<lambda>k. case getData k of
              None \<Rightarrow> None
            | Some data \<Rightarrow> Some (\<lambda>ob. go_bind (updateObj conv ob data update)
                (\<lambda>(err, ob', data'). Ret (err, ob', share data' k))))
       next"

definition sFnUpdateObject ::
  "nat \<Rightarrow> object_update \<Rightarrow> stateFn \<Rightarrow> k8s_lib \<Rightarrow> env \<Rightarrow> fsm \<Rightarrow> systemState \<Rightarrow> outcome" where
  "sFnUpdateObject u upd next L E r s =
     (case upd (s_instance s) of
        None \<Rightarrow> (Ret (switchState next), r, s)
      | Some f \<Rightarrow>
          (case f (f_Objs r ! u) of
             Panic p \<Rightarrow> (Panic p, r, s)
           | Ret (err, ob', k') \<Rightarrow>
               (let r' = r\<lparr>f_Objs := (f_Objs r)[u := ob']\<rparr>
                in case err of
                     Some e \<Rightarrow>
                       (Ret (stopWithErrorAndNoRequeue (Some e)), r',
                        set_instance (UpdateStateFromErr L (e_now E (f_hist r)) ConditionTypeInstalled
                          ConditionReasonDeploymentUpdateErr e k') s)
                   | None \<Rightarrow> (Ret (switchState next), r', set_instance k' s))))"

text \<open>The pointer \<open>Format\<close> of a logging configuration is shared with the instance.\<close>

definition map_logging :: "(LoggingCfg \<Rightarrow> LoggingCfg) \<Rightarrow> Keda \<Rightarrow> Keda" where
  "map_logging f k = k\<lparr>k_Spec := (k_Spec k)\<lparr>spec_Logging := map_option f (spec_Logging (k_Spec k))\<rparr>\<rparr>"

definition share_operator :: "LoggingCommonCfg \<Rightarrow> Keda \<Rightarrow> Keda" where
  "share_operator c = map_logging (\<lambda>l. l\<lparr>lc_Operator := Some c\<rparr>)"

definition share_metrics :: "LoggingCommonCfg \<Rightarrow> Keda \<Rightarrow> Keda" where
  "share_metrics c = map_logging (\<lambda>l. l\<lparr>lc_MetricsServer := Some c\<rparr>)"

definition share_webhook :: "LoggingCommonCfg \<Rightarrow> Keda \<Rightarrow> Keda" where
  "share_webhook c = map_logging (\<lambda>l. l\<lparr>lc_AdmissionWebhook := Some c\<rparr>)"

definition unshared :: "'r \<Rightarrow> Keda \<Rightarrow> Keda" where
  "unshared x k = k"

section \<open>The operator\<close>

definition buildSfnUpdateOperatorEnvs :: "k8s_lib \<Rightarrow> nat \<Rightarrow> stateFn" where
  "buildSfnUpdateOperatorEnvs L u =
     buildSfnUpdateObject (deployment_conv L) u updateKedaContanierEnvs envVars unshared
       SFnUpdateMetricsServerDeployment"

definition buildSfnUpdateOperatorResources :: "k8s_lib \<Rightarrow> nat \<Rightarrow> stateFn" where
  "buildSfnUpdateOperatorResources L u =
     buildSfnUpdateObject (deployment_conv L) u updateKedaContanier0Resources operatorResources unshared
       (buildSfnUpdateOperatorEnvs L u)"

definition buildSfnUpdateOperatorPriorityClass :: "k8s_lib \<Rightarrow> nat \<Rightarrow> stateFn" where
  "buildSfnUpdateOperatorPriorityClass L u =
     buildSfnUpdateObject (deployment_conv L) u updateDeploymentPriorityClass priorityClassName unshared
       (buildSfnUpdateOperatorResources L u)"

definition buildSfnUpdateOperatorAnnotations :: "k8s_lib \<Rightarrow> nat \<Rightarrow> stateFn" where
  "buildSfnUpdateOperatorAnnotations L u =
     buildSfnUpdateObject (deployment_conv L) u updateDeploymentAnnotations podAnnotationsOperatorCfg unshared
       (buildSfnUpdateOperatorPriorityClass L u)"

definition buildSfnUpdateOperatorLabels :: "k8s_lib \<Rightarrow> nat \<Rightarrow> stateFn" where
  "buildSfnUpdateOperatorLabels L u =
     buildSfnUpdateObject (deployment_conv L) u updateDeploymentLabels istioOperatorCfg unshared
       (buildSfnUpdateOperatorAnnotations L u)"

definition buildSfnUpdateOperatorLogging :: "k8s_lib \<Rightarrow> nat \<Rightarrow> stateFn" where
  "buildSfnUpdateOperatorLogging L u =
     buildSfnUpdateObject (deployment_conv L) u updateKedaOperatorContainer0Args loggingOperatorCfg share_operator
       (buildSfnUpdateOperatorLabels L u)"

definition sFnUpdateKedaDeployment :: "k8s_lib \<Rightarrow> env \<Rightarrow> fsm \<Rightarrow> systemState \<Rightarrow> outcome" where
  "sFnUpdateKedaDeployment L E r s =
     (case kedaOperatorDeployment L r of
        Inl err \<Rightarrow>
          (Ret (stopWithErrorAndNoRequeue (Some err)), r,
           set_instance (UpdateStateFromErr L (e_now E (f_hist r)) ConditionTypeInstalled
             ConditionReasonDeploymentUpdateErr err (s_instance s)) s)
      | Inr u \<Rightarrow> (Ret (switchState (buildSfnUpdateOperatorLogging L u)), r, s))"

section \<open>The metrics server\<close>

definition buildSfnUpdateMetricsSvrEnvVars :: "k8s_lib \<Rightarrow> nat \<Rightarrow> stateFn" where
  "buildSfnUpdateMetricsSvrEnvVars L u =
     buildSfnUpdateObject (deployment_conv L) u updateKedaContanierEnvs envVars unshared
       SFnUpdateAdmissionWebhooksDeployment"

definition buildSfnUpdateMetricsSvrResources :: "k8s_lib \<Rightarrow> nat \<Rightarrow> stateFn" where
  "buildSfnUpdateMetricsSvrResources L u =
     buildSfnUpdateObject (deployment_conv L) u updateKedaContanier0Resources metricsSvrResources unshared
       (buildSfnUpdateMetricsSvrEnvVars L u)"

definition buildSfnUpdateMetricsSvrPriorityClass :: "k8s_lib \<Rightarrow> nat \<Rightarrow> stateFn" where
  "buildSfnUpdateMetricsSvrPriorityClass L u =
     buildSfnUpdateObject (deployment_conv L) u updateDeploymentPriorityClass priorityClassName unshared
       (buildSfnUpdateMetricsSvrResources L u)"

definition buildSfnUpdateMetricsSvrAnnotations :: "k8s_lib \<Rightarrow> nat \<Rightarrow> stateFn" where
  "buildSfnUpdateMetricsSvrAnnotations L u =
     buildSfnUpdateObject (deployment_conv L) u updateDeploymentAnnotations podAnnotationsMetricsServerCfg unshared
       (buildSfnUpdateMetricsSvrPriorityClass L u)"

definition buildSfnUpdateMetricsSvrLabels :: "k8s_lib \<Rightarrow> nat \<Rightarrow> stateFn" where
  "buildSfnUpdateMetricsSvrLabels L u =
     buildSfnUpdateObject (deployment_conv L) u updateDeploymentLabels istioMetricServerCfg unshared
       (buildSfnUpdateMetricsSvrAnnotations L u)"

definition buildSfnUpdateMetricsSvrLogging :: "k8s_lib \<Rightarrow> nat \<Rightarrow> stateFn" where
  "buildSfnUpdateMetricsSvrLogging L u =
     buildSfnUpdateObject (deployment_conv L) u updateKedaMetricsServerContainer0Args loggingMetricsSrvCfg share_metrics
       (buildSfnUpdateMetricsSvrLabels L u)"

definition sFnUpdateMetricsServerDeployment :: "k8s_lib \<Rightarrow> env \<Rightarrow> fsm \<Rightarrow> systemState \<Rightarrow> outcome" where
  "sFnUpdateMetricsServerDeployment L E r s =
     (case kedaMetricsServerDeployment L r of
        Inl err \<Rightarrow>
          (Ret (stopWithErrorAndNoRequeue (Some err)), r,
           set_instance (UpdateStateFromErr L (e_now E (f_hist r)) ConditionTypeInstalled
             ConditionReasonDeploymentUpdateErr err (s_instance s)) s)
      | Inr u \<Rightarrow> (Ret (switchState (buildSfnUpdateMetricsSvrLogging L u)), r, s))"

section \<open>The admission webhooks\<close>

definition buildSfnUpdateAdmissionWebhooksPriorityClass :: "k8s_lib \<Rightarrow> nat \<Rightarrow> stateFn" where
  "buildSfnUpdateAdmissionWebhooksPriorityClass L u =
     buildSfnUpdateObject (deployment_conv L) u updateDeploymentPriorityClass priorityClassName unshared
       SFnUpdateAdmissionWebhooksNetworkPolicy"

definition buildSfnUpdateAdmissionWebhooksResources :: "k8s_lib \<Rightarrow> nat \<Rightarrow> stateFn" where
  "buildSfnUpdateAdmissionWebhooksResources L u =
     buildSfnUpdateObject (deployment_conv L) u updateKedaContanier0Resources admissionWebhookResources unshared
       (buildSfnUpdateAdmissionWebhooksPriorityClass L u)"

definition buildSfnUpdateAdmissionWebhooksAnnotations :: "k8s_lib \<Rightarrow> nat \<Rightarrow> stateFn" where
  "buildSfnUpdateAdmissionWebhooksAnnotations L u =
     buildSfnUpdateObject (deployment_conv L) u updateDeploymentAnnotations podAnnotationsAdmissionWebhookCfg unshared
       (buildSfnUpdateAdmissionWebhooksResources L u)"

definition buildSfnUpdateAdmissionWebhooksLabels :: "k8s_lib \<Rightarrow> nat \<Rightarrow> stateFn" where
  "buildSfnUpdateAdmissionWebhooksLabels L u =
     buildSfnUpdateObject (deployment_conv L) u updateDeploymentLabels disabledIstioSidecar unshared
       (buildSfnUpdateAdmissionWebhooksAnnotations L u)"

definition buildSfnUpdateAdmissionWebhooksLogging :: "k8s_lib \<Rightarrow> nat \<Rightarrow> stateFn" where
  "buildSfnUpdateAdmissionWebhooksLogging L u =
     buildSfnUpdateObject (deployment_conv L) u updateKedaAdmissionWebhooksContainer0Args loggingAdmissionWebhookCfg share_webhook
       (buildSfnUpdateAdmissionWebhooksLabels L u)"

definition sFnUpdateAdmissionWebhooksDeployment :: "k8s_lib \<Rightarrow> env \<Rightarrow> fsm \<Rightarrow> systemState \<Rightarrow> outcome" where
  "sFnUpdateAdmissionWebhooksDeployment L E r s =
     (case kedaAdmissionWebhooksDeployment L r of
        Inl err \<Rightarrow>
          (Ret (stopWithErrorAndNoRequeue (Some err)), r,
           set_instance (UpdateStateFromErr L (e_now E (f_hist r)) ConditionTypeInstalled
             ConditionReasonDeploymentUpdateErr err (s_instance s)) s)
      | Inr u \<Rightarrow> (Ret (switchState (buildSfnUpdateAdmissionWebhooksLogging L u)), r, s))"

definition sfnUpdateAdmissionWebhooksNetworkPolicy :: "k8s_lib \<Rightarrow> env \<Rightarrow> fsm \<Rightarrow> systemState \<Rightarrow> outcome" where
  "sfnUpdateAdmissionWebhooksNetworkPolicy L E r s =
     (case firstUnstructed (isAddmissionWebhookNetworkPolicy L) (f_Objs r) of
        Inl err \<Rightarrow>
          (Ret (stopWithErrorAndNoRequeue (Some err)), r,
           set_instance (UpdateStateFromErr L (e_now E (f_hist r)) ConditionTypeInstalled
             ConditionReasonNetworkPolicyUpdateErr err (s_instance s)) s)
      | Inr u \<Rightarrow> (Ret (switchState (buildSfnUpdateObject (network_policy_conv L) u
          updateAdmissionWebhooksNetworkPolicy
          (networkPolicyAPIServerAddress (f_APIServerIP r @ ''/32'')) unshared SFnApply)), r, s))"

lemmas chain_defs = buildSfnUpdateOperatorLogging_def buildSfnUpdateOperatorLabels_def
  buildSfnUpdateOperatorAnnotations_def buildSfnUpdateOperatorPriorityClass_def
  buildSfnUpdateOperatorResources_def buildSfnUpdateOperatorEnvs_def
  buildSfnUpdateMetricsSvrLogging_def buildSfnUpdateMetricsSvrLabels_def
  buildSfnUpdateMetricsSvrAnnotations_def buildSfnUpdateMetricsSvrPriorityClass_def
  buildSfnUpdateMetricsSvrResources_def buildSfnUpdateMetricsSvrEnvVars_def
  buildSfnUpdateAdmissionWebhooksLogging_def buildSfnUpdateAdmissionWebhooksLabels_def
  buildSfnUpdateAdmissionWebhooksAnnotations_def buildSfnUpdateAdmissionWebhooksResources_def
  buildSfnUpdateAdmissionWebhooksPriorityClass_def

lemmas build_defs = chain_defs buildSfnUpdateObject_def

end
