(* ===== verification/Config_Properties.thy ===== *)
theory Config_Properties
  imports Ref_Lib Update_Objects
begin

text \<open>
  Properties of the configuration of the module: the arguments, environment variables and
  annotations of the deployments, and the status methods of the Keda resource.
\<close>

section \<open>Arguments of the containers\<close>

text \<open>
  What a logging configuration makes of an argument list: every flag of the configuration occurs,
  every occurrence has the configured value, and the arguments that are no such flag are as
  before, in their order.
\<close>

definition owned :: "LoggingCommonCfg \<Rightarrow> string \<Rightarrow> bool" where
  "owned cfg a \<longleftrightarrow> list_ex (\<lambda>p. MS_Match p a) (cfg_list cfg)"

definition configured :: "LoggingCommonCfg \<Rightarrow> string list \<Rightarrow> string list \<Rightarrow> bool" where
  "configured cfg before after \<longleftrightarrow>
     list_all (\<lambda>p. list_ex (MS_Match p) after
       \<and> list_all (\<lambda>a. MS_Match p a \<longrightarrow> a = MS_String p) after) (cfg_list cfg)
     \<and> filter (\<lambda>a. \<not> owned cfg a) after = filter (\<lambda>a. \<not> owned cfg a) before"

lemma owned_UpdateArg [simp]: "owned cfg (UpdateArg cfg a) = owned cfg a"
  by (simp add: owned_def UpdateArg_Match)

lemma not_owned_UpdateArg: "\<not> owned cfg a \<Longrightarrow> UpdateArg cfg a = a"
  by (rule UpdateArg_other) (auto simp: owned_def list_ex_iff)

lemma filter_map_UpdateArg:
  "filter (\<lambda>a. \<not> owned cfg a) (map (UpdateArg cfg) xs) = filter (\<lambda>a. \<not> owned cfg a) xs"
  by (induction xs) (auto simp: not_owned_UpdateArg)

lemma filter_missing: "filter (\<lambda>a. \<not> owned cfg a) (AppendMissingArgs cfg xs) = []"
  by (simp add: filter_empty_conv AppendMissingArgs_filter owned_def list_ex_iff)
     (metis MS_Match_String)

lemma map_fixedD: "map f ys = ys \<Longrightarrow> a \<in> set ys \<Longrightarrow> f a = a"
  by (induction ys) auto

lemma configured_args:
  "configured cfg xs (map (UpdateArg cfg) xs @ AppendMissingArgs cfg (map (UpdateArg cfg) xs))"
  (is "configured cfg xs ?ys")
proof -
  have m: "map (UpdateArg cfg) ?ys = ?ys" by (rule logging_cfg.map_update_fixed)
  have fixed: "UpdateArg cfg a = a" if "a \<in> set ?ys" for a
    by (rule map_fixedD [OF m that])
  have "list_all (\<lambda>a. MS_Match p a \<longrightarrow> a = MS_String p) ?ys" if "p \<in> set (cfg_list cfg)" for p
    unfolding list_all_iff
  proof (intro ballI impI)
    fix a assume "a \<in> set ?ys" "MS_Match p a"
    then show "a = MS_String p" using fixed [of a] UpdateArg_owned [OF that] by simp
  qed
  moreover have "filter (\<lambda>a. \<not> owned cfg a) ?ys = filter (\<lambda>a. \<not> owned cfg a) xs"
    by (simp only: filter_append filter_map_UpdateArg filter_missing append_Nil2)
  ultimately show ?thesis
    unfolding configured_def list_all_iff [of _ "cfg_list cfg"]
    using configured_present by (intro conjI ballI) assumption+
qed

text \<open>The change of the arguments of the first container, and of nothing else.\<close>

definition args_changed :: "(string list \<Rightarrow> string list \<Rightarrow> bool) \<Rightarrow> Deployment \<Rightarrow> Deployment \<Rightarrow> bool" where
  "args_changed P d d' \<longleftrightarrow>
     (\<exists>c cs args. d_Containers d = c # cs \<and> P (c_Args c) args
        \<and> d' = d\<lparr>d_Containers := c\<lparr>c_Args := args\<rparr> # cs\<rparr>)"

text \<open>
  C29: Updating the logging of the operator or of the admission webhooks sanitises the
  configuration, makes the first container carry exactly the configured zap flags, keeps its
  other arguments in order and changes nothing else of the deployment; it fails only by the panic
  on a deployment without containers.
\<close>

theorem operator_args_configured:
  "(case updateKedaOperatorContainer0Args d cfg of
      Panic p \<Rightarrow> d_Containers d = []
    | Ret (e, d', cfg') \<Rightarrow> e = None \<and> cfg' = LoggingCommonCfg_Sanitize cfg
        \<and> args_changed (configured cfg') d d')
   \<and> updateKedaAdmissionWebhooksContainer0Args d cfg = updateKedaOperatorContainer0Args d cfg"
  using configured_args
  by (auto simp: updateKedaOperatorContainer0Args_def updateDeploymentContainer0Args_def
      container0_def Let_def args_changed_def webhooks_args_eq split: list.split)

section \<open>The metrics server\<close>

lemma owned_not_logtostderr: "HasPrefix a logToStderrFlag \<Longrightarrow> \<not> owned cfg a"
  by (auto simp: owned_def cfg_list_def log_defs HasPrefix_iff)

definition stderr_set :: "string \<Rightarrow> string list \<Rightarrow> string list \<Rightarrow> bool" where
  "stderr_set v before after \<longleftrightarrow>
     (case filter (\<lambda>a. HasPrefix a logToStderrFlag) before of
        [] \<Rightarrow> filter (\<lambda>a. HasPrefix a logToStderrFlag) after = [v]
      | x # xs \<Rightarrow> filter (\<lambda>a. HasPrefix a logToStderrFlag) after = v # xs)"

lemma set_logtostderr_filter:
  assumes "HasPrefix v logToStderrFlag"
  shows "stderr_set v xs (set_logtostderr v xs)"
  using assms by (induction xs) (auto simp: stderr_set_def split: list.splits)

lemma filter_stderr_UpdateArg:
  "filter (\<lambda>a. HasPrefix a logToStderrFlag) (map (UpdateArg c) xs)
   = filter (\<lambda>a. HasPrefix a logToStderrFlag) xs"
  by (induction xs) (simp_all add: HasPrefix_UpdateArg logtostderr_not_zap)

lemma filter_stderr_missing:
  "filter (\<lambda>a. HasPrefix a logToStderrFlag) (AppendMissingArgs c xs) = []"
  by (auto simp: AppendMissingArgs_filter cfg_list_def log_defs HasPrefix_def)

definition rest_kept :: "LoggingCommonCfg \<Rightarrow> string list \<Rightarrow> string list \<Rightarrow> bool" where
  "rest_kept cfg before after \<longleftrightarrow>
     filter (\<lambda>a. \<not> owned cfg a \<and> \<not> HasPrefix a logToStderrFlag) after
     = filter (\<lambda>a. \<not> owned cfg a \<and> \<not> HasPrefix a logToStderrFlag) before"

lemma rest_kept_set:
  "HasPrefix v logToStderrFlag \<Longrightarrow> rest_kept cfg xs (set_logtostderr v xs)"
  by (induction xs) (auto simp: rest_kept_def)

definition metrics_configured :: "LoggingCommonCfg \<Rightarrow> string list \<Rightarrow> string list \<Rightarrow> bool" where
  "metrics_configured cfg before after \<longleftrightarrow>
     stderr_set (if log_Format cfg = Some LogFormatJSON then ''--logtostderr=false''
                 else ''--logtostderr=true'') before after
     \<and> list_all (\<lambda>p. list_ex (MS_Match p) after
         \<and> list_all (\<lambda>a. MS_Match p a \<longrightarrow> a = MS_String p) after) (cfg_list cfg)
     \<and> rest_kept cfg before after"

lemma filter_conj_cong:
  "filter P xs = filter P ys \<Longrightarrow> filter (\<lambda>a. P a \<and> Q a) xs = filter (\<lambda>a. P a \<and> Q a) ys"
  using filter_filter [of Q P xs] filter_filter [of Q P ys] by simp

lemma metrics_args_configured: "metrics_configured cfg xs (metrics_args cfg xs)"
proof -
  let ?v = "logToStderrArg (log_Format cfg)"
  let ?S = "set_logtostderr ?v xs"
  let ?ys = "map (UpdateArg cfg) ?S @ AppendMissingArgs cfg (map (UpdateArg cfg) ?S)"
  have eq: "?v = (if log_Format cfg = Some LogFormatJSON then ''--logtostderr=false''
                  else ''--logtostderr=true'')"
    by (simp add: logToStderrArg_def FormatBool_def)
  have c: "configured cfg ?S ?ys" by (rule configured_args)
  have "filter (\<lambda>a. HasPrefix a logToStderrFlag) ?ys = filter (\<lambda>a. HasPrefix a logToStderrFlag) ?S"
    by (simp only: filter_append filter_stderr_UpdateArg filter_stderr_missing append_Nil2)
  then have 1: "stderr_set ?v xs ?ys"
    using set_logtostderr_filter [OF logToStderrArg_prefix, of "log_Format cfg" xs]
    by (simp only: stderr_set_def)
  have "rest_kept cfg ?S ?ys"
    using c unfolding configured_def rest_kept_def by (intro filter_conj_cong) (rule conjunct2)
  then have 2: "rest_kept cfg xs ?ys"
    using rest_kept_set [where v = "?v" and cfg = cfg and xs = xs, OF logToStderrArg_prefix]
    by (simp only: rest_kept_def)
  show ?thesis
    using 1 2 c unfolding metrics_configured_def metrics_args_def Let_def eq configured_def by simp
qed

text \<open>
  The metrics server gets the configured zap flags too, and its \<open>--logtostderr\<close> is false
  exactly when the format is JSON: the first occurrence is replaced, or one is added, so that the
  legacy flag cannot override the encoder; other arguments and the rest of the deployment stay.
\<close>

theorem metrics_server_args_configured:
  "case updateKedaMetricsServerContainer0Args d cfg of
     Panic p \<Rightarrow> d_Containers d = []
   | Ret (e, d', cfg') \<Rightarrow> e = None \<and> cfg' = LoggingCommonCfg_Sanitize cfg
       \<and> args_changed (metrics_configured cfg') d d'"
  using metrics_args_configured
  by (auto simp: updateKedaMetricsServerContainer0Args_eq container0_def Let_def args_changed_def
      split: list.split)

section \<open>Environment variables\<close>

lemma env_contains_iff: "env_contains v e \<longleftrightarrow> env_Name e \<in> env_Name ` set v"
  by (induction v) auto

lemmas env_zero_defs = EnvVars_zero_def watchNamespace_def podName_def podNamespace_def
  operatorNameEnv_def kedaHTTPdefaultTimeout_def kedaHTTPMinTLSVersion_def

lemma distinct_zero: "distinct (map env_Name EnvVars_zero)"
  by (simp add: env_zero_defs)

lemma distinct_filter_map: "distinct (map f xs) \<Longrightarrow> distinct (map f (filter P xs))"
  by (induction xs) auto

text \<open>The value a process sees: of two entries with one name the last one counts.\<close>

definition lookup_env :: "EnvVars \<Rightarrow> string \<Rightarrow> EnvVar option" where
  "lookup_env v n = find (\<lambda>e. env_Name e = n) (rev v)"

lemma lookup_env_append:
  "lookup_env (v @ w) n = (case lookup_env w n of None \<Rightarrow> lookup_env v n | Some e \<Rightarrow> Some e)"
proof -
  have "find P (xs @ ys) = (case find P xs of None \<Rightarrow> find P ys | Some x \<Rightarrow> Some x)"
    for P and xs ys :: EnvVars
    by (induction xs) auto
  then show ?thesis by (simp add: lookup_env_def split: option.split)
qed

lemma lookup_env_None: "lookup_env v n = None \<longleftrightarrow> n \<notin> env_Name ` set v"
  by (auto simp: lookup_env_def find_None_iff)

lemma lookup_env_filter_zero:
  "lookup_env (filter (\<lambda>e. \<not> env_contains v e) EnvVars_zero) n =
     (if n \<in> env_Name ` set v then None else lookup_env EnvVars_zero n)"
proof (cases "n \<in> env_Name ` set v")
  case True
  then have "lookup_env (filter (\<lambda>e. \<not> env_contains v e) EnvVars_zero) n = None"
    by (auto simp: lookup_env_None env_contains_iff image_iff) (metis)
  with True show ?thesis by simp
next
  case False
  have "find (\<lambda>e. env_Name e = n) (filter (\<lambda>e. \<not> env_contains v e) xs)
      = find (\<lambda>e. env_Name e = n) xs" for xs
    using False by (induction xs) (auto simp: env_contains_iff)
  with False show ?thesis by (simp add: lookup_env_def rev_filter)
qed

text \<open>
  Sanitising the environment variables keeps the user's entries, in front and unchanged, and
  appends exactly the defaults that are missing: a variable the user sets keeps the user's value,
  any other has the default value if it has one.  No name is duplicated that was not, and a second
  \<open>Sanitize\<close> does nothing.
\<close>

theorem EnvVars_Sanitize_defaults:
  "take (length v) (EnvVars_Sanitize v) = v
   \<and> lookup_env (EnvVars_Sanitize v) n =
       (if n \<in> env_Name ` set v then lookup_env v n else lookup_env EnvVars_zero n)
   \<and> distinct (map env_Name (EnvVars_Sanitize v)) = distinct (map env_Name v)
   \<and> EnvVars_Sanitize (EnvVars_Sanitize v) = EnvVars_Sanitize v"
proof (intro conjI)
  show "take (length v) (EnvVars_Sanitize v) = v" by (simp add: EnvVars_Sanitize_def)
  show "lookup_env (EnvVars_Sanitize v) n =
      (if n \<in> env_Name ` set v then lookup_env v n else lookup_env EnvVars_zero n)"
    using lookup_env_None [of v n]
    by (auto simp: EnvVars_Sanitize_def lookup_env_append lookup_env_filter_zero split: option.split)
  show "distinct (map env_Name (EnvVars_Sanitize v)) = distinct (map env_Name v)"
    using distinct_filter_map [OF distinct_zero] by (auto simp: EnvVars_Sanitize_def env_contains_iff image_iff)
  show "EnvVars_Sanitize (EnvVars_Sanitize v) = EnvVars_Sanitize v"
    by (auto simp: EnvVars_Sanitize_def env_contains_iff filter_empty_conv)
qed

section \<open>Annotations of the Keda resource\<close>

lemma map_get_fmdrop: "map_get (Some (fmdrop a f)) b = (if a = b then [] else map_get (Some f) b)"
  by (simp add: map_get_def)

text \<open>
  After \<open>SetAnnotation\<close> a key reads back the value that was set (the empty value removes the
  entry) and every other key reads as before; nothing else of the resource changes, and recording
  the installed version and namespace does not change the add-on configuration that
  \<open>ReadAddonCfg\<close> reads.
\<close>

theorem SetAnnotation_read_back:
  "map_get (meta_Annotations (k_Meta (SetAnnotation key v k))) key'
     = (if key' = key then v else map_get (meta_Annotations (k_Meta k)) key')
   \<and> (v = [] \<longleftrightarrow> \<not> has_key (meta_Annotations (k_Meta (SetAnnotation key v k))) key)
   \<and> k_Spec (SetAnnotation key v k) = k_Spec k \<and> k_Status (SetAnnotation key v k) = k_Status k
   \<and> ReadAddonCfg (SetAnnotation AnnotationAddonInstalledVersion v k) = ReadAddonCfg k
   \<and> ReadAddonCfg (SetAnnotation AnnotationAddonInstalledNamespace v k) = ReadAddonCfg k"
  by (cases "meta_Annotations (k_Meta k)")
     (simp_all add: SetAnnotation_def ReadAddonCfg_def Let_def map_get_fmdrop has_key_def go_simps)

section \<open>Status methods\<close>

text \<open>
  The effect of a status method: the overall state, the content of one condition, every other
  condition and every other field as before.
\<close>

definition status_effect ::
  "k8s_lib \<Rightarrow> Keda \<Rightarrow> string \<Rightarrow> string \<Rightarrow> string \<Rightarrow> string \<Rightarrow> string \<Rightarrow> Keda \<Rightarrow> bool" where
  "status_effect L k state t status reason msg k' \<longleftrightarrow>
     st_State (k_Status k') = state
   \<and> (case FindStatusCondition L (st_Conditions (k_Status k')) t of
        None \<Rightarrow> False
      | Some c \<Rightarrow> cond_Type c = t \<and> cond_Status c = status \<and> cond_Reason c = reason
          \<and> cond_Message c = msg)
   \<and> filter (\<lambda>c. cond_Type c \<noteq> t) (st_Conditions (k_Status k'))
       = filter (\<lambda>c. cond_Type c \<noteq> t) (st_Conditions (k_Status k))
   \<and> k' = k\<lparr>k_Status := (k_Status k)\<lparr>st_State := state, st_Conditions := st_Conditions (k_Status k')\<rparr>\<rparr>"

lemma set_condition_effect:
  assumes "conditions_doc L"
  shows "status_effect L k state t status reason msg
     (set_condition L (mk_condition t status now reason msg) (set_state state k))"
proof -
  let ?c = "mk_condition t status now reason msg"
  obtain c' where c': "find (\<lambda>d. cond_Type d = cond_Type ?c)
      (SetStatusCondition L (st_Conditions (k_Status k)) ?c) = Some c'" "same_content c' ?c"
    using assms unfolding conditions_doc_def by blast
  have "cond_Type ?c = t" by (simp add: mk_condition_def)
  moreover have "FindStatusCondition L (SetStatusCondition L (st_Conditions (k_Status k)) ?c) t = Some c'"
    using assms c'(1) calculation by (simp add: conditions_doc_def)
  moreover have "filter (\<lambda>d. cond_Type d \<noteq> t) (SetStatusCondition L (st_Conditions (k_Status k)) ?c)
      = filter (\<lambda>d. cond_Type d \<noteq> t) (st_Conditions (k_Status k))"
    using assms calculation(1) unfolding conditions_doc_def by metis
  ultimately show ?thesis
    using c'(2)
    by (simp add: status_effect_def set_condition_def set_state_def same_content_def mk_condition_def)
qed

lemma set_state_same: "set_state (st_State (k_Status k)) k = k"
  by (simp add: set_state_def)

text \<open>
  The table of the status methods: each sets the overall state and the status, reason and
  message of one condition as below, and touches nothing else of the resource; the add-on
  condition leaves the overall state alone.
\<close>

theorem status_methods:
  assumes "conditions_doc L"
  shows "status_effect L k ''Error'' c ''True'' r msg (UpdateStateReplicaFailure L now c r msg k)
    \<and> status_effect L k ''Error'' c ''False'' r (Error err) (UpdateStateFromErr L now c r err k)
    \<and> status_effect L k ''Warning'' c ''False'' r (Error err) (UpdateStateFromWarning L now c r err k)
    \<and> status_effect L k ''Ready'' c ''True'' r msg (UpdateStateReady L now c r msg k)
    \<and> status_effect L k ''Processing'' c ''Unknown'' r msg (UpdateStateProcessing L now c r msg k)
    \<and> status_effect L k ''Deleting'' c ''Unknown'' r msg (UpdateStateDeletion L now c r msg k)
    \<and> status_effect L k ''Deleting'' c ''True'' r msg (UpdateStateDeletionTrue L now c r msg k)
    \<and> status_effect L k (st_State (k_Status k)) ''AddonInstalled'' st r msg
        (SetAddonCondition L now st r msg k)"
  using set_condition_effect [OF assms, of k "st_State (k_Status k)"]
  by (simp add: UpdateStateReplicaFailure_def UpdateStateFromErr_def UpdateStateFromWarning_def
      UpdateStateReady_def UpdateStateProcessing_def UpdateStateDeletion_def
      UpdateStateDeletionTrue_def SetAddonCondition_def set_condition_effect [OF assms]
      set_state_same)

theorem status_methods_witness:
  "status_effect ref_lib ref_keda ''Ready'' ''Installed'' ''True'' ''Verified'' ''ok''
     (UpdateStateReady ref_lib 7 ''Installed'' ''Verified'' ''ok'' ref_keda)"
  using status_methods [OF ref_conditions_doc, of ref_keda "''Installed''" "''Verified''" "''ok''" "7"] by blast

end
