(* ===== verification/Apply_Verify.thy ===== *)
theory Apply_Verify
  imports State_Fns Updater_Contract
begin

text \<open>
  \<open>pkg/reconciler/apply.go\<close>, \<open>pkg/reconciler/verify.go\<close> and \<open>pkg/annotation/disclaimer.go\<close>: every
  object of the module is labelled, annotated and patched on the cluster, in order, and the
  deployments among the patched objects decide whether the module is ready.
\<close>

section \<open>annotation/disclaimer.go\<close>

abbreviation disclaimerAnnotation :: string where
  "disclaimerAnnotation \<equiv> ''keda-manager.kyma-project.io/managed-by-keda-manager-disclaimer''"

definition disclaimerMessage :: string where
  "disclaimerMessage =
     ''DO NOT EDIT - This resource is managed by Keda-Manager.'' @ [CHR 0x0A]
     @ ''Any modifications are discarded and the resource is reverted to the original state.''"

definition AddDoNotEditDisclaimer :: "k8s_lib \<Rightarrow> obj \<Rightarrow> obj" where
  "AddDoNotEditDisclaimer L u =
     SetAnnotations L u
       (Some (fmupd disclaimerAnnotation disclaimerMessage (non_nil (GetAnnotations L u))))"

section \<open>apply.go\<close>

definition ErrInstallation :: goerror where
  "ErrInstallation = errors_New ''installation error''"

text \<open>
  The loop variable is a copy of the element, but the map inside it is shared: annotations and
  labels are set on the object of \<open>r.Objs\<close> too, the images only on the copy.  The setters give an
  object whose map is nil a map of its own; an empty object stands for a nil map here (the loader of the
  manifests skips empty documents, so no object of \<open>r.Objs\<close> has an empty map).
\<close>

definition in_place :: "obj \<Rightarrow> obj \<Rightarrow> obj" where
  "in_place u u' = (if u = fmempty then u else u')"

definition set_obj :: "nat \<Rightarrow> obj \<Rightarrow> fsm \<Rightarrow> fsm" where
  "set_obj i u r = r\<lparr>f_Objs := (f_Objs r)[i := u]\<rparr>"

text \<open>\<open>r.Patch\<close> leaves the answer of the server in the object it is given.\<close>

definition client_Patch :: "env \<Rightarrow> obj \<Rightarrow> fsm \<Rightarrow> goerror option \<times> obj \<times> fsm" where
  "client_Patch E u r =
     (case e_patch E (f_hist r) u of (err, u') \<Rightarrow> (err, u', log_req (ReqPatch u) r))"

text \<open>The body of the loop before \<open>Patch\<close>: the shared object, the copy and the image error.\<close>

definition prepare :: "k8s_lib \<Rightarrow> env \<Rightarrow> obj \<Rightarrow> obj \<times> (obj \<times> goerror option) go" where
  "prepare L E u =
     (let u1 = AddDoNotEditDisclaimer L u in
      case setCommonLabels (GetLabels L u1) of
        Panic p \<Rightarrow> (in_place u u1, Panic p)
      | Ret labels \<Rightarrow>
          (let u2 = SetLabels L u1 labels in
           (in_place u u2,
            if fmlookup u2 ''kind'' = Some (JStr ''Deployment'')
            then updateImagesInDeployments L (e_getenv E) u2
            else Ret (u2, None))))"

fun apply_loop :: "k8s_lib \<Rightarrow> env \<Rightarrow> nat \<Rightarrow> obj list \<Rightarrow> bool \<Rightarrow> fsm \<Rightarrow> systemState
    \<Rightarrow> bool go \<times> fsm \<times> systemState" where
  "apply_loop L E i [] isError r s = (Ret isError, r, s)"
| "apply_loop L E i (u # us) isError r s =
     (let r1 = set_obj i (fst (prepare L E u)) r in
      case snd (prepare L E u) of
        Panic p \<Rightarrow> (Panic p, r1, s)
      | Ret (u3, imageErr) \<Rightarrow>
          (case client_Patch E u3 r1 of
             (err, u4, r2) \<Rightarrow>
               apply_loop L E (Suc i) us (isError \<or> imageErr \<noteq> None \<or> err \<noteq> None)
                 r2 (s\<lparr>s_objs := s_objs s @ [u4]\<rparr>)))"

definition sFnApply :: "k8s_lib \<Rightarrow> env \<Rightarrow> fsm \<Rightarrow> systemState \<Rightarrow> outcome" where
  "sFnApply L E r s =
     (case apply_loop L E 0 (f_Objs r) False r s of
        (Panic p, r', s') \<Rightarrow> (Panic p, r', s')
      | (Ret isError, r', s') \<Rightarrow>
          (if \<not> isError then (Ret (switchState SFnVerify), r', s')
           else (Ret stopWithNoRequeue, r',
                 set_instance (UpdateStateFromErr L (e_now E (f_hist r')) ConditionTypeInstalled
                   ConditionReasonApplyObjError ErrInstallation (s_instance s')) s')))"

section \<open>verify.go\<close>

abbreviation DeploymentReplicaFailure :: string where
  "DeploymentReplicaFailure \<equiv> ''ReplicaFailure''"

definition hasDeployReplicaFailure :: "k8s_lib \<Rightarrow> Deployment \<Rightarrow> bool" where
  "hasDeployReplicaFailure L d =
     HasDeploymentConditionTrueStatus L (d_Conditions d) DeploymentReplicaFailure"

record tally =
  t_ready :: nat
  t_replicaFailure :: nat
  t_kedaVersion :: string

definition count_deployment :: "k8s_lib \<Rightarrow> Deployment \<Rightarrow> tally \<Rightarrow> tally" where
  "count_deployment L d t =
     \<lparr>t_ready = (if IsDeploymentReady L d then t_ready t + 1 else t_ready t),
      t_replicaFailure =
        (if hasDeployReplicaFailure L d then t_replicaFailure t + 1 else t_replicaFailure t),
      t_kedaVersion = (if d_Name d = operatorName
        then map_get (d_Labels d) ''app.kubernetes.io/version'' else t_kedaVersion t)\<rparr>"

fun verify_loop :: "k8s_lib \<Rightarrow> obj list \<Rightarrow> tally \<Rightarrow> goerror + tally" where
  "verify_loop L [] t = Inr t"
| "verify_loop L (u # us) t =
     (if \<not> isDeployment L u then verify_loop L us t
      else (case FromDeployment L u of
              Inl err \<Rightarrow> Inl err
            | Inr d \<Rightarrow> verify_loop L us (count_deployment L d t)))"

definition zero_tally :: tally where
  "zero_tally = \<lparr>t_ready = 0, t_replicaFailure = 0, t_kedaVersion = []\<rparr>"

definition set_KedaVersion :: "string \<Rightarrow> Keda \<Rightarrow> Keda" where
  "set_KedaVersion v k = k\<lparr>k_Status := (k_Status k)\<lparr>st_KedaVersion := v\<rparr>\<rparr>"

definition sFnVerify :: "k8s_lib \<Rightarrow> env \<Rightarrow> fsm \<Rightarrow> systemState \<Rightarrow> outcome" where
  "sFnVerify L E r s =
     (let now = e_now E (f_hist r); k = s_instance s in
      case verify_loop L (s_objs s) zero_tally of
        Inl err \<Rightarrow>
          (Ret (stopWithErrorAndNoRequeue (Some err)), r,
           set_instance (UpdateStateFromErr L now ConditionTypeInstalled
             ConditionReasonVerificationErr err k) s)
      | Inr t \<Rightarrow>
          if t_replicaFailure t > 0 then
            (Ret (stopWithRequeueAfter (Second * 10)), r,
             set_instance (UpdateStateReplicaFailure L now ConditionTypeDeploymentFailure
               ConditionReasonDeploymentReplicaFailure
               ''one or more deployment/s have ReplicaFailure condition'' k) s)
          else if t_ready t \<noteq> 3 then
            (Ret (stopWithRequeueAfter (Second * 10)), r,
             set_instance (UpdateStateProcessing L now ConditionTypeInstalled
               ConditionReasonVerification ''verification in progress'' k) s)
          else
            (Ret (switchState SFnHandleAddon), r,
             set_instance (UpdateStateReady L now ConditionTypeInstalled ConditionReasonVerified
               ''keda-operator and keda-operator-metrics-server ready''
               (set_KedaVersion (t_kedaVersion t)
                 (RemoveCondition L ConditionTypeDeploymentFailure k))) s))"

end
