(* ===== verification/Addon_Pkg.thy ===== *)
theory Addon_Pkg
  imports Environment
begin

text \<open>
  Loading of manifests: \<open>pkg/yaml/utils.go\<close>, \<open>pkg/resources/resources.go\<close> and the package
  \<open>pkg/addon\<close>, which downloads the manifests of the HTTP add-on and builds its network policies
  and Istio resources.
\<close>

section \<open>yaml/utils.go\<close>

definition normalizeToJSON :: "k8s_lib \<Rightarrow> obj \<Rightarrow> goerror + obj" where
  "normalizeToJSON L v =
     (case JsonMarshal L v of
        Inl err \<Rightarrow> Inl err
      | Inr b \<Rightarrow> JsonUnmarshal L b)"

abbreviation CRDKind :: string where
  "CRDKind \<equiv> ''CustomResourceDefinition''"

fun LoadData_loop :: "k8s_lib \<Rightarrow> (goerror + obj) list \<Rightarrow> obj list \<Rightarrow> goerror + obj list" where
  "LoadData_loop L [] results = Inr results"
| "LoadData_loop L (Inl err # ds) results = Inl err"
| "LoadData_loop L (Inr ob # ds) results =
     (if ob = fmempty then LoadData_loop L ds results
      else (case normalizeToJSON L ob of
              Inl err \<Rightarrow> Inl err
            | Inr u \<Rightarrow>
                (if gvk_Kind (GroupVersionKind L u) = CRDKind
                 then LoadData_loop L ds (u # results)
                 else LoadData_loop L ds (results @ [u]))))"

definition LoadData :: "k8s_lib \<Rightarrow> string \<Rightarrow> goerror + obj list" where
  "LoadData L content = LoadData_loop L (YamlDecode L content) []"

section \<open>resources/resources.go\<close>

fun LoadFromPaths_loop :: "k8s_lib \<Rightarrow> env \<Rightarrow> string list \<Rightarrow> obj list \<Rightarrow> goerror + obj list" where
  "LoadFromPaths_loop L E [] objs = Inr objs"
| "LoadFromPaths_loop L E (p # ps) objs =
     (case e_open E p of
        Inl err \<Rightarrow> Inl (errorf_w (''unable to open file '' @ p @ '': '') err [])
      | Inr file \<Rightarrow>
          (case LoadData L file of
             Inl err \<Rightarrow> Inl (errorf_w (''unable to parse file '' @ p @ '': '') err [])
           | Inr data \<Rightarrow> LoadFromPaths_loop L E ps (objs @ data)))"

definition LoadFromPaths :: "k8s_lib \<Rightarrow> env \<Rightarrow> string list \<Rightarrow> goerror + obj list" where
  "LoadFromPaths L E path = LoadFromPaths_loop L E path []"

section \<open>addon/addon.go\<close>

abbreviation tagsURL :: string where
  "tagsURL \<equiv> ''https://api.github.com/repos/kedacore/http-add-on/tags''"

definition releaseURL :: "string \<Rightarrow> string" where
  "releaseURL v = ''https://github.com/kedacore/http-add-on/releases/download/v'' @ v
     @ ''/keda-add-ons-http-'' @ v @ ''.yaml''"

definition crdURL :: "string \<Rightarrow> string" where
  "crdURL v = ''https://github.com/kedacore/http-add-on/releases/download/v'' @ v
     @ ''/keda-add-ons-http-'' @ v @ ''-crds.yaml''"

text \<open>
  The expression \<open>^[0-9]+\.[0-9]+\.[0-9]+\<close>, matched anywhere it can be anchored at the start: a digit
  string and a dot, twice, then at least one digit.  A dot is no digit, so taking all the digits
  is the only way to match.
\<close>

definition is_digit :: "char \<Rightarrow> bool" where
  "is_digit c = (let n = (of_char c :: nat) in 48 \<le> n \<and> n \<le> 57)"

definition digits_dot :: "string \<Rightarrow> string option" where
  "digits_dot s =
     (case dropWhile is_digit s of
        [] \<Rightarrow> None
      | c # rest \<Rightarrow> if takeWhile is_digit s \<noteq> [] \<and> c = CHR ''.'' then Some rest else None)"

definition versionRe_MatchString :: "string \<Rightarrow> bool" where
  "versionRe_MatchString s =
     (case digits_dot s of
        None \<Rightarrow> False
      | Some s1 \<Rightarrow> (case digits_dot s1 of
                      None \<Rightarrow> False
                    | Some s2 \<Rightarrow> takeWhile is_digit s2 \<noteq> []))"

definition invalidVersionErr :: "string \<Rightarrow> goerror" where
  "invalidVersionErr v = errors_New (''addon version '' @ quote_string v
     @ '' is not a valid semver (expected format: MAJOR.MINOR.PATCH)'')"

definition ValidateVersion :: "string \<Rightarrow> goerror + string" where
  "ValidateVersion version =
     (let v = TrimPrefix (TrimPrefix version ''v'') ''V'' in
      if \<not> versionRe_MatchString v then Inl (invalidVersionErr v) else Inr v)"

text \<open>\<open>errors.As\<close> looks for a type in the chain of wrapped errors.\<close>

fun errors_As_cert :: "net_error \<Rightarrow> bool" where
  "errors_As_cert (CertificateVerificationError t e) = True"
| "errors_As_cert (UrlError t e) = errors_As_cert e"
| "errors_As_cert _ = False"

fun errors_As_unknown :: "net_error \<Rightarrow> bool" where
  "errors_As_unknown (UnknownAuthorityError t) = True"
| "errors_As_unknown (CertificateVerificationError t e) = errors_As_unknown e"
| "errors_As_unknown (UrlError t e) = errors_As_unknown e"
| "errors_As_unknown _ = False"

fun errors_As_url :: "net_error \<Rightarrow> net_error option" where
  "errors_As_url (UrlError t e) = Some e"
| "errors_As_url (CertificateVerificationError t e) = errors_As_url e"
| "errors_As_url _ = None"

lemma errors_As_url_size: "errors_As_url e = Some e' \<Longrightarrow> size e' < size e"
  by (induction e) auto

function isTLSError :: "net_error \<Rightarrow> bool" where
  "isTLSError err =
     (if errors_As_cert err then True
      else if errors_As_unknown err then True
      else (case errors_As_url err of Some e \<Rightarrow> isTLSError e | None \<Rightarrow> False))"
  by auto
termination
  by (relation "measure size") (simp_all add: errors_As_url_size)

declare isTLSError.simps [simp del]

definition http_Get :: "env \<Rightarrow> string \<Rightarrow> fsm \<Rightarrow> (net_error + http_response) \<times> fsm" where
  "http_Get E url r = (e_http_get E (f_hist r) url, log_req (ReqHTTPGet url) r)"

text \<open>The text of a wrapped HTTP error.\<close>

definition net_errorf :: "string \<Rightarrow> net_error \<Rightarrow> string \<Rightarrow> goerror" where
  "net_errorf pre e post = errors_New (pre @ net_text e @ post)"

definition LatestVersion :: "k8s_lib \<Rightarrow> env \<Rightarrow> fsm \<Rightarrow> (goerror + string) \<times> fsm" where
  "LatestVersion L E r =
     (case http_Get E tagsURL r of
        (Inl err, r') \<Rightarrow> (Inl (net_errorf ''failed to fetch tags: '' err []), r')
      | (Inr resp, r') \<Rightarrow>
          (if StatusCode resp \<noteq> 200
           then (Inl (errors_New (''tags API returned HTTP '' @ nat_string (StatusCode resp))), r')
           else (case Body resp of
                   Inl err \<Rightarrow> (Inl (errorf_w ''failed to decode tags response: '' err []), r')
                 | Inr body \<Rightarrow>
                     (case JsonDecodeTags L body of
                        Inl err \<Rightarrow> (Inl (errorf_w ''failed to decode tags response: '' err []), r')
                      | Inr [] \<Rightarrow> (Inl (errors_New ''no tags found for http-add-on''), r')
                      | Inr (tag # tags) \<Rightarrow> (Inr (TrimPrefix tag ''v''), r')))))"

definition fetchURL ::
  "k8s_lib \<Rightarrow> env \<Rightarrow> string \<Rightarrow> string \<Rightarrow> fsm \<Rightarrow> (goerror + obj list) \<times> fsm" where
  "fetchURL L E rawURL version r =
     (case http_Get E rawURL r of
        (Inl err, r') \<Rightarrow>
          (Inl (if isTLSError err
                then net_errorf (''TLS certificate verification failed for '' @ rawURL @ '': '') err
                       '' (ensure CA certificates are available in the container image)''
                else net_errorf (''failed to download '' @ rawURL @ '': '') err []), r')
      | (Inr resp, r') \<Rightarrow>
          (if StatusCode resp \<noteq> 200
           then (Inl (errors_New (''download of '' @ rawURL @ '' returned HTTP ''
                   @ nat_string (StatusCode resp) @ '' for version '' @ version)), r')
           else (case Body resp of
                   Inl err \<Rightarrow> (Inl (errorf_w (''failed to read response from '' @ rawURL @ '': '') err []), r')
                 | Inr body \<Rightarrow>
                     (case LoadData L body of
                        Inl err \<Rightarrow> (Inl (errorf_w (''failed to parse response from '' @ rawURL @ '': '') err []), r')
                      | Inr objs \<Rightarrow> (Inr objs, r')))))"

definition FetchResources ::
  "k8s_lib \<Rightarrow> env \<Rightarrow> string \<Rightarrow> fsm \<Rightarrow> (goerror + obj list) \<times> fsm" where
  "FetchResources L E version0 r =
     (case ValidateVersion version0 of
        Inl err \<Rightarrow> (Inl err, r)
      | Inr version \<Rightarrow>
          (case fetchURL L E (crdURL version) version r of
             (Inl err, r1) \<Rightarrow> (Inl (errorf_w ''failed to fetch addon CRDs: '' err []), r1)
           | (Inr crdObjs, r1) \<Rightarrow>
               (case fetchURL L E (releaseURL version) version r1 of
                  (Inl err, r2) \<Rightarrow> (Inl (errorf_w ''failed to fetch addon manifest: '' err []), r2)
                | (Inr objs, r2) \<Rightarrow> (Inr (crdObjs @ objs), r2))))"

section \<open>addon/istio.go, addon/networkpolicies.go\<close>

definition json_map :: "(string \<times> json) list \<Rightarrow> json" where
  "json_map kvs = JMap (fmap_of_list kvs)"

abbreviation peerAuthenticationName :: string where
  "peerAuthenticationName \<equiv> ''keda-add-ons-http-envoy-metrics''"
abbreviation envoyStatsPort :: string where
  "envoyStatsPort \<equiv> ''15090''"

definition PeerAuthentication :: "string \<Rightarrow> obj" where
  "PeerAuthentication namespace =
     fmap_of_list
       [(''apiVersion'', JStr ''security.istio.io/v1''),
        (''kind'', JStr ''PeerAuthentication''),
        (''metadata'', json_map
          [(''name'', JStr peerAuthenticationName),
           (''namespace'', JStr namespace),
           (''labels'', json_map
             [(''kyma-project.io/module'', JStr ''keda''),
              (''app.kubernetes.io/name'', JStr ''http-add-on''),
              (''app.kubernetes.io/part-of'', JStr ''keda-manager''),
              (''app.kubernetes.io/managed-by'', JStr ''keda-manager''),
              (''app.kubernetes.io/component'', JStr ''istio'')])]),
        (''spec'', json_map
          [(''selector'', json_map
             [(''matchLabels'', json_map
               [(''app.kubernetes.io/component'', JStr ''add-on''),
                (''app.kubernetes.io/name'', JStr ''http''),
                (''app.kubernetes.io/part-of'', JStr ''keda'')])]),
           (''portLevelMtls'', json_map
             [(envoyStatsPort, json_map [(''mode'', JStr ''PERMISSIVE'')])])])]"

abbreviation addonNetworkPoliciesFile :: string where
  "addonNetworkPoliciesFile \<equiv> ''keda-addon-networkpolicies.yaml''"

text \<open>A missing or broken file panics.\<close>

definition NetworkPolicies :: "k8s_lib \<Rightarrow> env \<Rightarrow> string \<Rightarrow> obj list go" where
  "NetworkPolicies L E namespace =
     (case e_open E addonNetworkPoliciesFile of
        Inl err \<Rightarrow> Panic (''failed to open '' @ addonNetworkPoliciesFile @ '': '' @ Error err)
      | Inr f \<Rightarrow>
          (case LoadData L f of
             Inl err \<Rightarrow> Panic (''failed to parse '' @ addonNetworkPoliciesFile @ '': '' @ Error err)
           | Inr objs \<Rightarrow> Ret (map (\<lambda>u. SetNamespace L u namespace) objs)))"

section \<open>Properties of loading\<close>

text \<open>What a document list contributes: the non-empty documents, normalised.\<close>

fun docs_of :: "k8s_lib \<Rightarrow> (goerror + obj) list \<Rightarrow> obj list option" where
  "docs_of L [] = Some []"
| "docs_of L (Inl err # ds) = None"
| "docs_of L (Inr ob # ds) =
     (if ob = fmempty then docs_of L ds
      else (case normalizeToJSON L ob of
              Inl err \<Rightarrow> None
            | Inr u \<Rightarrow> map_option (Cons u) (docs_of L ds)))"

definition is_crd_kind :: "k8s_lib \<Rightarrow> obj \<Rightarrow> bool" where
  "is_crd_kind L u \<longleftrightarrow> gvk_Kind (GroupVersionKind L u) = CRDKind"

lemma LoadData_loop_docs:
  "LoadData_loop L ds acc = Inr res \<longleftrightarrow>
     (\<exists>us. docs_of L ds = Some us \<and>
        res = rev (filter (is_crd_kind L) us) @ acc @ filter (\<lambda>u. \<not> is_crd_kind L u) us)"
proof (induction L ds acc arbitrary: res rule: LoadData_loop.induct)
  case (3 L ob ds results)
  then show ?case
    by (cases "normalizeToJSON L ob") (auto simp: is_crd_kind_def)
qed auto

text \<open>The repository of the add-on is asked for the CRDs first, and nothing else is asked.\<close>

lemma http_Get_hist [simp]: "f_hist (snd (http_Get E u r)) = f_hist r @ [ReqHTTPGet u]"
  by (simp add: http_Get_def)

lemma fetchURL_r: "fetchURL L E u v r = (x, r') \<Longrightarrow> r' = log_req (ReqHTTPGet u) r"
  by (auto simp: fetchURL_def http_Get_def Let_def split: sum.splits if_splits)

lemma FetchResources_r:
  assumes "FetchResources L E v r = (x, r')"
  shows "r' = r \<or> (\<exists>w. ValidateVersion v = Inr w \<and>
       (r' = log_req (ReqHTTPGet (crdURL w)) r
        \<or> r' = log_req (ReqHTTPGet (releaseURL w)) (log_req (ReqHTTPGet (crdURL w)) r)))"
  using assms
  by (auto simp: FetchResources_def split: sum.splits prod.splits dest!: fetchURL_r)

end
