(* ===== verification/Addon_Objs.thy ===== *)
theory Addon_Objs
  imports Addon_Pkg Updater_Contract
begin

text \<open>
  The part of \<open>pkg/reconciler/addon.go\<close> that rewrites the manifests of the HTTP add-on for a
  namespace: \<open>overrideNamespace\<close> with its helpers, and \<open>fetchAddonObjs\<close>.  \<open>NestedSlice\<close> and
  \<open>NestedStringMap\<close> return deep copies, so a helper works on a copy and stores it back when it
  changed something.
\<close>

section \<open>Constants\<close>

abbreviation istioExcludeInboundPortsAnnotation :: string where
  "istioExcludeInboundPortsAnnotation \<equiv> ''traffic.sidecar.istio.io/excludeInboundPorts''"
abbreviation istioExcludeInboundPortsValue :: string where
  "istioExcludeInboundPortsValue \<equiv> ''9090''"
abbreviation istioSidecarInjectAnnotation :: string where
  "istioSidecarInjectAnnotation \<equiv> ''sidecar.istio.io/inject''"
abbreviation kymaModuleLabel :: string where
  "kymaModuleLabel \<equiv> ''kyma-project.io/module''"
abbreviation kymaModuleLabelValue :: string where
  "kymaModuleLabelValue \<equiv> ''keda''"
abbreviation templateAnnotations :: "string list" where
  "templateAnnotations \<equiv> [''spec'', ''template'', ''metadata'', ''annotations'']"
abbreviation templateLabels :: "string list" where
  "templateLabels \<equiv> [''spec'', ''template'', ''metadata'', ''labels'']"
abbreviation podContainers :: "string list" where
  "podContainers \<equiv> [''spec'', ''template'', ''spec'', ''containers'']"

definition namespaceEnvVars :: "string list" where
  "namespaceEnvVars = [''KEDA_HTTP_SCALER_TARGET_ADMIN_NAMESPACE'', ''KEDA_HTTP_OPERATOR_NAMESPACE'']"

section \<open>Labels and annotations\<close>

definition applyCommonMetadataLabels :: "k8s_lib \<Rightarrow> obj \<Rightarrow> obj go" where
  "applyCommonMetadataLabels L u =
     go_bind (setCommonLabels (Some (non_nil (GetLabels L u)))) (\<lambda>labels. Ret (SetLabels L u labels))"

definition patchDeploymentIstioExcludePortsAnnotation :: "k8s_lib \<Rightarrow> obj \<Rightarrow> obj" where
  "patchDeploymentIstioExcludePortsAnnotation L u =
     (let annotations = non_nil (NestedStringMap L u templateAnnotations) in
      if map_get (Some annotations) istioExcludeInboundPortsAnnotation = istioExcludeInboundPortsValue
      then u
      else SetNestedStringMap L u
             (fmupd istioExcludeInboundPortsAnnotation istioExcludeInboundPortsValue annotations)
             templateAnnotations)"

definition patchDeploymentIstioSidecarAnnotation :: "k8s_lib \<Rightarrow> string \<Rightarrow> obj \<Rightarrow> obj" where
  "patchDeploymentIstioSidecarAnnotation L value u =
     (let annotations = non_nil (NestedStringMap L u templateAnnotations) in
      if map_get (Some annotations) istioSidecarInjectAnnotation = value then u
      else SetNestedStringMap L u (fmupd istioSidecarInjectAnnotation value annotations)
             templateAnnotations)"

definition patchDeploymentPodTemplateLabels :: "k8s_lib \<Rightarrow> obj \<Rightarrow> obj" where
  "patchDeploymentPodTemplateLabels L u =
     (let labels = non_nil (NestedStringMap L u templateLabels) in
      if map_get (Some labels) kymaModuleLabel = kymaModuleLabelValue then u
      else SetNestedStringMap L u (fmupd kymaModuleLabel kymaModuleLabelValue labels) templateLabels)"

section \<open>Environment variables and subjects\<close>

definition patch_env_var :: "string \<Rightarrow> json \<Rightarrow> json \<times> bool" where
  "patch_env_var namespace rawE =
     (case as_map (Some rawE) of
        None \<Rightarrow> (rawE, False)
      | Some envVar \<Rightarrow>
          (let name = (case as_string (fmlookup envVar ''name'') of None \<Rightarrow> [] | Some n \<Rightarrow> n) in
           if name \<in> set namespaceEnvVars \<and> fmlookup envVar ''value'' \<noteq> Some (JStr namespace)
           then (JMap (fmupd ''value'' (JStr namespace) envVar), True)
           else (rawE, False)))"

definition patch_container :: "string \<Rightarrow> json \<Rightarrow> json \<times> bool" where
  "patch_container namespace rawC =
     (case as_map (Some rawC) of
        None \<Rightarrow> (rawC, False)
      | Some container \<Rightarrow>
          (case as_list (fmlookup container ''env'') of
             None \<Rightarrow> (rawC, False)
           | Some envList \<Rightarrow>
               (let ps = map (patch_env_var namespace) envList in
                (JMap (fmupd ''env'' (JList (map fst ps)) container), list_ex snd ps))))"

definition patchDeploymentEnvNamespace :: "k8s_lib \<Rightarrow> string \<Rightarrow> obj \<Rightarrow> obj" where
  "patchDeploymentEnvNamespace L namespace u =
     (case NestedSlice L u podContainers of
        None \<Rightarrow> u
      | Some containers \<Rightarrow>
          (let ps = map (patch_container namespace) containers in
           if list_ex snd ps then SetNestedSlice L u (map fst ps) podContainers else u))"

definition patch_subject :: "k8s_lib \<Rightarrow> string \<Rightarrow> json \<Rightarrow> json \<times> bool" where
  "patch_subject L namespace raw =
     (case as_map (Some raw) of
        None \<Rightarrow> (raw, False)
      | Some subj \<Rightarrow>
          (if NestedString L subj [''kind''] \<noteq> ''ServiceAccount'' then (raw, False)
           else (let ns = NestedString L subj [''namespace''] in
                 if ns \<noteq> [] \<and> ns \<noteq> namespace
                 then (JMap (fmupd ''namespace'' (JStr namespace) subj), True)
                 else (raw, False))))"

definition patchSubjectsNamespace :: "k8s_lib \<Rightarrow> string \<Rightarrow> obj \<Rightarrow> obj" where
  "patchSubjectsNamespace L namespace u =
     (case NestedSlice L u [''subjects''] of
        None \<Rightarrow> u
      | Some subjects \<Rightarrow>
          (let ps = map (patch_subject L namespace) subjects in
           if list_ex snd ps then SetNestedSlice L u (map fst ps) [''subjects''] else u))"

section \<open>overrideNamespace\<close>

definition override_object :: "k8s_lib \<Rightarrow> string \<Rightarrow> bool \<Rightarrow> obj \<Rightarrow> obj go" where
  "override_object L namespace istioInjection u =
     (let u1 = (if GetNamespace L u \<noteq> [] then SetNamespace L u namespace else u) in
      go_bind (applyCommonMetadataLabels L u1) (\<lambda>u2.
      Ret (if GetKind L u2 = ''ClusterRoleBinding'' \<or> GetKind L u2 = ''RoleBinding''
           then patchSubjectsNamespace L namespace u2
           else if GetKind L u2 = ''Deployment'' then
             (let u3 = patchDeploymentPodTemplateLabels L (patchDeploymentEnvNamespace L namespace u2)
              in if istioInjection
                 then patchDeploymentIstioSidecarAnnotation L ''true''
                        (patchDeploymentIstioExcludePortsAnnotation L u3)
                 else patchDeploymentIstioSidecarAnnotation L ''false'' u3)
           else u2)))"

fun overrideNamespace :: "k8s_lib \<Rightarrow> string \<Rightarrow> bool \<Rightarrow> obj list \<Rightarrow> obj list go" where
  "overrideNamespace L namespace istioInjection [] = Ret []"
| "overrideNamespace L namespace istioInjection (u # us) =
     go_bind (override_object L namespace istioInjection u) (\<lambda>u'.
     go_bind (overrideNamespace L namespace istioInjection us) (\<lambda>us'. Ret (u' # us')))"

section \<open>fetchAddonObjs\<close>

definition attachIstioAddonResources :: "obj list \<Rightarrow> string \<Rightarrow> bool \<Rightarrow> obj list" where
  "attachIstioAddonResources objs namespace istioInjection =
     (if istioInjection then objs @ [PeerAuthentication namespace] else objs)"

definition fetchAddonObjs ::
  "k8s_lib \<Rightarrow> env \<Rightarrow> string \<Rightarrow> string \<Rightarrow> bool \<Rightarrow> fsm \<Rightarrow> (goerror + obj list) go \<times> fsm" where
  "fetchAddonObjs L E version namespace istioInjection r =
     (case FetchResources L E version r of
        (Inl err, r') \<Rightarrow> (Ret (Inl err), r')
      | (Inr objs, r') \<Rightarrow>
          (go_bind (overrideNamespace L namespace istioInjection objs) (\<lambda>objs1.
           go_bind (NetworkPolicies L E namespace) (\<lambda>nps.
           Ret (Inr (attachIstioAddonResources (objs1 @ nps) namespace istioInjection)))), r'))"

lemma applyCommonMetadataLabels_eq:
  "applyCommonMetadataLabels L u =
     Ret (SetLabels L u (Some (with_common_labels (non_nil (GetLabels L u)))))"
  by (simp add: applyCommonMetadataLabels_def setCommonLabels_simps)

text \<open>The rewriting never panics: the labels it sets were created when they were nil.\<close>

lemma override_object_Ret: "\<exists>u'. override_object L ns istio u = Ret u'"
  by (simp add: override_object_def applyCommonMetadataLabels_eq Let_def)

definition overridden :: "k8s_lib \<Rightarrow> string \<Rightarrow> bool \<Rightarrow> obj \<Rightarrow> obj" where
  "overridden L ns istio u = (case override_object L ns istio u of Ret u' \<Rightarrow> u' | Panic p \<Rightarrow> u)"

lemma override_object_eq: "override_object L ns istio u = Ret (overridden L ns istio u)"
  using override_object_Ret [of L ns istio u] by (auto simp: overridden_def)

lemma overrideNamespace_eq:
  "overrideNamespace L ns istio us = Ret (map (overridden L ns istio) us)"
  by (induction us) (simp_all add: override_object_eq)

lemma fetchAddonObjs_r:
  "fetchAddonObjs L E v ns istio r = (x, r') \<Longrightarrow> FetchResources L E v r = (y, r'') \<Longrightarrow> r' = r''"
  by (auto simp: fetchAddonObjs_def split: sum.splits)

end
