(* ===== verification/Addon_States.thy ===== *)
theory Addon_States
  imports Addon_Objs State_Fns Apply_Verify
begin

text \<open>
  The states of the HTTP add-on in \<open>pkg/reconciler/addon.go\<close>: enabling it (\<open>sFnApplyAddon\<close>), the
  guard of the disable path (\<open>sFnGuardAddonInUse\<close>) and disabling it (\<open>sFnDeleteAddon\<close>), with the
  calls they make on the cluster.
\<close>

section \<open>Calls on the cluster\<close>

definition client_Delete :: "env \<Rightarrow> obj \<Rightarrow> fsm \<Rightarrow> goerror option \<times> fsm" where
  "client_Delete E u r = (e_delete E (f_hist r) u, log_req (ReqDelete u) r)"

definition client_List :: "env \<Rightarrow> GVK \<Rightarrow> fsm \<Rightarrow> (goerror option \<times> obj list) \<times> fsm" where
  "client_List E gvk r = (e_list E (f_hist r) gvk, log_req (ReqList gvk) r)"

definition ensureNamespace :: "env \<Rightarrow> string \<Rightarrow> fsm \<Rightarrow> goerror option \<times> fsm" where
  "ensureNamespace E namespace r =
     (let err = e_create_ns E (f_hist r) namespace;
          r' = log_req (ReqCreateNamespace namespace) r
      in case err of
           None \<Rightarrow> (None, r')
         | Some e \<Rightarrow>
             (if \<not> IsAlreadyExists err
              then (Some (errorf_w (''failed to create namespace '' @ namespace @ '': '') e []), r')
              else (None, r')))"

definition deletePeerAuthentication :: "env \<Rightarrow> string \<Rightarrow> fsm \<Rightarrow> goerror option \<times> fsm" where
  "deletePeerAuthentication E namespace r =
     (case client_Delete E (PeerAuthentication namespace) r of
        (err, r') \<Rightarrow>
          if IgnoreNotFound err = None \<or> IsNoMatchError err then (None, r') else (err, r'))"

definition join_opt :: "goerror option \<Rightarrow> goerror option \<Rightarrow> goerror option" where
  "join_opt acc err = (case err of None \<Rightarrow> acc | Some e \<Rightarrow> Some (errors_Join acc e))"

text \<open>\<open>applyObjects\<close> returns the joined errors and the objects as \<open>Patch\<close> left them.\<close>

fun applyObjects_loop :: "env \<Rightarrow> obj list \<Rightarrow> goerror option \<Rightarrow> fsm
    \<Rightarrow> goerror option \<times> obj list \<times> fsm" where
  "applyObjects_loop E [] applyErr r = (applyErr, [], r)"
| "applyObjects_loop E (u # us) applyErr r =
     (case client_Patch E u r of
        (err, u', r1) \<Rightarrow>
          (case applyObjects_loop E us (join_opt applyErr err) r1 of
             (applyErr', us', r2) \<Rightarrow> (applyErr', u' # us', r2)))"

definition applyObjects :: "env \<Rightarrow> obj list \<Rightarrow> fsm \<Rightarrow> goerror option \<times> obj list \<times> fsm" where
  "applyObjects E objs r = applyObjects_loop E objs None r"

fun deleteObjects_loop :: "env \<Rightarrow> obj list \<Rightarrow> goerror option \<Rightarrow> fsm \<Rightarrow> goerror option \<times> fsm" where
  "deleteObjects_loop E [] delErr r = (delErr, r)"
| "deleteObjects_loop E (u # us) delErr r =
     (case client_Delete E u r of
        (err, r1) \<Rightarrow> deleteObjects_loop E us (join_opt delErr (IgnoreNotFound err)) r1)"

definition deleteObjects :: "env \<Rightarrow> obj list \<Rightarrow> fsm \<Rightarrow> goerror option \<times> fsm" where
  "deleteObjects E objs r = deleteObjects_loop E objs None r"

definition httpScaledObjectGVK :: GVK where
  "httpScaledObjectGVK = \<lparr>gvk_Group = ''http.keda.sh'', gvk_Version = ''v1alpha1'',
     gvk_Kind = ''HTTPScaledObject'' @ ''List''\<rparr>"

definition httpScaledObjectsInUse :: "env \<Rightarrow> fsm \<Rightarrow> (goerror + nat) \<times> fsm" where
  "httpScaledObjectsInUse E r =
     (case client_List E httpScaledObjectGVK r of
        ((Some err, items), r') \<Rightarrow>
          (if IsNoMatchError (Some err) \<or> IsNotFound (Some err) then (Inr 0, r')
           else (Inl (errorf_w ''list HTTPScaledObjects: '' err []), r'))
      | ((None, items), r') \<Rightarrow> (Inr (length items), r'))"

section \<open>Handling and guarding\<close>

definition sFnHandleAddon :: "fsm \<Rightarrow> systemState \<Rightarrow> outcome" where
  "sFnHandleAddon r s =
     (if \<not> addon_Enabled (ReadAddonCfg (s_instance s)) then (Ret (switchState SFnGuardAddonInUse), r, s)
      else (Ret (switchState SFnApplyAddon), r, s))"

definition guardAddonInUseRequeue :: nat where
  "guardAddonInUseRequeue = 30 * Second"

definition in_use_message :: "nat \<Rightarrow> string" where
  "in_use_message count = nat_string count
     @ '' HTTPScaledObject(s) still exist on the cluster; delete them before disabling the HTTP add-on''"

definition addon_warning :: "k8s_lib \<Rightarrow> time \<Rightarrow> string \<Rightarrow> systemState \<Rightarrow> systemState" where
  "addon_warning L now msg s =
     set_instance (set_state StateWarning
       (SetAddonCondition L now ''False'' ConditionReasonAddonInUse msg (s_instance s))) s"

definition sFnGuardAddonInUse :: "k8s_lib \<Rightarrow> env \<Rightarrow> fsm \<Rightarrow> systemState \<Rightarrow> outcome" where
  "sFnGuardAddonInUse L E r s =
     (case httpScaledObjectsInUse E r of
        (Inl err, r') \<Rightarrow>
          (Ret (stopWithRequeueAfter guardAddonInUseRequeue), r',
           addon_warning L (e_now E (f_hist r'))
             (''Cannot verify HTTPScaledObject usage: '' @ Error err) s)
      | (Inr count, r') \<Rightarrow>
          (if count = 0 then (Ret (switchState SFnDeleteAddon), r', s)
           else (Ret (stopWithRequeueAfter guardAddonInUseRequeue), r',
                 addon_warning L (e_now E (f_hist r')) (in_use_message count) s)))"

section \<open>Enabling\<close>

definition addon_condition :: "k8s_lib \<Rightarrow> env \<Rightarrow> fsm \<Rightarrow> string \<Rightarrow> string \<Rightarrow> string \<Rightarrow> systemState \<Rightarrow> systemState" where
  "addon_condition L E r status reason msg s =
     set_instance (SetAddonCondition L (e_now E (f_hist r)) status reason msg (s_instance s)) s"

text \<open>The errors of the cleanup are dropped; a panic of \<open>NetworkPolicies\<close> is not.\<close>

definition cleanupOldAddon :: "k8s_lib \<Rightarrow> env \<Rightarrow> string \<Rightarrow> string \<Rightarrow> fsm \<Rightarrow> unit go \<times> fsm" where
  "cleanupOldAddon L E version namespace r =
     (case fetchAddonObjs L E version namespace False r of
        (Panic p, r1) \<Rightarrow> (Panic p, r1)
      | (Ret (Inl err), r1) \<Rightarrow> (Ret (), r1)
      | (Ret (Inr objs), r1) \<Rightarrow>
          (case deleteObjects E objs r1 of
             (delErr, r2) \<Rightarrow> (Ret (), snd (deletePeerAuthentication E namespace r2))))"

text \<open>The switch of \<open>sFnApplyAddon\<close> on the previous version and namespace.\<close>

definition cleanup_previous ::
  "k8s_lib \<Rightarrow> env \<Rightarrow> string \<Rightarrow> string \<Rightarrow> string \<Rightarrow> string \<Rightarrow> fsm \<Rightarrow> unit go \<times> fsm" where
  "cleanup_previous L E prevVersion prevNS version targetNS r =
     (if prevVersion \<noteq> [] then
        (if prevNS \<noteq> [] \<and> prevNS \<noteq> targetNS then cleanupOldAddon L E prevVersion prevNS r
         else if prevVersion \<noteq> version then cleanupOldAddon L E prevVersion targetNS r
         else (Ret (), r))
      else (Ret (), r))"

text \<open>
  The common end of enabling and disabling: the annotations are persisted by \<open>r.Update\<close>, whose
  answer overwrites the instance, and the status that was wanted is put back.
\<close>

definition persist_annotations :: "env \<Rightarrow> fsm \<Rightarrow> systemState \<Rightarrow> fsm \<times> systemState" where
  "persist_annotations E r s =
     (let desiredStatus = k_Status (s_instance s) in
      case client_Update E r s of
        (err, r', s') \<Rightarrow> (r', set_instance ((s_instance s')\<lparr>k_Status := desiredStatus\<rparr>) s'))"

definition installed_message :: "string \<Rightarrow> string \<Rightarrow> string" where
  "installed_message version ns = ''HTTP add-on v'' @ version @ '' installed in namespace '' @ ns"

text \<open>\<open>sFnApplyAddon\<close> after the manifests are fetched.\<close>

definition apply_fetched ::
  "k8s_lib \<Rightarrow> env \<Rightarrow> AddonCfg \<Rightarrow> string \<Rightarrow> string \<Rightarrow> obj list \<Rightarrow> fsm \<Rightarrow> systemState \<Rightarrow> outcome" where
  "apply_fetched L E cfg version targetNS objs r s =
     (case applyObjects E objs r of
        (Some applyErr, objs', r1) \<Rightarrow>
          (Ret stopWithNoRequeue, r1,
           addon_condition L E r1 ''False'' ConditionReasonAddonInstallErr (Error applyErr) s)
      | (None, objs', r1) \<Rightarrow>
          (case (if \<not> addon_IstioInjection cfg then deletePeerAuthentication E targetNS r1
                 else (None, r1)) of
             (Some err, r2) \<Rightarrow>
               (Ret stopWithNoRequeue, r2,
                addon_condition L E r2 ''False'' ConditionReasonAddonInstallErr (Error err) s)
           | (None, r2) \<Rightarrow>
               (let r3 = r2\<lparr>f_AddonObjs := objs'\<rparr>;
                    k = SetAnnotation AnnotationAddonInstalledNamespace targetNS
                          (SetAnnotation AnnotationAddonInstalledVersion version (s_instance s));
                    s1 = addon_condition L E r3 ''True'' ConditionReasonAddonInstalled
                           (installed_message version targetNS) (set_instance k s)
                in case persist_annotations E r3 s1 of
                     (r4, s2) \<Rightarrow> (Ret stopWithNoRequeue, r4, s2))))"

definition sFnApplyAddon :: "k8s_lib \<Rightarrow> env \<Rightarrow> fsm \<Rightarrow> systemState \<Rightarrow> outcome" where
  "sFnApplyAddon L E r s =
     (let cfg = ReadAddonCfg (s_instance s);
          version = DefaultAddonVersion;
          targetNS = EffectiveNamespace cfg;
          ann = meta_Annotations (k_Meta (s_instance s));
          prevVersion = map_get ann AnnotationAddonInstalledVersion;
          prevNS = map_get ann AnnotationAddonInstalledNamespace
      in case ensureNamespace E targetNS r of
           (Some err, r1) \<Rightarrow>
             (Ret stopWithNoRequeue, r1,
              addon_condition L E r1 ''False'' ConditionReasonAddonInstallErr (Error err) s)
         | (None, r1) \<Rightarrow>
             (case cleanup_previous L E prevVersion prevNS version targetNS r1 of
                (Panic p, r2) \<Rightarrow> (Panic p, r2, s)
              | (Ret _, r2) \<Rightarrow>
                  (case fetchAddonObjs L E version targetNS (addon_IstioInjection cfg) r2 of
                     (Panic p, r3) \<Rightarrow> (Panic p, r3, s)
                   | (Ret (Inl err), r3) \<Rightarrow>
                       (Ret stopWithNoRequeue, r3,
                        addon_condition L E r3 ''False'' ConditionReasonAddonInstallErr (Error err) s)
                   | (Ret (Inr objs), r3) \<Rightarrow> apply_fetched L E cfg version targetNS objs r3 s)))"

section \<open>Disabling\<close>

text \<open>\<open>sFnDeleteAddon\<close> after the objects are known.\<close>

definition delete_known ::
  "k8s_lib \<Rightarrow> env \<Rightarrow> string \<Rightarrow> obj list \<Rightarrow> fsm \<Rightarrow> systemState \<Rightarrow> outcome" where
  "delete_known L E lastNS objs r s =
     (case deleteObjects E objs r of
        (Some delErr, r1) \<Rightarrow>
          (Ret stopWithNoRequeue, r1,
           addon_condition L E r1 ''False'' ConditionReasonAddonInstallErr (Error delErr) s)
      | (None, r1) \<Rightarrow>
          (case deletePeerAuthentication E lastNS r1 of
             (Some err, r2) \<Rightarrow>
               (Ret stopWithNoRequeue, r2,
                addon_condition L E r2 ''False'' ConditionReasonAddonInstallErr (Error err) s)
           | (None, r2) \<Rightarrow>
               (let r3 = r2\<lparr>f_AddonObjs := []\<rparr>;
                    k = SetAnnotation AnnotationAddonInstalledNamespace []
                          (SetAnnotation AnnotationAddonInstalledVersion [] (s_instance s));
                    s1 = addon_condition L E r3 ''False'' ConditionReasonAddonDeleted
                           ''HTTP add-on removed'' (set_instance k s)
                in case persist_annotations E r3 s1 of
                     (r4, s2) \<Rightarrow> (Ret stopWithNoRequeue, r4, s2))))"

definition sFnDeleteAddon :: "k8s_lib \<Rightarrow> env \<Rightarrow> fsm \<Rightarrow> systemState \<Rightarrow> outcome" where
  "sFnDeleteAddon L E r s =
     (let ann = meta_Annotations (k_Meta (s_instance s));
          lastVersion = map_get ann AnnotationAddonInstalledVersion;
          ns = map_get ann AnnotationAddonInstalledNamespace;
          lastNS = (if ns \<noteq> [] then ns else DefaultAddonNamespace)
      in if f_AddonObjs r = [] then
           (if lastVersion = [] then
              (Ret stopWithNoRequeue, r,
               addon_condition L E r ''False'' ConditionReasonAddonDisabled ''HTTP add-on is disabled'' s)
            else
              (case fetchAddonObjs L E lastVersion lastNS False r of
                 (Panic p, r1) \<Rightarrow> (Panic p, r1, s)
               | (Ret (Inl err), r1) \<Rightarrow>
                   (Ret stopWithNoRequeue, r1,
                    addon_condition L E r1 ''False'' ConditionReasonAddonDeleted (Error err) s)
               | (Ret (Inr objs), r1) \<Rightarrow> delete_known L E lastNS objs r1 s))
         else delete_known L E lastNS (f_AddonObjs r) r s)"

end
