(* ===== verification/Delete_Resources.thy ===== *)
theory Delete_Resources
  imports Addon_States
begin

text \<open>
  \<open>pkg/reconciler/delete_resources.go\<close> and \<open>deleteAddonObjs\<close> of \<open>addon.go\<close>: the deletion of the
  module.  The safe strategy refuses to delete anything while an instance of one of the CRDs of
  the module is on the cluster.
\<close>

section \<open>Leases\<close>

abbreviation kedaOperatorLeaseName :: string where
  "kedaOperatorLeaseName \<equiv> ''operator.keda.sh''"
abbreviation kedaManagerLeaseName :: string where
  "kedaManagerLeaseName \<equiv> ''4123c01c.operator.kyma-project.io''"

definition fixLeaseObject :: "string \<Rightarrow> obj" where
  "fixLeaseObject leaseName =
     fmap_of_list
       [(''kind'', JStr ''Lease''),
        (''apiVersion'', JStr ''coordination.k8s.io/v1''),
        (''metadata'', json_map
          [(''name'', JStr leaseName), (''namespace'', JStr ''kyma-system'')])]"

definition AddLeaseObjs :: "fsm \<Rightarrow> fsm" where
  "AddLeaseObjs r =
     r\<lparr>f_Objs := f_Objs r @ [fixLeaseObject kedaManagerLeaseName, fixLeaseObject kedaOperatorLeaseName]\<rparr>"

section \<open>Custom resource definitions\<close>

definition isCRD :: "k8s_lib \<Rightarrow> obj \<Rightarrow> bool" where
  "isCRD L u \<longleftrightarrow> gvk_Group (GroupVersionKind L u) = ''apiextensions.k8s.io''
     \<and> gvk_Kind (GroupVersionKind L u) = ''CustomResourceDefinition''"

fun stored_version :: "(string \<times> bool) list \<Rightarrow> string" where
  "stored_version [] = []"
| "stored_version ((name, storage) # vs) = (if storage then name else stored_version vs)"

definition getCRDStoredVersion :: "CustomResourceDefinition \<Rightarrow> string" where
  "getCRDStoredVersion crd = stored_version (crd_Versions crd)"

definition buildResourceListFromCRD :: "k8s_lib \<Rightarrow> obj \<Rightarrow> goerror + GVK" where
  "buildResourceListFromCRD L u =
     (case FromCRD L u of
        Inl err \<Rightarrow> Inl err
      | Inr crd \<Rightarrow> Inr \<lparr>gvk_Group = crd_Group crd, gvk_Version = getCRDStoredVersion crd,
                          gvk_Kind = crd_Kind crd\<rparr>)"

definition foundItemsErr :: "k8s_lib \<Rightarrow> nat \<Rightarrow> GVK \<Rightarrow> goerror" where
  "foundItemsErr L n gvk =
     errors_New (''found '' @ nat_string n @ '' items with VersionKind '' @ APIVersionOf L gvk)"

fun checkCRDOrphan_loop :: "k8s_lib \<Rightarrow> env \<Rightarrow> obj list \<Rightarrow> fsm \<Rightarrow> goerror option \<times> fsm" where
  "checkCRDOrphan_loop L E [] r = (None, r)"
| "checkCRDOrphan_loop L E (u # us) r =
     (if \<not> isCRD L u then checkCRDOrphan_loop L E us r
      else (case buildResourceListFromCRD L u of
              Inl err \<Rightarrow> (Some err, r)
            | Inr gvk \<Rightarrow>
                (case client_List E gvk r of
                   ((err, items), r') \<Rightarrow>
                     if IgnoreNotFound err \<noteq> None then (err, r')
                     else if length items > 0 then (Some (foundItemsErr L (length items) gvk), r')
                     else checkCRDOrphan_loop L E us r')))"

definition checkCRDOrphanResources :: "k8s_lib \<Rightarrow> env \<Rightarrow> fsm \<Rightarrow> goerror option \<times> fsm" where
  "checkCRDOrphanResources L E r = checkCRDOrphan_loop L E (f_Objs r) r"

definition checkAddonOrphanResources :: "env \<Rightarrow> fsm \<Rightarrow> goerror option \<times> fsm" where
  "checkAddonOrphanResources E r =
     (if f_AddonObjs r = [] then (None, r)
      else (case httpScaledObjectsInUse E r of
              (Inl err, r') \<Rightarrow> (Some (errorf_w ''cannot verify HTTPScaledObject usage: '' err []), r')
            | (Inr count, r') \<Rightarrow>
                (if count > 0
                 then (Some (errors_New (nat_string count
                    @ '' HTTPScaledObject(s) still exist on the cluster; delete them before uninstalling the Keda module'')), r')
                 else (None, r'))))"

section \<open>Deleting objects\<close>

type_synonym filterFunc = "obj \<Rightarrow> bool"

fun fitToFilters :: "obj \<Rightarrow> filterFunc list \<Rightarrow> bool" where
  "fitToFilters u [] = True"
| "fitToFilters u (fn # fns) = (if \<not> fn u then False else fitToFilters u fns)"

definition withoutCRDFilter :: "k8s_lib \<Rightarrow> filterFunc" where
  "withoutCRDFilter L u \<longleftrightarrow> \<not> isCRD L u"

fun deleteResources :: "env \<Rightarrow> obj list \<Rightarrow> filterFunc list \<Rightarrow> goerror option \<Rightarrow> fsm
    \<Rightarrow> goerror option \<times> fsm" where
  "deleteResources E [] filters deletionErrors r = (deletionErrors, r)"
| "deleteResources E (u # us) filters deletionErrors r =
     (if \<not> fitToFilters u filters then deleteResources E us filters deletionErrors r
      else (case client_Delete E u r of
              (err, r') \<Rightarrow>
                deleteResources E us filters (join_opt deletionErrors (IgnoreNotFound err)) r'))"

definition addon_stub :: "k8s_lib \<Rightarrow> obj \<Rightarrow> obj" where
  "addon_stub L u =
     SetNamespace L (SetName L (SetGroupVersionKind L fmempty (GroupVersionKind L u)) (GetName L u))
       (GetNamespace L u)"

text \<open>The set \<open>namespaces\<close> as the list of its keys in the order of insertion.\<close>

fun deleteAddon_loop :: "k8s_lib \<Rightarrow> env \<Rightarrow> obj list \<Rightarrow> string list \<Rightarrow> goerror option \<Rightarrow> fsm
    \<Rightarrow> string list \<times> goerror option \<times> fsm" where
  "deleteAddon_loop L E [] namespaces delErr r = (namespaces, delErr, r)"
| "deleteAddon_loop L E (u # us) namespaces delErr r =
     (let ns = GetNamespace L u;
          namespaces' = (if ns \<noteq> [] then List.insert ns namespaces else namespaces)
      in case client_Delete E (addon_stub L u) r of
           (err, r') \<Rightarrow>
             deleteAddon_loop L E us namespaces' (join_opt delErr (IgnoreNotFound err)) r')"

fun deletePeers_loop :: "env \<Rightarrow> string list \<Rightarrow> goerror option \<Rightarrow> fsm \<Rightarrow> goerror option \<times> fsm" where
  "deletePeers_loop E [] delErr r = (delErr, r)"
| "deletePeers_loop E (ns # nss) delErr r =
     (case deletePeerAuthentication E ns r of
        (err, r') \<Rightarrow> deletePeers_loop E nss (join_opt delErr err) r')"

definition deleteAddonObjs :: "k8s_lib \<Rightarrow> env \<Rightarrow> fsm \<Rightarrow> goerror option \<times> fsm" where
  "deleteAddonObjs L E r =
     (case deleteAddon_loop L E (f_AddonObjs r) [DefaultAddonNamespace] None r of
        (namespaces, delErr, r') \<Rightarrow> deletePeers_loop E (e_map_order E namespaces) delErr r')"

section \<open>The states\<close>

definition isKedaDeleting :: "k8s_lib \<Rightarrow> systemState \<Rightarrow> bool" where
  "isKedaDeleting L s \<longleftrightarrow>
     FindStatusCondition L (st_Conditions (k_Status (s_instance s))) ConditionTypeDeleted \<noteq> None"

definition deleteResourcesWithFilter ::
  "k8s_lib \<Rightarrow> env \<Rightarrow> filterFunc list \<Rightarrow> fsm \<Rightarrow> systemState \<Rightarrow> outcome" where
  "deleteResourcesWithFilter L E filters r s =
     (case deleteAddonObjs L E (AddLeaseObjs r) of
        (Some err, r1) \<Rightarrow>
          (Ret (stopWithErrorAndNoRequeue (Some err)), r1,
           set_instance (UpdateStateFromErr L (e_now E (f_hist r1)) ConditionTypeDeleted
             ConditionReasonDeletionErr err (s_instance s)) s)
      | (None, r1) \<Rightarrow>
          (case deleteResources E (f_Objs r1) filters None r1 of
             (Some err, r2) \<Rightarrow>
               (Ret (stopWithErrorAndNoRequeue (Some err)), r2,
                set_instance (UpdateStateFromErr L (e_now E (f_hist r2)) ConditionTypeDeleted
                  ConditionReasonDeletionErr err (s_instance s)) s)
           | (None, r2) \<Rightarrow>
               (case FindStatusCondition L (st_Conditions (k_Status (s_instance s)))
                       ConditionTypeDeleted of
                  None \<Rightarrow> (Ret (switchState SFnRemoveFinalizer), r2, s)
                | Some condition \<Rightarrow>
                    (if cond_Status condition = ''True''
                     then (Ret (switchState SFnRemoveFinalizer), r2, s)
                     else (Ret stopWithRequeue, r2,
                           set_instance (UpdateStateDeletionTrue L (e_now E (f_hist r2))
                             ConditionTypeDeleted ConditionReasonDeleted ''Keda module deleted''
                             (s_instance s)) s)))))"

definition sFnCascadeDeletionState :: "k8s_lib \<Rightarrow> env \<Rightarrow> fsm \<Rightarrow> systemState \<Rightarrow> outcome" where
  "sFnCascadeDeletionState L E r s = deleteResourcesWithFilter L E [] r s"

definition sFnUpstreamDeletionState :: "k8s_lib \<Rightarrow> env \<Rightarrow> fsm \<Rightarrow> systemState \<Rightarrow> outcome" where
  "sFnUpstreamDeletionState L E r s = deleteResourcesWithFilter L E [withoutCRDFilter L] r s"

definition sFnSafeDeletionState :: "k8s_lib \<Rightarrow> env \<Rightarrow> fsm \<Rightarrow> systemState \<Rightarrow> outcome" where
  "sFnSafeDeletionState L E r s =
     (case checkAddonOrphanResources E r of
        (Some err, r1) \<Rightarrow>
          (Ret (stopWithErrorAndNoRequeue (Some err)), r1,
           set_instance (UpdateStateFromWarning L (e_now E (f_hist r1)) ConditionTypeDeleted
             ConditionReasonAddonInUse err (s_instance s)) s)
      | (None, r1) \<Rightarrow>
          (case checkCRDOrphanResources L E r1 of
             (Some err, r2) \<Rightarrow>
               (Ret (stopWithErrorAndNoRequeue (Some err)), r2,
                set_instance (UpdateStateFromWarning L (e_now E (f_hist r2)) ConditionTypeDeleted
                  ConditionReasonDeletionErr err (s_instance s)) s)
           | (None, r2) \<Rightarrow> deleteResourcesWithFilter L E [] r2 s))"

datatype deletionStrategy =
    cascadeDeletionStrategy
  | safeDeletionStrategy
  | upstreamDeletionStrategy
  | otherDeletionStrategy string

fun deletionStrategyBuilder :: "deletionStrategy \<Rightarrow> stateFn" where
  "deletionStrategyBuilder cascadeDeletionStrategy = SFnCascadeDeletionState"
| "deletionStrategyBuilder upstreamDeletionStrategy = SFnUpstreamDeletionState"
| "deletionStrategyBuilder safeDeletionStrategy = SFnSafeDeletionState"
| "deletionStrategyBuilder (otherDeletionStrategy x) = SFnSafeDeletionState"

definition defaultDeletionStrategy :: deletionStrategy where
  "defaultDeletionStrategy = safeDeletionStrategy"

definition sFnDeleteResources :: "k8s_lib \<Rightarrow> env \<Rightarrow> fsm \<Rightarrow> systemState \<Rightarrow> outcome" where
  "sFnDeleteResources L E r s =
     (if \<not> isKedaDeleting L s then
        (Ret stopWithRequeue, r,
         set_instance (UpdateStateDeletion L (e_now E (f_hist r)) ConditionTypeDeleted
           ConditionReasonDeletion ''deletion in progress'' (s_instance s)) s)
      else (Ret (switchState (deletionStrategyBuilder defaultDeletionStrategy)), r, s))"

end
