(* ===== verification/Fsm.thy ===== *)
theory Fsm
  imports Update_Objects Apply_Verify Addon_States Delete_Resources
begin

text \<open>
  The state machine of \<open>pkg/reconciler/fsm.go\<close>: \<open>exec\<close> runs one state function, \<open>Run\<close> is the loop
  of \<open>fsm.Run\<close>.  The locale \<open>machine\<close> is the contract of such a loop: every step goes to a state of
  smaller rank, so the loop ends, and an invariant of the steps holds at its end.  It is
  interpreted on \<open>exec\<close>, \<open>rank\<close> and \<open>run_loop\<close>.
\<close>

section \<open>One step\<close>

fun exec :: "k8s_lib \<Rightarrow> env \<Rightarrow> stateFn \<Rightarrow> fsm \<Rightarrow> systemState \<Rightarrow> outcome" where
  "exec L E SFnServedFilter r s = sFnServedFilter L E r s"
| "exec L E SFnTakeSnapshot r s = sFnTakeSnapshot r s"
| "exec L E SFnInitialize r s = sFnInitialize L E r s"
| "exec L E SFnBootstrapperValidation r s = sFnBootstrapperValidation L E r s"
| "exec L E SFnUpdateKedaDeployment r s = sFnUpdateKedaDeployment L E r s"
| "exec L E SFnUpdateMetricsServerDeployment r s = sFnUpdateMetricsServerDeployment L E r s"
| "exec L E SFnUpdateAdmissionWebhooksDeployment r s = sFnUpdateAdmissionWebhooksDeployment L E r s"
| "exec L E SFnUpdateAdmissionWebhooksNetworkPolicy r s = sfnUpdateAdmissionWebhooksNetworkPolicy L E r s"
| "exec L E (SFnUpdateObject u upd next) r s = sFnUpdateObject u upd next L E r s"
| "exec L E SFnApply r s = sFnApply L E r s"
| "exec L E SFnVerify r s = sFnVerify L E r s"
| "exec L E SFnHandleAddon r s = sFnHandleAddon r s"
| "exec L E SFnGuardAddonInUse r s = sFnGuardAddonInUse L E r s"
| "exec L E SFnApplyAddon r s = sFnApplyAddon L E r s"
| "exec L E SFnDeleteAddon r s = sFnDeleteAddon L E r s"
| "exec L E SFnDeleteResources r s = sFnDeleteResources L E r s"
| "exec L E SFnCascadeDeletionState r s = sFnCascadeDeletionState L E r s"
| "exec L E SFnUpstreamDeletionState r s = sFnUpstreamDeletionState L E r s"
| "exec L E SFnSafeDeletionState r s = sFnSafeDeletionState L E r s"
| "exec L E SFnRemoveFinalizer r s = sFnRemoveFinalizer L E r s"
| "exec L E (SFnUpdateStatus result err) r s = sFnUpdateStatus result err E r s"
| "exec L E (SFnEmitEventfunc next result err) r s = sFnEmitEventfunc next result err L r s"

text \<open>
  The rank of a state: the most steps a run can still take, this one included.  The longest run
  goes through every state of the installation with the add-on disabled.
\<close>

fun rank :: "stateFn \<Rightarrow> nat" where
  "rank (SFnEmitEventfunc next result err) = (case next of None \<Rightarrow> 1 | Some fn \<Rightarrow> Suc (rank fn))"
| "rank (SFnUpdateStatus result err) = 2"
| "rank SFnRemoveFinalizer = 1"
| "rank SFnDeleteAddon = 3"
| "rank SFnApplyAddon = 3"
| "rank SFnGuardAddonInUse = 4"
| "rank SFnHandleAddon = 5"
| "rank SFnVerify = 6"
| "rank SFnApply = 7"
| "rank (SFnUpdateObject u upd next) = Suc (max 2 (rank next))"
| "rank SFnUpdateAdmissionWebhooksNetworkPolicy = 9"
| "rank SFnUpdateAdmissionWebhooksDeployment = 15"
| "rank SFnUpdateMetricsServerDeployment = 22"
| "rank SFnUpdateKedaDeployment = 29"
| "rank SFnBootstrapperValidation = 30"
| "rank SFnCascadeDeletionState = 3"
| "rank SFnUpstreamDeletionState = 3"
| "rank SFnSafeDeletionState = 3"
| "rank SFnDeleteResources = 4"
| "rank SFnInitialize = 31"
| "rank SFnTakeSnapshot = 32"
| "rank SFnServedFilter = 33"

section \<open>Every step lowers the rank\<close>

definition lowers :: "nat \<Rightarrow> outcome \<Rightarrow> bool" where
  "lowers n out \<longleftrightarrow>
     (case out of
        (Ret (Some fn, result, err), r, s) \<Rightarrow> rank fn < n
      | _ \<Rightarrow> True)"

lemma lowers_simps [simp]:
  "lowers n (Panic p, rs)"
  "lowers n (Ret (None, result, err), rs)"
  "lowers n (Ret (Some fn, result, err), rs) \<longleftrightarrow> rank fn < n"
  "lowers n (Ret (switchState fn), rs) \<longleftrightarrow> rank fn < n"
  "lowers n (Ret stopWithNoRequeue, rs) \<longleftrightarrow> 2 < n"
  "lowers n (Ret stopWithRequeue, rs) \<longleftrightarrow> 2 < n"
  "lowers n (Ret (stopWithRequeueAfter d), rs) \<longleftrightarrow> 2 < n"
  "lowers n (Ret (stopWithErrorAndNoRequeue e), rs) \<longleftrightarrow> 2 < n"
  by (cases rs; simp add: lowers_def stop_defs)+

lemmas step_splits = sum.splits go.splits option.splits prod.splits if_splits

lemma lowers_updates:
  "lowers 29 (sFnUpdateKedaDeployment L E r s)"
  "lowers 22 (sFnUpdateMetricsServerDeployment L E r s)"
  "lowers 15 (sFnUpdateAdmissionWebhooksDeployment L E r s)"
  "lowers 9 (sfnUpdateAdmissionWebhooksNetworkPolicy L E r s)"
  "lowers (Suc (max 2 (rank fn))) (sFnUpdateObject u upd fn L E r s)"
  by (simp_all add: sFnUpdateKedaDeployment_def sFnUpdateMetricsServerDeployment_def
      sFnUpdateAdmissionWebhooksDeployment_def sfnUpdateAdmissionWebhooksNetworkPolicy_def
      sFnUpdateObject_def build_defs Let_def less_Suc_eq_le less_max_iff_disj split: step_splits)

lemma lowers_basic:
  "lowers 33 (sFnServedFilter L E r s)" "lowers 32 (sFnTakeSnapshot r s)"
  "lowers 31 (sFnInitialize L E r s)" "lowers 30 (sFnBootstrapperValidation L E r s)"
  "lowers 7 (sFnApply L E r s)" "lowers 6 (sFnVerify L E r s)"
  "lowers (Suc 0) (sFnRemoveFinalizer L E r s)" "lowers 2 (sFnUpdateStatus result err E r s)"
  "lowers (rank (SFnEmitEventfunc nx result err)) (sFnEmitEventfunc nx result err L r s)"
  by (simp_all add: sFnServedFilter_def sFnTakeSnapshot_def sFnInitialize_def
      sFnBootstrapperValidation_def sFnApply_def sFnVerify_def sFnRemoveFinalizer_def
      sFnUpdateStatus_def sFnEmitEventfunc_def Let_def split: step_splits)

lemma lowers_fetched: "lowers 3 (apply_fetched L E cfg v ns objs r s)"
  by (simp add: apply_fetched_def Let_def split: prod.split option.split)

lemma lowers_known: "lowers 3 (delete_known L E ns objs r s)"
  by (simp add: delete_known_def Let_def split: prod.split option.split)

lemma lowers_addon:
  "lowers 5 (sFnHandleAddon r s)" "lowers 4 (sFnGuardAddonInUse L E r s)"
  "lowers 3 (sFnApplyAddon L E r s)" "lowers 3 (sFnDeleteAddon L E r s)"
  by (simp_all add: sFnHandleAddon_def sFnGuardAddonInUse_def sFnApplyAddon_def sFnDeleteAddon_def
      lowers_fetched lowers_known Let_def split: prod.split option.split go.split sum.split)

lemma lowers_delete:
  "lowers 4 (sFnDeleteResources L E r s)" "lowers 3 (sFnSafeDeletionState L E r s)"
  "lowers 3 (sFnCascadeDeletionState L E r s)" "lowers 3 (sFnUpstreamDeletionState L E r s)"
  by (simp_all add: sFnDeleteResources_def sFnSafeDeletionState_def sFnCascadeDeletionState_def
      sFnUpstreamDeletionState_def deleteResourcesWithFilter_def defaultDeletionStrategy_def
      split: step_splits)

lemma exec_lowers: "lowers (rank fn) (exec L E fn r s)"
  by (cases fn) (simp_all add: lowers_basic lowers_updates lowers_addon lowers_delete
      del: rank.simps(1))

lemma exec_rank:
  "exec L E fn r s = (Ret (Some fn', result, err), r', s') \<Longrightarrow> rank fn' < rank fn"
  using exec_lowers [of fn L E r s] by simp

section \<open>The loop\<close>

type_synonym run_result = "(Result option \<times> goerror option) go \<times> fsm \<times> systemState"

definition fn_rank :: "stateFn option \<Rightarrow> nat" where
  "fn_rank fn = (case fn of None \<Rightarrow> 0 | Some f \<Rightarrow> Suc (rank f))"

function run_loop :: "k8s_lib \<Rightarrow> env \<Rightarrow> nat \<Rightarrow> stateFn option \<Rightarrow> Result option \<Rightarrow> fsm \<Rightarrow> systemState
    \<Rightarrow> run_result" where
  "run_loop L E n None result r s = (Ret (result, None), r, s)"
| "run_loop L E n (Some fn) result r s =
     (case e_ctx_err E n (f_hist r) of
        Some err \<Rightarrow> (Ret (result, Some err), r, s)
      | None \<Rightarrow>
          (case exec L E fn r s of
             (Panic p, r', s') \<Rightarrow> (Panic p, r', s')
           | (Ret (fn', result', Some err), r', s') \<Rightarrow> (Ret (result', Some err), r', s')
           | (Ret (fn', result', None), r', s') \<Rightarrow> run_loop L E (Suc n) fn' result' r' s'))"
  by pat_completeness auto
termination
  by (relation "measure (\<lambda>(L, E, n, fn, result, r, s). fn_rank fn)")
     (auto simp: fn_rank_def dest!: exec_rank [OF sym] split: option.splits)

definition init_state :: "Keda \<Rightarrow> systemState" where
  "init_state v = \<lparr>s_instance = v, s_objs = [], s_snapshot = zero_Status\<rparr>"

text \<open>\<open>Run\<close> of a machine made by \<open>NewFsm\<close>, whose first state is the served filter.\<close>

definition Run :: "k8s_lib \<Rightarrow> env \<Rightarrow> fsm \<Rightarrow> Keda \<Rightarrow> (Result \<times> goerror option) go \<times> fsm \<times> systemState" where
  "Run L E r v =
     (case run_loop L E 0 (Some SFnServedFilter) None r (init_state v) of
        (Panic p, r', s') \<Rightarrow> (Panic p, r', s')
      | (Ret (result, err), r', s') \<Rightarrow>
          (Ret (case result of Some x \<Rightarrow> x | None \<Rightarrow> \<lparr>r_Requeue = False, r_RequeueAfter = 0\<rparr>, err),
           r', s'))"

section \<open>The contract of the loop\<close>

text \<open>
  \<open>I\<close> holds of every state the loop is in, \<open>Q\<close> of its outcome: \<open>loop_rule\<close> reduces a property of a
  run to one of each step.
\<close>

locale machine =
  fixes ex :: "'f \<Rightarrow> 'r \<Rightarrow> 's \<Rightarrow> ('f option \<times> 'x \<times> 'e option) go \<times> 'r \<times> 's"
    and ctx :: "nat \<Rightarrow> 'r \<Rightarrow> 'e option"
    and rk :: "'f \<Rightarrow> nat"
    and loop :: "nat \<Rightarrow> 'f option \<Rightarrow> 'x \<Rightarrow> 'r \<Rightarrow> 's \<Rightarrow> ('x \<times> 'e option) go \<times> 'r \<times> 's"
  assumes rank_step: "ex f r s = (Ret (Some f', x, e), r', s') \<Longrightarrow> rk f' < rk f"
    and loop_None: "loop n None x r s = (Ret (x, None), r, s)"
    and loop_Some: "loop n (Some f) x r s =
      (case ctx n r of
         Some e \<Rightarrow> (Ret (x, Some e), r, s)
       | None \<Rightarrow>
           (case ex f r s of
              (Panic p, r', s') \<Rightarrow> (Panic p, r', s')
            | (Ret (f', x', Some e), r', s') \<Rightarrow> (Ret (x', Some e), r', s')
            | (Ret (f', x', None), r', s') \<Rightarrow> loop (Suc n) f' x' r' s'))"
begin

definition opt_rank :: "'f option \<Rightarrow> nat" where
  "opt_rank f = (case f of None \<Rightarrow> 0 | Some g \<Rightarrow> Suc (rk g))"

lemma loop_rule:
  assumes "loop n f x r s = (out, r', s')" "I f x r s"
    and stop: "\<And>x r s. I None x r s \<Longrightarrow> Q (Ret (x, None)) r s"
    and cancel: "\<And>f x r s e. I (Some f) x r s \<Longrightarrow> Q (Ret (x, Some e)) r s"
    and panic: "\<And>f x r s p r' s'. I (Some f) x r s \<Longrightarrow> ex f r s = (Panic p, r', s') \<Longrightarrow>
      Q (Panic p) r' s'"
    and fail: "\<And>f x r s f' x' e r' s'. I (Some f) x r s \<Longrightarrow>
      ex f r s = (Ret (f', x', Some e), r', s') \<Longrightarrow> Q (Ret (x', Some e)) r' s'"
    and step: "\<And>f x r s f' x' r' s'. I (Some f) x r s \<Longrightarrow>
      ex f r s = (Ret (f', x', None), r', s') \<Longrightarrow> I f' x' r' s'"
  shows "Q out r' s'"
  using assms(1,2)
proof (induction "opt_rank f" arbitrary: n f x r s rule: less_induct)
  case less
  show ?case
  proof (cases f)
    case None
    with less.prems stop show ?thesis by (auto simp: loop_None)
  next
    case (Some g)
    show ?thesis
    proof (cases "ctx n r")
      case (Some e)
      with less.prems \<open>f = Some g\<close> cancel show ?thesis by (auto simp: loop_Some)
    next
      case None
      obtain y r1 s1 where e: "ex g r s = (y, r1, s1)" by (cases "ex g r s") auto
      show ?thesis
      proof (cases y)
        case (Panic p)
        with less.prems Some None e show ?thesis by (auto simp: loop_Some intro: panic)
      next
        case (Ret z)
        obtain f' x' err where z: "z = (f', x', err)" by (cases z) auto
        show ?thesis
        proof (cases err)
          case (Some er)
          with less.prems \<open>f = Some g\<close> None e Ret z show ?thesis by (auto simp: loop_Some intro: fail)
        next
          case None
          then have "ex g r s = (Ret (f', x', None), r1, s1)" using e Ret z by simp
          moreover from this have "opt_rank f' < opt_rank f"
            using Some rank_step by (auto simp: opt_rank_def split: option.split)
          moreover have "loop (Suc n) f' x' r1 s1 = (out, r', s')"
            using less.prems(1) Some \<open>ctx n r = None\<close> calculation(1) by (simp add: loop_Some)
          ultimately show ?thesis using less.hyps less.prems(2) Some step by blast
        qed
      qed
    qed
  qed
qed

end

interpretation fsm_loop: machine "exec L E" "\<lambda>n r. e_ctx_err E n (f_hist r)" rank "run_loop L E" for L E
  by unfold_locales (auto dest: exec_rank)

section \<open>The loop with a budget\<close>

text \<open>
  The same loop that may execute at most \<open>k\<close> state functions and gives up when it would need another one.
  A budget of the rank of the first state is enough, and then the outcome is that of the loop.
\<close>

fun run_for :: "k8s_lib \<Rightarrow> env \<Rightarrow> nat \<Rightarrow> nat \<Rightarrow> stateFn option \<Rightarrow> Result option \<Rightarrow> fsm \<Rightarrow> systemState
    \<Rightarrow> run_result option" where
  "run_for L E k n None result r s = Some (Ret (result, None), r, s)"
| "run_for L E 0 n (Some fn) result r s = None"
| "run_for L E (Suc k) n (Some fn) result r s =
     (case e_ctx_err E n (f_hist r) of
        Some err \<Rightarrow> Some (Ret (result, Some err), r, s)
      | None \<Rightarrow>
          (case exec L E fn r s of
             (Panic p, r', s') \<Rightarrow> Some (Panic p, r', s')
           | (Ret (fn', result', Some err), r', s') \<Rightarrow> Some (Ret (result', Some err), r', s')
           | (Ret (fn', result', None), r', s') \<Rightarrow> run_for L E k (Suc n) fn' result' r' s'))"

lemma rank_pos: "0 < rank fn"
  by (cases fn) (simp_all split: option.split)

lemma run_for_enough: "rank fn \<le> k \<Longrightarrow> run_for L E k n (Some fn) x r s = Some (run_loop L E n (Some fn) x r s)"
proof (induction k arbitrary: n fn x r s)
  case 0
  then show ?case using rank_pos [of fn] by simp
next
  case (Suc k)
  obtain y r' s' where e: "exec L E fn r s = (y, r', s')" by (metis prod_cases3)
  have "run_for L E k n' f z r' s' = Some (run_loop L E n' f z r' s')" if "y = Ret (f, z, None)" for f z n'
  proof (cases f)
    case (Some g)
    have "exec L E fn r s = (Ret (Some g, z, None), r', s')" using e that Some by simp
    then have "rank g < rank fn" by (rule exec_rank)
    with Suc.prems Suc.IH Some show ?thesis by simp
  qed simp
  with e show ?case by (auto split: option.split go.split prod.split)
qed

end
