(* ===== verification/Effects.thy ===== *)
theory Effects
  imports Fsm
begin

text \<open>
  Which calls each state function makes, and what it leaves of the machine: the requests of
  \<open>exec\<close> on a state are \<open>allowed\<close> for it, the finalizer and the API server address never change, and
  the objects keep their number except that deletion adds the two leases.  Every invariant of a
  run rests on these lemmas.
\<close>

section \<open>The calls of a state\<close>

fun allowed :: "stateFn \<Rightarrow> request \<Rightarrow> bool" where
  "allowed SFnServedFilter q \<longleftrightarrow> q = ReqListKedas"
| "allowed SFnInitialize q \<longleftrightarrow> is_ReqUpdate q"
| "allowed SFnApply q \<longleftrightarrow> is_ReqPatch q"
| "allowed SFnGuardAddonInUse q \<longleftrightarrow> q = ReqList httpScaledObjectGVK"
| "allowed SFnApplyAddon q \<longleftrightarrow>
     (case q of ReqCreateNamespace n \<Rightarrow> True | ReqPatch u \<Rightarrow> True | ReqDelete u \<Rightarrow> True
      | ReqHTTPGet u \<Rightarrow> True | ReqUpdate k \<Rightarrow> True | _ \<Rightarrow> False)"
| "allowed SFnDeleteAddon q \<longleftrightarrow>
     (case q of ReqDelete u \<Rightarrow> True | ReqHTTPGet u \<Rightarrow> True | ReqUpdate k \<Rightarrow> True | _ \<Rightarrow> False)"
| "allowed SFnCascadeDeletionState q \<longleftrightarrow> is_ReqDelete q"
| "allowed SFnUpstreamDeletionState q \<longleftrightarrow> is_ReqDelete q"
| "allowed SFnSafeDeletionState q \<longleftrightarrow>
     (case q of ReqDelete u \<Rightarrow> True | ReqList g \<Rightarrow> True | _ \<Rightarrow> False)"
| "allowed SFnRemoveFinalizer q \<longleftrightarrow> is_ReqUpdate q"
| "allowed (SFnUpdateStatus result err) q \<longleftrightarrow> is_ReqStatusUpdate q"
| "allowed (SFnEmitEventfunc next result err) q \<longleftrightarrow> is_ReqEvent q"
| "allowed _ q \<longleftrightarrow> False"

text \<open>What the machine keeps between two states.\<close>

definition kept :: "fsm \<Rightarrow> fsm \<Rightarrow> bool" where
  "kept r r' \<longleftrightarrow> f_Finalizer r' = f_Finalizer r \<and> f_APIServerIP r' = f_APIServerIP r
     \<and> length (f_Objs r) \<le> length (f_Objs r')"

lemma kept_refl [simp, intro]: "kept r r"
  by (simp add: kept_def)

lemma kept_log_req [simp]: "kept r (log_req q r)"
  by (simp add: kept_def)

lemma kept_trans: "kept r r' \<Longrightarrow> kept r' r'' \<Longrightarrow> kept r r''"
  by (auto simp: kept_def)

text \<open>Both facts together, for the outcome of any function that ends in a machine.\<close>

definition effect :: "(request \<Rightarrow> bool) \<Rightarrow> fsm \<Rightarrow> fsm \<Rightarrow> bool" where
  "effect P r r' \<longleftrightarrow> hist_ext P r r' \<and> kept r r'"

lemma effect_refl [simp, intro]: "effect P r r"
  by (simp add: effect_def)

lemma effect_log_req [simp]: "P q \<Longrightarrow> effect P r (log_req q r)"
  by (simp add: effect_def)

lemma effect_trans: "effect P r r' \<Longrightarrow> effect P r' r'' \<Longrightarrow> effect P r r''"
  by (auto simp: effect_def intro: hist_ext_trans kept_trans)

lemma effect_mono: "effect P r r' \<Longrightarrow> (\<And>q. P q \<Longrightarrow> Q q) \<Longrightarrow> effect Q r r'"
  by (auto simp: effect_def intro: hist_ext_mono)

lemma effect_log_trans: "P q \<Longrightarrow> effect P (log_req q r) r' \<Longrightarrow> effect P r r'"
  by (rule effect_trans [OF effect_log_req])

lemma effect_set_obj [simp]: "effect P r (r\<lparr>f_Objs := (f_Objs r)[i := u]\<rparr>)"
  by (simp add: effect_def kept_def)

lemma effect_AddonObjs [simp]: "effect P r (r'\<lparr>f_AddonObjs := us\<rparr>) = effect P r r'"
  by (simp add: effect_def kept_def hist_ext_def)

section \<open>The calls of the helpers\<close>

lemma effect_client:
  "client_Update E r s = (e, r', s') \<Longrightarrow> effect is_ReqUpdate r r'"
  "client_Patch E u r = (e, u', r') \<Longrightarrow> effect is_ReqPatch r r'"
  "client_Delete E u r = (e, r') \<Longrightarrow> effect is_ReqDelete r r'"
  "client_List E g r = (x, r') \<Longrightarrow> effect (\<lambda>q. q = ReqList g) r r'"
  by (auto simp: client_Update_def client_Patch_def client_Delete_def client_List_def
      split: prod.splits)

fun is_ReqHTTPGet :: "request \<Rightarrow> bool" where
  "is_ReqHTTPGet (ReqHTTPGet u) = True"
| "is_ReqHTTPGet _ = False"

lemma effect_FetchResources: "FetchResources L E v r = (x, r') \<Longrightarrow> effect is_ReqHTTPGet r r'"
  using FetchResources_r [of L E v r x r'] by (auto simp: effect_def hist_ext_def kept_def)

lemma effect_fetchAddonObjs: "fetchAddonObjs L E v ns i r = (x, r') \<Longrightarrow> effect is_ReqHTTPGet r r'"
  by (auto simp: fetchAddonObjs_def split: sum.splits prod.splits dest: effect_FetchResources)

lemma effect_deletePeerAuthentication:
  "deletePeerAuthentication E ns r = (x, r') \<Longrightarrow> effect is_ReqDelete r r'"
  by (auto simp: deletePeerAuthentication_def split: prod.splits if_splits dest: effect_client(3))

lemma effect_deleteObjects_loop:
  "deleteObjects_loop E us e r = (x, r') \<Longrightarrow> effect is_ReqDelete r r'"
  by (induction us arbitrary: e r)
     (auto split: prod.splits dest!: effect_client(3) intro: effect_trans)

lemma effect_deleteObjects: "deleteObjects E us r = (x, r') \<Longrightarrow> effect is_ReqDelete r r'"
  unfolding deleteObjects_def by (rule effect_deleteObjects_loop)

lemma effect_applyObjects_loop:
  "applyObjects_loop E us e r = (x, us', r') \<Longrightarrow> effect is_ReqPatch r r'"
  by (induction us arbitrary: e r us')
     (auto split: prod.splits dest!: effect_client(2) intro: effect_trans)

lemma effect_applyObjects: "applyObjects E us r = (x, us', r') \<Longrightarrow> effect is_ReqPatch r r'"
  unfolding applyObjects_def by (rule effect_applyObjects_loop)

lemma effect_ensureNamespace:
  "ensureNamespace E ns r = (x, r') \<Longrightarrow> effect (\<lambda>q. q = ReqCreateNamespace ns) r r'"
  by (auto simp: ensureNamespace_def Let_def split: option.splits if_splits)

lemma effect_httpScaledObjectsInUse:
  "httpScaledObjectsInUse E r = (x, r') \<Longrightarrow> effect (\<lambda>q. q = ReqList httpScaledObjectGVK) r r'"
  by (auto simp: httpScaledObjectsInUse_def split: prod.splits option.splits if_splits
      dest: effect_client(4))

abbreviation "get_or_delete \<equiv> \<lambda>q. is_ReqHTTPGet q \<or> is_ReqDelete q"

lemma effect_cleanupOldAddon:
  assumes "cleanupOldAddon L E v ns r = (x, r')"
  shows "effect get_or_delete r r'"
proof -
  obtain y r1 where f: "fetchAddonObjs L E v ns False r = (y, r1)" by fastforce
  have 1: "effect get_or_delete r r1"
    using effect_fetchAddonObjs [OF f] by (rule effect_mono) simp
  show ?thesis
  proof (cases "\<exists>objs. y = Ret (Inr objs)")
    case True
    then obtain objs where y: "y = Ret (Inr objs)" by blast
    obtain d r2 where d: "deleteObjects E objs r1 = (d, r2)" by fastforce
    obtain e r3 where e: "deletePeerAuthentication E ns r2 = (e, r3)" by fastforce
    have "effect is_ReqDelete r1 r3"
      using effect_deleteObjects [OF d] effect_deletePeerAuthentication [OF e] by (rule effect_trans)
    then have "effect get_or_delete r1 r3" by (rule effect_mono) simp
    with 1 have "effect get_or_delete r r3" by (rule effect_trans)
    then show ?thesis using assms f y d e by (simp add: cleanupOldAddon_def)
  next
    case False
    with assms f 1 show ?thesis
      by (auto simp: cleanupOldAddon_def split: go.splits sum.splits)
  qed
qed

lemma effect_cleanup_previous:
  "cleanup_previous L E pv pns v ns r = (x, r') \<Longrightarrow> effect get_or_delete r r'"
  by (auto simp: cleanup_previous_def split: if_splits dest: effect_cleanupOldAddon)

lemma effect_persist_annotations:
  "persist_annotations E r s = (r', s') \<Longrightarrow> effect is_ReqUpdate r r'"
  by (auto simp: persist_annotations_def Let_def split: prod.splits dest: effect_client(1))

lemma effect_checkCRDOrphan_loop:
  "checkCRDOrphan_loop L E us r = (x, r') \<Longrightarrow> effect (\<lambda>q. \<exists>g. q = ReqList g) r r'"
proof (induction us arbitrary: r)
  case (Cons u us)
  show ?case
  proof (cases "isCRD L u")
    case True
    show ?thesis
    proof (cases "buildResourceListFromCRD L u")
      case (Inl e)
      with True Cons.prems show ?thesis by simp
    next
      case (Inr g)
      have "r' = log_req (ReqList g) r \<or> checkCRDOrphan_loop L E us (log_req (ReqList g) r) = (x, r')"
        using True Inr Cons.prems by (auto simp: client_List_def split: prod.splits if_splits)
      then show ?thesis
      proof
        assume "checkCRDOrphan_loop L E us (log_req (ReqList g) r) = (x, r')"
        from Cons.IH [OF this] show ?thesis by (rule effect_log_trans [rotated]) simp
      qed simp
    qed
  next
    case False
    with Cons show ?thesis by simp
  qed
qed simp

lemma effect_deleteResources:
  "deleteResources E us fs e r = (x, r') \<Longrightarrow> effect is_ReqDelete r r'"
  by (induction us arbitrary: e r)
     (auto split: prod.splits if_splits dest!: effect_client(3) intro: effect_trans)

lemma effect_deleteAddon_loop:
  "deleteAddon_loop L E us nss e r = (nss', x, r') \<Longrightarrow> effect is_ReqDelete r r'"
  by (induction us arbitrary: nss e r)
     (auto simp: Let_def split: prod.splits dest!: effect_client(3) intro: effect_trans)

lemma effect_deletePeers_loop:
  "deletePeers_loop E nss e r = (x, r') \<Longrightarrow> effect is_ReqDelete r r'"
  by (induction nss arbitrary: e r)
     (auto split: prod.splits dest!: effect_deletePeerAuthentication intro: effect_trans)

lemma effect_deleteAddonObjs: "deleteAddonObjs L E r = (x, r') \<Longrightarrow> effect is_ReqDelete r r'"
  by (auto simp: deleteAddonObjs_def split: prod.splits
      dest!: effect_deleteAddon_loop effect_deletePeers_loop intro: effect_trans)

lemma effect_AddLeaseObjs: "effect P r (AddLeaseObjs r)"
  by (simp add: AddLeaseObjs_def effect_def kept_def)

lemma effect_emit_loop: "effect is_ReqEvent r (emit_loop L snap cs r)"
proof (induction cs arbitrary: r)
  case (Cons c cs)
  show ?case
  proof (cases "unchanged L snap c")
    case False
    have "effect is_ReqEvent r (emit_loop L snap cs
        (log_req (ReqEvent (eventType c) (cond_Reason c) (cond_Message c)) r))"
      by (rule effect_log_trans [OF _ Cons.IH]) simp
    with False show ?thesis by simp
  qed (simp add: Cons.IH)
qed simp

lemma effect_apply_loop: "apply_loop L E i us b r s = (x, r', s') \<Longrightarrow> effect is_ReqPatch r r'"
proof (induction us arbitrary: i b r s)
  case (Cons u us)
  have 1: "effect is_ReqPatch r (set_obj i v r)" for v by (simp add: set_obj_def)
  with Cons show ?case
    by (auto simp: Let_def split: go.splits prod.splits dest!: effect_client(2))
       (metis effect_trans)
qed simp

lemma apply_loop_instance:
  "apply_loop L E i us b r s = (x, r', s') \<Longrightarrow> s_instance s' = s_instance s"
  by (induction us arbitrary: i b r s) (auto simp: Let_def split: go.splits prod.splits)

section \<open>The calls of the states\<close>

definition does :: "stateFn \<Rightarrow> fsm \<Rightarrow> outcome \<Rightarrow> bool" where
  "does fn r out \<longleftrightarrow> effect (allowed fn) r (fst (snd out))"

lemma does_simps [simp]: "does fn r (y, r', s') \<longleftrightarrow> effect (allowed fn) r r'"
  by (simp add: does_def)

lemma does_basic:
  "does SFnServedFilter r (sFnServedFilter L E r s)" "does SFnTakeSnapshot r (sFnTakeSnapshot r s)"
  "does SFnInitialize r (sFnInitialize L E r s)"
  "does SFnBootstrapperValidation r (sFnBootstrapperValidation L E r s)"
  "does SFnVerify r (sFnVerify L E r s)" "does SFnHandleAddon r (sFnHandleAddon r s)"
  "does SFnDeleteResources r (sFnDeleteResources L E r s)"
  "does (SFnUpdateStatus result err) r (sFnUpdateStatus result err E r s)"
  "does SFnRemoveFinalizer r (sFnRemoveFinalizer L E r s)"
  by (auto simp: sFnServedFilter_def findServedKeda_def sFnTakeSnapshot_def sFnInitialize_def
      sFnBootstrapperValidation_def sFnVerify_def sFnHandleAddon_def sFnDeleteResources_def
      sFnUpdateStatus_def sFnRemoveFinalizer_def client_Update_def Let_def split: step_splits)

lemma does_updates:
  "does SFnUpdateKedaDeployment r (sFnUpdateKedaDeployment L E r s)"
  "does SFnUpdateMetricsServerDeployment r (sFnUpdateMetricsServerDeployment L E r s)"
  "does SFnUpdateAdmissionWebhooksDeployment r (sFnUpdateAdmissionWebhooksDeployment L E r s)"
  "does SFnUpdateAdmissionWebhooksNetworkPolicy r (sfnUpdateAdmissionWebhooksNetworkPolicy L E r s)"
  "does (SFnUpdateObject u upd fn) r (sFnUpdateObject u upd fn L E r s)"
  by (auto simp: sFnUpdateKedaDeployment_def sFnUpdateMetricsServerDeployment_def
      sFnUpdateAdmissionWebhooksDeployment_def sfnUpdateAdmissionWebhooksNetworkPolicy_def
      sFnUpdateObject_def Let_def split: step_splits)

lemma does_EmitEvent: "does (SFnEmitEventfunc nx x e) r (sFnEmitEventfunc nx x e L r s)"
  using effect_mono [OF effect_emit_loop, of "allowed (SFnEmitEventfunc nx x e)"]
  by (simp add: sFnEmitEventfunc_def)

lemma does_Apply: "does SFnApply r (sFnApply L E r s)"
proof -
  obtain y r' s' where a: "apply_loop L E 0 (f_Objs r) False r s = (y, r', s')"
    by (metis prod_cases3)
  have "effect (allowed SFnApply) r r'"
    using effect_apply_loop [OF a] by (rule effect_mono) simp
  then show ?thesis by (auto simp: sFnApply_def a split: go.split)
qed

lemma does_Guard: "does SFnGuardAddonInUse r (sFnGuardAddonInUse L E r s)"
proof -
  obtain y r' where g: "httpScaledObjectsInUse E r = (y, r')" by fastforce
  have "effect (allowed SFnGuardAddonInUse) r r'"
    using effect_httpScaledObjectsInUse [OF g] by (rule effect_mono) simp
  then show ?thesis by (auto simp: sFnGuardAddonInUse_def g split: sum.split)
qed

definition ends :: "(request \<Rightarrow> bool) \<Rightarrow> fsm \<Rightarrow> outcome \<Rightarrow> bool" where
  "ends P r out \<longleftrightarrow> effect P r (fst (snd out))"

lemma ends_simps [simp]: "ends P r (y, r', s') \<longleftrightarrow> effect P r r'"
  by (simp add: ends_def)

lemma ends_trans: "effect P r r' \<Longrightarrow> ends P r' out \<Longrightarrow> ends P r out"
  unfolding ends_def by (rule effect_trans)

lemma persist_ends:
  assumes "effect P r r'" and "\<And>q. is_ReqUpdate q \<Longrightarrow> P q"
  shows "ends P r (y, persist_annotations E r' s)"
proof -
  obtain r2 s2 where p: "persist_annotations E r' s = (r2, s2)" by fastforce
  have "effect P r' r2" using effect_persist_annotations [OF p] assms(2) by (rule effect_mono)
  with assms(1) have "effect P r r2" by (rule effect_trans)
  with p show ?thesis by simp
qed

lemma ends_delete_known:
  "ends (\<lambda>q. is_ReqDelete q \<or> is_ReqUpdate q) r (delete_known L E ns objs r s)"
  (is "ends ?P r _")
proof -
  obtain e r1 where d: "deleteObjects E objs r = (e, r1)" by fastforce
  obtain e2 r2 where p: "deletePeerAuthentication E ns r1 = (e2, r2)" by fastforce
  have 1: "effect ?P r r1" using effect_deleteObjects [OF d] by (rule effect_mono) simp
  have "effect ?P r1 r2" using effect_deletePeerAuthentication [OF p] by (rule effect_mono) simp
  with 1 have 2: "effect ?P r r2" by (rule effect_trans)
  show ?thesis
    using 1 2 by (auto simp: delete_known_def d p Let_def split: option.split intro: persist_ends)
qed

lemma ends_apply_fetched:
  "ends (\<lambda>q. is_ReqPatch q \<or> is_ReqDelete q \<or> is_ReqUpdate q) r (apply_fetched L E cfg v ns objs r s)"
  (is "ends ?P r _")
proof -
  obtain e us r1 where a: "applyObjects E objs r = (e, us, r1)" by (metis prod_cases3)
  obtain e2 r2 where p: "deletePeerAuthentication E ns r1 = (e2, r2)" by fastforce
  have 1: "effect ?P r r1" using effect_applyObjects [OF a] by (rule effect_mono) simp
  have "effect ?P r1 r2" using effect_deletePeerAuthentication [OF p] by (rule effect_mono) simp
  with 1 have 2: "effect ?P r r2" by (rule effect_trans)
  show ?thesis
    using 1 2 by (auto simp: apply_fetched_def a p Let_def split: option.split intro: persist_ends)
qed

lemma ensureNamespace_r: "ensureNamespace E ns r = (x, r') \<Longrightarrow> r' = log_req (ReqCreateNamespace ns) r"
  by (auto simp: ensureNamespace_def Let_def split: option.splits if_splits)

lemma ApplyAddon_after_namespace:
  "ends (allowed SFnApplyAddon) (log_req (ReqCreateNamespace (EffectiveNamespace (ReadAddonCfg (s_instance s)))) r)
     (sFnApplyAddon L E r s)"
proof -
  let ?P = "allowed SFnApplyAddon"
  let ?cfg = "ReadAddonCfg (s_instance s)"
  let ?ns = "EffectiveNamespace ?cfg"
  let ?ann = "meta_Annotations (k_Meta (s_instance s))"
  let ?r1 = "log_req (ReqCreateNamespace ?ns) r"
  obtain e where n: "ensureNamespace E ?ns r = (e, ?r1)"
    using ensureNamespace_r by (metis prod.exhaust_sel)
  obtain c r2 where c: "cleanup_previous L E (map_get ?ann AnnotationAddonInstalledVersion)
      (map_get ?ann AnnotationAddonInstalledNamespace) DefaultAddonVersion ?ns ?r1 = (c, r2)" by fastforce
  obtain f r3 where f: "fetchAddonObjs L E DefaultAddonVersion ?ns (addon_IstioInjection ?cfg) r2
      = (f, r3)" by fastforce
  have 2: "effect ?P ?r1 r2"
    using effect_cleanup_previous [OF c] by (rule effect_mono) (auto split: request.split)
  have "effect ?P r2 r3"
    using effect_fetchAddonObjs [OF f] by (rule effect_mono) (auto split: request.split)
  with 2 have 3: "effect ?P ?r1 r3" by (rule effect_trans)
  have 4: "ends ?P ?r1 (apply_fetched L E ?cfg DefaultAddonVersion ?ns objs r3 s)" for objs
  proof (rule ends_trans [OF 3])
    show "ends ?P r3 (apply_fetched L E ?cfg DefaultAddonVersion ?ns objs r3 s)"
      using ends_apply_fetched unfolding ends_def
      by (rule effect_mono) (auto split: request.split)
  qed
  then show ?thesis
    using 2 3
    by (auto simp: sFnApplyAddon_def Let_def n c f ends_def
        split: option.split go.split sum.split)
qed

lemma does_ApplyAddon: "does SFnApplyAddon r (sFnApplyAddon L E r s)"
  unfolding does_def by (rule effect_trans [OF effect_log_req ApplyAddon_after_namespace [unfolded ends_def]]) simp

lemma does_DeleteAddon: "does SFnDeleteAddon r (sFnDeleteAddon L E r s)"
proof -
  let ?P = "allowed SFnDeleteAddon"
  have k: "ends ?P r' (delete_known L E ns objs r' s)" for ns objs r'
    using ends_delete_known unfolding ends_def by (rule effect_mono) (auto split: request.split)
  have f: "effect ?P r r1" if "fetchAddonObjs L E v ns False r = (y, r1)" for v ns y r1
    using effect_fetchAddonObjs [OF that] by (rule effect_mono) (auto split: request.split)
  show ?thesis
    using k ends_trans [OF f k]
    by (auto simp: sFnDeleteAddon_def Let_def does_def ends_def
        split: prod.split go.split sum.split dest!: f)
qed

lemma does_filter: "ends is_ReqDelete r (deleteResourcesWithFilter L E fs r s)"
proof -
  obtain e r1 where a: "deleteAddonObjs L E (AddLeaseObjs r) = (e, r1)" by fastforce
  obtain e2 r2 where d: "deleteResources E (f_Objs r1) fs None r1 = (e2, r2)" by fastforce
  have 1: "effect is_ReqDelete r r1"
    using effect_AddLeaseObjs effect_deleteAddonObjs [OF a] by (rule effect_trans)
  then have 2: "effect is_ReqDelete r r2"
    using effect_deleteResources [OF d] by (rule effect_trans)
  show ?thesis
    using 1 2 by (auto simp: deleteResourcesWithFilter_def a d split: option.split)
qed

lemma does_deletion:
  "does SFnCascadeDeletionState r (sFnCascadeDeletionState L E r s)"
  "does SFnUpstreamDeletionState r (sFnUpstreamDeletionState L E r s)"
  using effect_mono [OF does_filter [unfolded ends_def], of "allowed SFnCascadeDeletionState"]
    effect_mono [OF does_filter [unfolded ends_def], of "allowed SFnUpstreamDeletionState"]
  by (simp_all add: does_def sFnCascadeDeletionState_def sFnUpstreamDeletionState_def)

lemma does_Safe: "does SFnSafeDeletionState r (sFnSafeDeletionState L E r s)"
proof -
  let ?P = "allowed SFnSafeDeletionState"
  obtain e r1 where a: "checkAddonOrphanResources E r = (e, r1)" by fastforce
  obtain e2 r2 where c: "checkCRDOrphanResources L E r1 = (e2, r2)" by fastforce
  have 1: "effect ?P r r1"
    using a by (auto simp: checkAddonOrphanResources_def split: if_splits prod.splits sum.splits
        dest!: effect_httpScaledObjectsInUse elim!: effect_mono)
  have "effect ?P r1 r2"
    using effect_checkCRDOrphan_loop [OF c [unfolded checkCRDOrphanResources_def]]
    by (rule effect_mono) auto
  with 1 have 2: "effect ?P r r2" by (rule effect_trans)
  have "ends ?P r (deleteResourcesWithFilter L E [] r2 s)"
  proof (rule ends_trans [OF 2])
    show "ends ?P r2 (deleteResourcesWithFilter L E [] r2 s)"
      using does_filter unfolding ends_def by (rule effect_mono) (auto split: request.split)
  qed
  with 1 2 show ?thesis
    by (auto simp: sFnSafeDeletionState_def a c does_def ends_def split: option.split)
qed

lemma exec_does: "does fn r (exec L E fn r s)"
  by (cases fn) (simp_all add: does_basic does_updates does_EmitEvent does_Apply does_Guard
      does_ApplyAddon does_DeleteAddon does_deletion does_Safe del: does_simps)

lemma exec_effect: "exec L E fn r s = (y, r', s') \<Longrightarrow> effect (allowed fn) r r'"
  using exec_does [of fn r L E s] by simp

end
