(* ===== verification/Apply_Properties.thy ===== *)
theory Apply_Properties
  imports Effects Ref_Lib
begin

text \<open>
  Properties of the apply state: what is sent to the cluster, for which objects and in which order,
  what the objects carry, and which images the deployments run.
\<close>

section \<open>The loop\<close>

text \<open>The object that \<open>Patch\<close> is given for an element of \<open>Objs\<close>, and whether its image update failed.\<close>

definition patched :: "k8s_lib \<Rightarrow> env \<Rightarrow> obj \<Rightarrow> obj" where
  "patched L E u = (case snd (prepare L E u) of Ret (u', e) \<Rightarrow> u' | Panic p \<Rightarrow> u)"

definition panics :: "k8s_lib \<Rightarrow> env \<Rightarrow> obj \<Rightarrow> bool" where
  "panics L E u \<longleftrightarrow> (\<exists>p. snd (prepare L E u) = Panic p)"

definition image_failed :: "k8s_lib \<Rightarrow> env \<Rightarrow> obj \<Rightarrow> bool" where
  "image_failed L E u \<longleftrightarrow> (\<exists>u' e. snd (prepare L E u) = Ret (u', Some e))"

text \<open>The answers of the server to a list of patches after a history.\<close>

fun answers :: "env \<Rightarrow> hist \<Rightarrow> obj list \<Rightarrow> (goerror option \<times> obj) list" where
  "answers E h [] = []"
| "answers E h (u # us) = e_patch E h u # answers E (h @ [ReqPatch u]) us"

lemma apply_loop_Ret:
  assumes "\<not> list_ex (panics L E) us"
  shows "apply_loop L E i us b r s =
     (let ps = map (patched L E) us; as = answers E (f_hist r) ps in
      (Ret (b \<or> list_ex (image_failed L E) us \<or> list_ex (\<lambda>a. fst a \<noteq> None) as),
       r\<lparr>f_hist := f_hist r @ map ReqPatch ps,
         f_Objs := fold (\<lambda>(j, u) xs. xs[j := fst (prepare L E u)]) (enumerate i us) (f_Objs r)\<rparr>,
       s\<lparr>s_objs := s_objs s @ map snd as\<rparr>))"
  using assms
proof (induction us arbitrary: i b r s)
  case (Cons u us)
  then obtain u' e where p: "snd (prepare L E u) = Ret (u', e)"
    by (cases "snd (prepare L E u)") (auto simp: panics_def)
  then have q: "patched L E u = u'" "image_failed L E u \<longleftrightarrow> e \<noteq> None"
    by (auto simp: patched_def image_failed_def)
  obtain er v where a: "e_patch E (f_hist r) u' = (er, v)" by fastforce
  show ?case
    using Cons p q a
    by (simp add: Let_def client_Patch_def set_obj_def log_req_def disj_ac)
qed simp

lemma apply_loop_Panic:
  "list_ex (panics L E) us \<Longrightarrow> \<exists>p r' s'. apply_loop L E i us b r s = (Panic p, r', s')"
proof (induction us arbitrary: i b r s)
  case (Cons u us)
  show ?case
  proof (cases "snd (prepare L E u)")
    case (Ret x)
    with Cons show ?thesis
      by (auto simp: Let_def panics_def split: prod.split)
  next
    case (Panic p)
    then show ?thesis by (simp add: Let_def)
  qed
qed simp

text \<open>
  C22: The apply state sends one patch for every object of the module, in their order, also after one
  of them failed.  It goes on to the verification exactly when no patch and no image update
  failed, with the answers of the server as the applied objects; otherwise the module is in state
  Error with the reason ApplyObjError.  It panics exactly when the preparation of some object does.
\<close>

theorem apply_sends_every_object:
  "let ps = map (patched L E) (f_Objs r); as = answers E (f_hist r) ps;
       failed = list_ex (image_failed L E) (f_Objs r) \<or> list_ex (\<lambda>a. fst a \<noteq> None) as
   in case sFnApply L E r s of
        (Panic p, r', s') \<Rightarrow> list_ex (panics L E) (f_Objs r)
      | (Ret st, r', s') \<Rightarrow>
          \<not> list_ex (panics L E) (f_Objs r)
          \<and> f_hist r' = f_hist r @ map ReqPatch ps
          \<and> s_objs s' = s_objs s @ map snd as
          \<and> st = (if failed then stopWithNoRequeue else switchState SFnVerify)
          \<and> s_instance s' =
              (if failed then UpdateStateFromErr L (e_now E (f_hist r')) ''Installed'' ''ApplyObjError''
                                (errors_New ''installation error'') (s_instance s)
               else s_instance s)"
proof (cases "list_ex (panics L E) (f_Objs r)")
  case True
  then obtain p r' s' where "apply_loop L E 0 (f_Objs r) False r s = (Panic p, r', s')"
    using apply_loop_Panic by blast
  with True show ?thesis by (simp add: sFnApply_def Let_def)
next
  case False
  show ?thesis
    by (simp add: sFnApply_def apply_loop_Ret [OF False] False Let_def ErrInstallation_def)
qed

section \<open>The content of a patch\<close>

lemma doc_labels:
  assumes "unstructured_doc L"
  shows "GetLabels L u = smap_at u [''metadata'', ''labels'']"
    and "GetAnnotations L u = smap_at u [''metadata'', ''annotations'']"
    and "SetLabels L u (Some f) = put u (of_smap f) [''metadata'', ''labels'']"
    and "SetAnnotations L u (Some f) = put u (of_smap f) [''metadata'', ''annotations'']"
  using assms by (simp_all add: unstructured_doc_def)

lemma settable_sibling:
  "settable u [a, b] \<Longrightarrow> settable (put u v [a, c]) [a, b]"
  by (cases "fmlookup u a"; (cases "the (fmlookup u a)")?)
     (auto simp: settable_def put_def split: option.splits)

lemma json_set_sibling_settable:
  "settable u [a, b] = settable u [a, c]"
  by (cases "fmlookup u a"; (cases "the (fmlookup u a)")?) (auto simp: settable_def)

lemma json_get_single: "json_get (JMap u) [k] = fmlookup u k"
  by (simp split: option.split)

text \<open>What the preparation makes of an object with labels.\<close>

lemma prepare_labelled:
  assumes doc: "unstructured_doc L" and labels: "smap_at u [''metadata'', ''labels''] = Some f"
  obtains u2 where "prepare L E u = (u2, if fmlookup u ''kind'' = Some (JStr ''Deployment'')
      then updateImagesInDeployments L (e_getenv E) u2 else Ret (u2, None))"
    and "smap_at u2 [''metadata'', ''labels''] = Some (with_common_labels f)"
    and "smap_at u2 [''metadata'', ''annotations''] =
        Some (fmupd disclaimerAnnotation disclaimerMessage (non_nil (smap_at u [''metadata'', ''annotations''])))"
    and "\<And>p. fork [''metadata'', ''labels''] p \<Longrightarrow> fork [''metadata'', ''annotations''] p \<Longrightarrow>
        json_get (JMap u2) p = json_get (JMap u) p"
proof -
  let ?ann = "[''metadata'', ''annotations'']" and ?lab = "[''metadata'', ''labels'']"
  let ?a = "fmupd disclaimerAnnotation disclaimerMessage (non_nil (smap_at u ?ann))"
  let ?u1 = "put u (of_smap ?a) ?ann"
  let ?u2 = "put ?u1 (of_smap (with_common_labels f)) ?lab"
  have "settable u ?lab"
    using labels by (auto simp: smap_at_def settable_def split: option.splits json.splits)
  then have s: "settable u ?ann" "settable ?u1 ?lab"
    using json_set_sibling_settable settable_sibling by blast+
  have g: "json_get (JMap ?u2) q = json_get (JMap u) q" if "fork ?lab q" "fork ?ann q" for q
    using json_get_put_fork [OF that(1)] json_get_put_fork [OF that(2)] by simp
  have kind: "fmlookup ?u2 ''kind'' = fmlookup u ''kind''"
    using g [of "[''kind'']"] unfolding json_get_single by simp
  have "smap_at ?u1 ?lab = Some f" "u \<noteq> fmempty" using labels by (auto simp: smap_at_put_fork) (simp add: smap_at_def)
  then have "prepare L E u = (?u2, if fmlookup u ''kind'' = Some (JStr ''Deployment'')
      then updateImagesInDeployments L (e_getenv E) ?u2 else Ret (?u2, None))"
    by (simp add: prepare_def AddDoNotEditDisclaimer_def doc_labels [OF doc] setCommonLabels_simps kind in_place_def Let_def)
  moreover have "smap_at ?u2 ?ann = Some ?a"
    using smap_at_put_fork [of ?lab ?ann] smap_at_put [OF s(1)] by simp
  ultimately show ?thesis using smap_at_put [OF s(2)] g by (intro that [of ?u2]) simp_all
qed

text \<open>
  C33: What the apply state sends for an object with labels that is no deployment: the object itself
  with the disclaimer added to its annotations and the three module labels added to its labels;
  all its other annotations, labels and fields are as in the manifest.
\<close>

theorem patch_content:
  assumes doc: "unstructured_doc L"
    and labels: "smap_at u [''metadata'', ''labels''] = Some f"
    and kind: "fmlookup u ''kind'' \<noteq> Some (JStr ''Deployment'')"
  shows "\<not> panics L E u \<and> \<not> image_failed L E u
    \<and> smap_at (patched L E u) [''metadata'', ''labels''] = Some (with_common_labels f)
    \<and> smap_at (patched L E u) [''metadata'', ''annotations''] =
        Some (fmupd disclaimerAnnotation disclaimerMessage
          (non_nil (smap_at u [''metadata'', ''annotations''])))
    \<and> (fork [''metadata'', ''labels''] p \<and> fork [''metadata'', ''annotations''] p \<longrightarrow>
        json_get (JMap (patched L E u)) p = json_get (JMap u) p)"
proof (rule prepare_labelled [OF doc labels, of E], goal_cases)
  case (1 u2)
  with kind have "patched L E u = u2" "\<not> panics L E u" "\<not> image_failed L E u"
    by (simp_all add: panics_def image_failed_def patched_def)
  with 1(2-4) show ?thesis by simp
qed

definition ref_object :: obj where
  "ref_object = fmap_of_list
     [(''kind'', JStr ''Service''),
      (''metadata'', jmap [(''name'', JStr ''keda''), (''labels'', of_smap (fmap_of_list [(''app'', ''keda'')]))])]"

theorem patch_content_witness:
  "smap_at (patched ref_lib ref_env ref_object) [''metadata'', ''annotations'']
     = Some (fmupd disclaimerAnnotation disclaimerMessage fmempty)
   \<and> json_get (JMap (patched ref_lib ref_env ref_object)) [''metadata'', ''name''] = Some (JStr ''keda'')"
  using patch_content [OF ref_unstructured_doc, of ref_object "fmap_of_list [(''app'', ''keda'')]"
      ref_env "[''metadata'', ''name'']"]
  by (simp add: ref_object_def jmap_def smap_at_def of_smap_def)

section \<open>Images\<close>

text \<open>The variable that overrides the image of a deployment.\<close>

definition image_variable :: "string \<Rightarrow> string option" where
  "image_variable name =
     (if name = ''keda-operator'' then Some ''IMAGE_KEDA_OPERATOR''
      else if name = ''keda-operator-metrics-apiserver'' then Some ''IMAGE_KEDA_METRICS_APISERVER''
      else if name = ''keda-admission-webhooks'' then Some ''IMAGE_KEDA_ADMISSION_WEBHOOKS''
      else None)"

text \<open>The image the environment asks for: in FIPS mode the variable with the suffix counts.\<close>

definition wanted_image :: "(string \<Rightarrow> string) \<Rightarrow> string \<Rightarrow> string" where
  "wanted_image getenv name =
     (case image_variable name of
        None \<Rightarrow> []
      | Some x \<Rightarrow> getenv (if ToLower (getenv ''KYMA_FIPS_MODE_ENABLED'') = ''true'' then x @ ''_FIPS'' else x))"

lemma updateImageIfOverride_eq:
  "updateImageIfOverride getenv x f d =
     (let i = getenv (if f then x @ ''_FIPS'' else x) in
      if i = [] then Ret d else container0 (\<lambda>c. c\<lparr>c_Image := i\<rparr>) d)"
  by (simp add: updateImageIfOverride_def Let_def)

text \<open>
  C34: The images of the module: for a deployment of the module whose variable is set, the first
  container runs the image of the variable, the FIPS variant in FIPS mode, and nothing else of
  the deployment changes; any other deployment is sent as it is.  A conversion error leaves no
  object, and a deployment to override without containers panics.
\<close>

theorem image_override:
  "updateImagesInDeployments L getenv u =
     (if fmlookup u ''kind'' \<noteq> Some (JStr ''Deployment'') then Ret (u, None)
      else case FromDeployment L u of
        Inl err \<Rightarrow> Ret (fmempty, Some (errorf_w ''convert from unstructured error: '' err []))
      | Inr d \<Rightarrow>
          (let i = wanted_image getenv (d_Name d);
               finish = (\<lambda>d'. case ToDeployment L d' of
                  Inl err \<Rightarrow> Ret (fmempty, Some (errorf_w ''convert to unstructured error: '' err []))
                | Inr u' \<Rightarrow> Ret (u', None))
           in if i = [] then finish d
              else case d_Containers d of
                     [] \<Rightarrow> Panic ''index out of range [0] with length 0''
                   | c # cs \<Rightarrow> finish (d\<lparr>d_Containers := c\<lparr>c_Image := i\<rparr> # cs\<rparr>)))"
  by (auto simp: updateImagesInDeployments_def updateImageIfOverride_eq wanted_image_def
      image_variable_def container0_def Let_def split: sum.split list.split)

end
