(* ===== verification/Manifest_Properties.thy ===== *)
theory Manifest_Properties
  imports Addon_Objs Apply_Properties
begin

text \<open>
  Properties of the manifests: how documents are loaded and downloaded, which versions are accepted, and
  what the rewriting of the add-on's manifests for a namespace changes in an object and what it
  leaves alone.
\<close>

section \<open>Writing on forking paths\<close>

lemma settable_empty: "p \<noteq> [] \<Longrightarrow> settable fmempty p"
  by (induction p rule: induct_list012) (auto simp: settable_def)

lemma settable_Cons:
  "settable m (k # k' # ks) \<longleftrightarrow>
     (case fmlookup m k of None \<Rightarrow> True | Some (JMap m1) \<Rightarrow> settable m1 (k' # ks) | _ \<Rightarrow> False)"
  using settable_empty [of "k' # ks"] by (auto simp: settable_def split: option.split json.split)

lemma settable_single: "settable m [k]"
  by (simp add: settable_def)

lemma settable_other: "fmlookup m' b = fmlookup m b \<Longrightarrow> settable m (b # q) \<Longrightarrow> settable m' (b # q)"
  by (cases q) (simp_all add: settable_single settable_Cons)

lemma settable_set_fork:
  "json_set m v p = Some m' \<Longrightarrow> fork p q \<Longrightarrow> settable m q \<Longrightarrow> settable m' q"
proof (induction m v p arbitrary: m' q rule: json_set.induct)
  case (2 m v k)
  then obtain b q' where q: "q = b # q'" "b \<noteq> k" by (cases q) auto
  with 2 have "fmlookup m' b = fmlookup m b" by auto
  with 2 q show ?case by (simp add: settable_other)
next
  case (3 m v k k' ks)
  then obtain b q' where q: "q = b # q'" by (cases q) auto
  show ?case
  proof (cases "b = k")
    case False
    with 3 q have "fmlookup m' b = fmlookup m b" by (auto split: option.splits json.splits)
    with 3 q show ?thesis by (blast intro: settable_other)
  next
    case True
    with 3 q have f: "fork (k' # ks) q'" by simp
    then obtain c q2 where q': "q' = c # q2" by (cases q') auto
    show ?thesis
    proof (cases "fmlookup m k")
      case None
      with 3 q q' True f show ?thesis
        by (auto simp: settable_Cons settable_empty)
    next
      case (Some j)
      with 3 q q' True f show ?thesis by (cases j) (auto simp: settable_Cons)
    qed
  qed
qed simp

lemma settable_put_fork: "fork p q \<Longrightarrow> settable m q \<Longrightarrow> settable (put m v p) q"
  by (auto simp: put_def settable_set_fork split: option.split)

lemmas put_rules = put_simps settable_put_fork

lemma settable_get: "json_get (JMap m) p = Some v \<Longrightarrow> p \<noteq> [] \<Longrightarrow> settable m p"
proof (induction p arbitrary: m rule: induct_list012)
  case (3 k k' ks)
  then show ?case by (auto simp: settable_Cons split: option.splits json.split)
qed (simp_all add: settable_single)

section \<open>One rewriting step\<close>

text \<open>
  A step writes on the path \<open>p\<close>: what it writes there is \<open>v\<close>, every path that forks from \<open>p\<close> reads
  as before, and what was writable stays writable.
\<close>

definition keeps_off :: "string list \<Rightarrow> obj \<Rightarrow> obj \<Rightarrow> bool" where
  "keeps_off p u u' \<longleftrightarrow>
     (\<forall>q. fork p q \<longrightarrow> json_get (JMap u') q = json_get (JMap u) q \<and> (settable u q \<longrightarrow> settable u' q))"

lemma keeps_off_refl [simp]: "keeps_off p u u"
  by (simp add: keeps_off_def)

lemma keeps_off_put [simp]: "keeps_off p u (put u v p)"
  by (simp add: keeps_off_def put_rules)

lemma keeps_offD:
  assumes "keeps_off p u u'" "fork p q"
  shows "json_get (JMap u') q = json_get (JMap u) q" "settable u q \<Longrightarrow> settable u' q"
    "smap_at u' q = smap_at u q" "str_at u' q = str_at u q"
  using assms by (simp_all add: keeps_off_def smap_at_def str_at_def)

text \<open>Setting an entry of a string map, or leaving the object alone when it is there.\<close>

lemma stamp_step:
  assumes "unstructured_doc L" "settable u p" "v \<noteq> []"
    and "u' = (if map_get (Some (non_nil (NestedStringMap L u p))) k = v then u
               else SetNestedStringMap L u (fmupd k v (non_nil (NestedStringMap L u p))) p)"
  shows "smap_at u' p = Some (fmupd k v (non_nil (smap_at u p)))" "keeps_off p u u'" "settable u' p"
proof -
  have m: "NestedStringMap L u p = smap_at u p" "\<And>f. SetNestedStringMap L u f p = put u (of_smap f) p"
    using assms(1) by (simp_all add: unstructured_doc_def)
  show "smap_at u' p = Some (fmupd k v (non_nil (smap_at u p)))"
  proof (cases "map_get (Some (non_nil (smap_at u p))) k = v")
    case True
    with assms(3) obtain f where f: "smap_at u p = Some f" "fmlookup f k = Some v"
      by (auto simp: map_get_def non_nil_def split: option.splits)
    with True show ?thesis using assms(4) fmupd_absorb [of f k v] by (simp add: m non_nil_def)
  qed (simp add: assms(2,4) m)
  show "keeps_off p u u'" "settable u' p"
    using assms(2) by (simp_all add: assms(4) m settable_put_same)
qed

text \<open>The values a rewriting pins, whatever they were.\<close>

fun pinned_env :: "string \<Rightarrow> json \<Rightarrow> json" where
  "pinned_env ns (JMap m) =
     (if fmlookup m ''name'' \<in> {Some (JStr ''KEDA_HTTP_SCALER_TARGET_ADMIN_NAMESPACE''),
           Some (JStr ''KEDA_HTTP_OPERATOR_NAMESPACE'')}
      then JMap (fmupd ''value'' (JStr ns) m) else JMap m)"
| "pinned_env ns e = e"

fun pinned_container :: "string \<Rightarrow> json \<Rightarrow> json" where
  "pinned_container ns (JMap m) =
     (case fmlookup m ''env'' of
        Some (JList es) \<Rightarrow> JMap (fmupd ''env'' (JList (map (pinned_env ns) es)) m)
      | _ \<Rightarrow> JMap m)"
| "pinned_container ns c = c"

fun pinned_subject :: "string \<Rightarrow> json \<Rightarrow> json" where
  "pinned_subject ns (JMap m) =
     (if str_at m [''kind''] = ''ServiceAccount'' \<and> str_at m [''namespace''] \<noteq> []
      then JMap (fmupd ''namespace'' (JStr ns) m) else JMap m)"
| "pinned_subject ns s = s"

lemma fmupd_absorb_json: "fmlookup m k = Some x \<Longrightarrow> fmupd k x m = m"
  by (rule fmupd_absorb)

lemma patch_env_var_eq:
  "fst (patch_env_var ns e) = pinned_env ns e \<and> (\<not> snd (patch_env_var ns e) \<longrightarrow> pinned_env ns e = e)"
  by (cases e; cases "fmlookup (case e of JMap m \<Rightarrow> m) ''name''";
      (cases "the (fmlookup (case e of JMap m \<Rightarrow> m) ''name'')")?)
     (auto simp: patch_env_var_def namespaceEnvVars_def Let_def fmupd_absorb_json)

lemma map_pinned:
  "(\<And>x. fst (f x) = g x \<and> (\<not> snd (f x) \<longrightarrow> g x = x)) \<Longrightarrow>
   map fst (map f xs) = map g xs \<and> (\<not> list_ex snd (map f xs) \<longrightarrow> map g xs = xs)"
  by (induction xs) auto

lemma patch_container_eq:
  "fst (patch_container ns c) = pinned_container ns c
   \<and> (\<not> snd (patch_container ns c) \<longrightarrow> pinned_container ns c = c)"
proof (cases c)
  case (JMap m)
  show ?thesis
  proof (cases "\<exists>es. fmlookup m ''env'' = Some (JList es)")
    case True
    then obtain es where es: "fmlookup m ''env'' = Some (JList es)" by blast
    note e = map_pinned [of "patch_env_var ns" "pinned_env ns" es, OF patch_env_var_eq]
    show ?thesis using JMap es e [THEN conjunct2] fmupd_absorb_json [OF es]
      by (simp add: patch_container_def Let_def e [THEN conjunct1] del: map_map map_eq_conv)
  next
    case False
    then show ?thesis using JMap
      by (cases "fmlookup m ''env''"; (cases "the (fmlookup m ''env'')")?)
         (auto simp: patch_container_def)
  qed
qed (simp_all add: patch_container_def)

lemma patch_subject_eq:
  assumes "unstructured_doc L" "ns \<noteq> []"
  shows "fst (patch_subject L ns c) = pinned_subject ns c
   \<and> (\<not> snd (patch_subject L ns c) \<longrightarrow> pinned_subject ns c = c)"
proof (cases c)
  case (JMap m)
  have n: "NestedString L m p = str_at m p" for p
    using assms(1) by (simp add: unstructured_doc_def)
  have "fmupd ''namespace'' (JStr ns) m = m" if "str_at m [''namespace''] = ns"
    using that assms(2)
    by (intro fmupd_absorb_json) (auto simp: str_at_def split: option.splits elim!: as_string.elims)
  then show ?thesis using JMap by (auto simp: patch_subject_def n Let_def)
qed (simp_all add: patch_subject_def)

text \<open>Rewriting the elements of a list on a path.\<close>

lemma list_step:
  assumes "unstructured_doc L" "\<And>x. fst (f x) = g x \<and> (\<not> snd (f x) \<longrightarrow> g x = x)" "p \<noteq> []"
    and "u' = (case NestedSlice L u p of None \<Rightarrow> u
      | Some xs \<Rightarrow> let ps = map f xs in if list_ex snd ps then SetNestedSlice L u (map fst ps) p else u)"
  shows "as_list (json_get (JMap u') p) = map_option (map g) (as_list (json_get (JMap u) p))"
    and "keeps_off p u u'"
proof -
  have m: "NestedSlice L u p = as_list (json_get (JMap u) p)"
    "\<And>xs. SetNestedSlice L u xs p = put u (JList xs) p"
    using assms(1) by (simp_all add: unstructured_doc_def)
  show "keeps_off p u u'" by (auto simp: assms(4) m Let_def split: option.split)
  show "as_list (json_get (JMap u') p) = map_option (map g) (as_list (json_get (JMap u) p))"
  proof (cases "as_list (json_get (JMap u) p)")
    case (Some xs)
    then have "settable u p" using assms(3) by (auto intro: settable_get elim!: as_list.elims)
    then show ?thesis using Some map_pinned [of f g xs, OF assms(2)]
      by (auto simp: assms(4) m Let_def json_get_put simp del: map_map)
  qed (simp add: assms(4) m)
qed

section \<open>A rewritten object\<close>

text \<open>The paths a rewriting may write on.\<close>

definition written :: "string \<Rightarrow> string list list" where
  "written kind = [namespacePath, labelsPath]
     @ (if kind = ''ClusterRoleBinding'' \<or> kind = ''RoleBinding'' then [[''subjects'']]
        else if kind = ''Deployment'' then [podContainers, templateLabels, templateAnnotations] else [])"

definition rebased :: "string \<Rightarrow> obj \<Rightarrow> obj" where
  "rebased ns u =
     (let u1 = (if str_at u namespacePath = [] then u else put u (JStr ns) namespacePath)
      in put u1 (of_smap (with_common_labels (non_nil (smap_at u labelsPath)))) labelsPath)"

lemma overridden_eq:
  assumes "unstructured_doc L" "ns \<noteq> []"
  shows "overridden L ns istio u =
    (let u2 = rebased ns u; kind = str_at u [''kind'']
     in if kind = ''ClusterRoleBinding'' \<or> kind = ''RoleBinding'' then patchSubjectsNamespace L ns u2
        else if kind = ''Deployment'' then
          (let u3 = patchDeploymentPodTemplateLabels L (patchDeploymentEnvNamespace L ns u2)
           in if istio then patchDeploymentIstioSidecarAnnotation L ''true''
                              (patchDeploymentIstioExcludePortsAnnotation L u3)
              else patchDeploymentIstioSidecarAnnotation L ''false'' u3)
        else u2)"
  using assms
  by (simp add: overridden_def override_object_def applyCommonMetadataLabels_eq rebased_def Let_def
      unstructured_doc_def put_rules)

lemma rebased_paths:
  assumes "settable u labelsPath"
  shows "str_at (rebased ns u) namespacePath = (if str_at u namespacePath = [] then [] else ns)"
    and "smap_at (rebased ns u) labelsPath = Some (with_common_labels (non_nil (smap_at u labelsPath)))"
    and "fork namespacePath q \<Longrightarrow> fork labelsPath q \<Longrightarrow>
         json_get (JMap (rebased ns u)) q = json_get (JMap u) q \<and> (settable u q \<longrightarrow> settable (rebased ns u) q)"
proof -
  have "settable u namespacePath" using assms json_set_sibling_settable by blast
  then show "str_at (rebased ns u) namespacePath = (if str_at u namespacePath = [] then [] else ns)"
    by (simp add: rebased_def Let_def put_rules)
  show "smap_at (rebased ns u) labelsPath = Some (with_common_labels (non_nil (smap_at u labelsPath)))"
    using assms by (simp add: rebased_def Let_def put_rules)
  show "fork namespacePath q \<Longrightarrow> fork labelsPath q \<Longrightarrow>
         json_get (JMap (rebased ns u)) q = json_get (JMap u) q \<and> (settable u q \<longrightarrow> settable (rebased ns u) q)"
    by (simp add: rebased_def Let_def put_rules)
qed

lemma subjects_step:
  assumes "unstructured_doc L" "ns \<noteq> []"
  shows "as_list (json_get (JMap (patchSubjectsNamespace L ns u)) [''subjects''])
      = map_option (map (pinned_subject ns)) (as_list (json_get (JMap u) [''subjects'']))"
    and "keeps_off [''subjects''] u (patchSubjectsNamespace L ns u)"
  by (rule list_step [OF assms(1) patch_subject_eq [OF assms]];
      simp add: patchSubjectsNamespace_def)+

lemma env_step:
  assumes "unstructured_doc L"
  shows "as_list (json_get (JMap (patchDeploymentEnvNamespace L ns u)) podContainers)
      = map_option (map (pinned_container ns)) (as_list (json_get (JMap u) podContainers))"
    and "keeps_off podContainers u (patchDeploymentEnvNamespace L ns u)"
  by (rule list_step [OF assms patch_container_eq]; simp add: patchDeploymentEnvNamespace_def)+

lemma template_labels_step:
  assumes "unstructured_doc L" "settable u templateLabels"
  shows "smap_at (patchDeploymentPodTemplateLabels L u) templateLabels
        = Some (fmupd kymaModuleLabel kymaModuleLabelValue (non_nil (smap_at u templateLabels)))"
    and "keeps_off templateLabels u (patchDeploymentPodTemplateLabels L u)"
  by (rule stamp_step [OF assms, where k = kymaModuleLabel and v = kymaModuleLabelValue];
      simp add: patchDeploymentPodTemplateLabels_def Let_def)+

lemma exclude_ports_step:
  assumes "unstructured_doc L" "settable u templateAnnotations"
  shows "smap_at (patchDeploymentIstioExcludePortsAnnotation L u) templateAnnotations
        = Some (fmupd istioExcludeInboundPortsAnnotation istioExcludeInboundPortsValue
            (non_nil (smap_at u templateAnnotations)))"
    and "keeps_off templateAnnotations u (patchDeploymentIstioExcludePortsAnnotation L u)"
    and "settable (patchDeploymentIstioExcludePortsAnnotation L u) templateAnnotations"
  by (rule stamp_step [OF assms, where k = istioExcludeInboundPortsAnnotation
        and v = istioExcludeInboundPortsValue];
      simp add: patchDeploymentIstioExcludePortsAnnotation_def Let_def)+

lemma sidecar_step:
  assumes "unstructured_doc L" "settable u templateAnnotations" "v \<noteq> []"
  shows "smap_at (patchDeploymentIstioSidecarAnnotation L v u) templateAnnotations
        = Some (fmupd istioSidecarInjectAnnotation v (non_nil (smap_at u templateAnnotations)))"
    and "keeps_off templateAnnotations u (patchDeploymentIstioSidecarAnnotation L v u)"
  by (rule stamp_step [OF assms, where k = istioSidecarInjectAnnotation];
      simp add: patchDeploymentIstioSidecarAnnotation_def Let_def)+

text \<open>All the steps on a deployment.\<close>

lemma deployment_steps:
  assumes doc: "unstructured_doc L"
    and st: "settable u templateLabels" "settable u templateAnnotations"
    and u': "u' = (let u3 = patchDeploymentPodTemplateLabels L (patchDeploymentEnvNamespace L ns u)
           in if istio then patchDeploymentIstioSidecarAnnotation L ''true''
                              (patchDeploymentIstioExcludePortsAnnotation L u3)
              else patchDeploymentIstioSidecarAnnotation L ''false'' u3)"
  shows "as_list (json_get (JMap u') podContainers)
      = map_option (map (pinned_container ns)) (as_list (json_get (JMap u) podContainers))"
    and "smap_at u' templateLabels
      = Some (fmupd kymaModuleLabel kymaModuleLabelValue (non_nil (smap_at u templateLabels)))"
    and "smap_at u' templateAnnotations
      = Some (fmupd istioSidecarInjectAnnotation (if istio then ''true'' else ''false'')
          (if istio then fmupd istioExcludeInboundPortsAnnotation istioExcludeInboundPortsValue
                           (non_nil (smap_at u templateAnnotations))
           else non_nil (smap_at u templateAnnotations)))"
    and "\<forall>p. fork podContainers p \<and> fork templateLabels p \<and> fork templateAnnotations p \<longrightarrow>
      json_get (JMap u') p = json_get (JMap u) p"
proof -
  define u2 where "u2 = patchDeploymentEnvNamespace L ns u"
  define u3 where "u3 = patchDeploymentPodTemplateLabels L u2"
  define u4 where "u4 = (if istio then patchDeploymentIstioExcludePortsAnnotation L u3 else u3)"
  have u': "u' = patchDeploymentIstioSidecarAnnotation L (if istio then ''true'' else ''false'') u4"
    by (simp add: u' u2_def u3_def u4_def)
  note e = env_step [OF doc, where ns = ns and u = u, folded u2_def]
  have s2: "settable u2 templateLabels" "settable u2 templateAnnotations"
    using st keeps_offD(2) [OF e(2)] by simp_all
  note l = template_labels_step [OF doc s2(1), folded u3_def]
  have s3: "settable u3 templateAnnotations" using s2(2) keeps_offD(2) [OF l(2)] by simp
  have x: "smap_at u4 templateAnnotations = (if istio then Some (fmupd istioExcludeInboundPortsAnnotation
        istioExcludeInboundPortsValue (non_nil (smap_at u3 templateAnnotations)))
      else smap_at u3 templateAnnotations)" "keeps_off templateAnnotations u3 u4"
      "settable u4 templateAnnotations"
    using exclude_ports_step [OF doc s3] s3 by (simp_all add: u4_def)
  have "(if istio then ''true'' else ''false'') \<noteq> []" by simp
  note a = sidecar_step [OF doc x(3) this, folded u']
  note k = keeps_offD [OF e(2)] keeps_offD [OF l(2)] keeps_offD [OF x(2)] keeps_offD [OF a(2)]
  show "as_list (json_get (JMap u') podContainers)
      = map_option (map (pinned_container ns)) (as_list (json_get (JMap u) podContainers))"
    using e(1) k(5,9,13) by (simp del: json_get.simps)
  show "smap_at u' templateLabels
      = Some (fmupd kymaModuleLabel kymaModuleLabelValue (non_nil (smap_at u templateLabels)))"
    using l(1) k(3,11,15) by simp
  show "smap_at u' templateAnnotations
      = Some (fmupd istioSidecarInjectAnnotation (if istio then ''true'' else ''false'')
          (if istio then fmupd istioExcludeInboundPortsAnnotation istioExcludeInboundPortsValue
                           (non_nil (smap_at u templateAnnotations))
           else non_nil (smap_at u templateAnnotations)))"
    using a(1) x(1) k(3,7) by (simp add: non_nil_def)
  show "\<forall>p. fork podContainers p \<and> fork templateLabels p \<and> fork templateAnnotations p \<longrightarrow>
      json_get (JMap u') p = json_get (JMap u) p"
    using k(1,5,9,13) by (simp del: json_get.simps)
qed

text \<open>
  The object \<open>u'\<close> is \<open>u\<close> moved to the namespace \<open>ns\<close>: what is pinned, by kind, and that every path
  off the written ones reads as before.
\<close>

definition bindings_moved :: "string \<Rightarrow> obj \<Rightarrow> obj \<Rightarrow> bool" where
  "bindings_moved ns u u' \<longleftrightarrow>
     as_list (json_get (JMap u') [''subjects''])
       = map_option (map (pinned_subject ns)) (as_list (json_get (JMap u) [''subjects'']))"

definition deployment_moved :: "string \<Rightarrow> bool \<Rightarrow> obj \<Rightarrow> obj \<Rightarrow> bool" where
  "deployment_moved ns istio u u' \<longleftrightarrow>
     as_list (json_get (JMap u') podContainers)
       = map_option (map (pinned_container ns)) (as_list (json_get (JMap u) podContainers))
   \<and> smap_at u' templateLabels
       = Some (fmupd ''kyma-project.io/module'' ''keda'' (non_nil (smap_at u templateLabels)))
   \<and> smap_at u' templateAnnotations
       = Some (fmupd ''sidecar.istio.io/inject'' (if istio then ''true'' else ''false'')
           (if istio then fmupd ''traffic.sidecar.istio.io/excludeInboundPorts'' ''9090''
                            (non_nil (smap_at u templateAnnotations))
            else non_nil (smap_at u templateAnnotations)))"

definition moved :: "string \<Rightarrow> bool \<Rightarrow> obj \<Rightarrow> obj \<Rightarrow> bool" where
  "moved ns istio u u' \<longleftrightarrow>
     (let kind = str_at u [''kind''] in
        str_at u' namespacePath = (if str_at u namespacePath = [] then [] else ns)
      \<and> smap_at u' labelsPath = Some (with_common_labels (non_nil (smap_at u labelsPath)))
      \<and> (kind \<in> {''ClusterRoleBinding'', ''RoleBinding''} \<longrightarrow> bindings_moved ns u u')
      \<and> (kind = ''Deployment'' \<longrightarrow> deployment_moved ns istio u u')
      \<and> (\<forall>p. (\<forall>w\<in>set (written kind). fork w p) \<longrightarrow> json_get (JMap u') p = json_get (JMap u) p))"

text \<open>A step after the relabelling keeps what that did, off its own paths.\<close>

lemma moved_base:
  assumes "settable u labelsPath"
    and "\<forall>p. (\<forall>w\<in>set ws. fork w p) \<longrightarrow> json_get (JMap u') p = json_get (JMap (rebased ns u)) p"
    and "\<forall>w\<in>set ws. fork w namespacePath \<and> fork w labelsPath"
  shows "str_at u' namespacePath = (if str_at u namespacePath = [] then [] else ns)"
    and "smap_at u' labelsPath = Some (with_common_labels (non_nil (smap_at u labelsPath)))"
    and "(\<forall>w\<in>set (namespacePath # labelsPath # ws). fork w p) \<Longrightarrow>
         json_get (JMap u') p = json_get (JMap u) p"
proof -
  note r = rebased_paths [OF assms(1), where ns = ns]
  have n: "json_get (JMap u') namespacePath = json_get (JMap (rebased ns u)) namespacePath"
    "json_get (JMap u') labelsPath = json_get (JMap (rebased ns u)) labelsPath"
    using assms(2,3) by blast+
  show "str_at u' namespacePath = (if str_at u namespacePath = [] then [] else ns)"
    using r(1) n(1) by (simp add: str_at_def del: json_get.simps)
  show "smap_at u' labelsPath = Some (with_common_labels (non_nil (smap_at u labelsPath)))"
    using r(2) n(2) by (simp add: smap_at_def del: json_get.simps)
  show "(\<forall>w\<in>set (namespacePath # labelsPath # ws). fork w p) \<Longrightarrow>
      json_get (JMap u') p = json_get (JMap u) p"
    using r(3) [where q = p] assms(2) by (simp del: json_get.simps fork.simps)
qed

lemma moved_deployment:
  assumes doc: "unstructured_doc L" and lab: "settable u labelsPath"
    and st: "settable u templateLabels" "settable u templateAnnotations"
    and kind: "str_at u [''kind''] = ''Deployment''"
    and u': "u' = (let u3 = patchDeploymentPodTemplateLabels L
                            (patchDeploymentEnvNamespace L ns (rebased ns u))
           in if istio then patchDeploymentIstioSidecarAnnotation L ''true''
                              (patchDeploymentIstioExcludePortsAnnotation L u3)
              else patchDeploymentIstioSidecarAnnotation L ''false'' u3)"
  shows "moved ns istio u u'"
proof -
  note r = rebased_paths(3) [OF lab, where ns = ns]
  have s: "settable (rebased ns u) templateLabels" "settable (rebased ns u) templateAnnotations"
    using r st by simp_all
  note d = deployment_steps [OF doc s u']
  have "json_get (JMap (rebased ns u)) podContainers = json_get (JMap u) podContainers"
    "json_get (JMap (rebased ns u)) templateLabels = json_get (JMap u) templateLabels"
    "json_get (JMap (rebased ns u)) templateAnnotations = json_get (JMap u) templateAnnotations"
    using r by (simp_all del: json_get.simps)
  then have "deployment_moved ns istio u u'"
    using d(1-3) by (simp add: deployment_moved_def smap_at_def del: json_get.simps)
  moreover have off: "\<forall>p. (\<forall>w\<in>set [podContainers, templateLabels, templateAnnotations]. fork w p) \<longrightarrow>
      json_get (JMap u') p = json_get (JMap (rebased ns u)) p"
    using d(4) by (simp del: json_get.simps fork.simps)
  have w: "\<forall>w\<in>set [podContainers, templateLabels, templateAnnotations].
      fork w namespacePath \<and> fork w labelsPath" by simp
  ultimately show ?thesis
    using moved_base [OF lab off w]
    by (simp add: moved_def written_def kind del: json_get.simps fork.simps)
qed

lemma moved_binding:
  assumes doc: "unstructured_doc L" and lab: "settable u labelsPath" and ns: "ns \<noteq> []"
    and kind: "str_at u [''kind''] \<in> {''ClusterRoleBinding'', ''RoleBinding''}"
  shows "moved ns istio u (patchSubjectsNamespace L ns (rebased ns u))"
proof -
  note d = subjects_step [OF doc ns, of "rebased ns u"]
  have "json_get (JMap (rebased ns u)) [''subjects''] = json_get (JMap u) [''subjects'']"
    using rebased_paths(3) [OF lab, where ns = ns] by (simp del: json_get.simps)
  then have m: "bindings_moved ns u (patchSubjectsNamespace L ns (rebased ns u))"
    using d(1) by (simp add: bindings_moved_def del: json_get.simps)
  have off: "\<forall>p. (\<forall>w\<in>set [[''subjects'']]. fork w p) \<longrightarrow>
      json_get (JMap (patchSubjectsNamespace L ns (rebased ns u))) p = json_get (JMap (rebased ns u)) p"
    using keeps_offD(1) [OF d(2)] by (simp del: json_get.simps fork.simps)
  have w: "\<forall>w\<in>set [[''subjects'']]. fork w namespacePath \<and> fork w labelsPath" by simp
  have k: "str_at u [''kind''] \<noteq> ''Deployment''" using kind by auto
  show ?thesis
    using m kind k moved_base [OF lab off w]
    by (simp add: moved_def written_def del: json_get.simps fork.simps)
qed

lemma moved_other:
  assumes lab: "settable u labelsPath"
    and kind: "str_at u [''kind''] \<notin> {''ClusterRoleBinding'', ''RoleBinding'', ''Deployment''}"
  shows "moved ns istio u (rebased ns u)"
proof -
  have "\<forall>p. (\<forall>w\<in>set []. fork w p) \<longrightarrow>
      json_get (JMap (rebased ns u)) p = json_get (JMap (rebased ns u)) p" by simp
  from moved_base [OF lab this] kind show ?thesis
    by (simp add: moved_def written_def del: json_get.simps fork.simps)
qed

text \<open>
  C24: What the rewriting for a namespace makes of an object of the add-on's manifests with writable
  labels.  A namespaced object moves to the namespace and a cluster-scoped one stays without; the module
  labels are added.  The service accounts among the subjects of a binding that have a namespace get
  this one.  In a deployment the two namespace variables of every container get it, the pods get
  the module label, and the sidecar annotation follows the configuration, with the excluded port when
  it is on.  Nothing else changes: the name, the kind and every other field.
\<close>

theorem manifest_rewritten:
  assumes "unstructured_doc L" "ns \<noteq> []" "settable u labelsPath"
    and "str_at u [''kind''] = ''Deployment'' \<longrightarrow>
      settable u templateLabels \<and> settable u templateAnnotations"
  shows "moved ns istio u (overridden L ns istio u)"
proof -
  consider (bind) "str_at u [''kind''] \<in> {''ClusterRoleBinding'', ''RoleBinding''}"
    | (deploy) "str_at u [''kind''] = ''Deployment''"
    | (other) "str_at u [''kind''] \<notin> {''ClusterRoleBinding'', ''RoleBinding'', ''Deployment''}" by blast
  then show ?thesis
  proof cases
    case bind
    then show ?thesis using moved_binding [OF assms(1,3,2) bind, of istio]
      by (auto simp: overridden_eq [OF assms(1,2)] Let_def)
  next
    case deploy
    then have "overridden L ns istio u = (let u3 = patchDeploymentPodTemplateLabels L
                            (patchDeploymentEnvNamespace L ns (rebased ns u))
           in if istio then patchDeploymentIstioSidecarAnnotation L ''true''
                              (patchDeploymentIstioExcludePortsAnnotation L u3)
              else patchDeploymentIstioSidecarAnnotation L ''false'' u3)"
      by (simp add: overridden_eq [OF assms(1,2)] Let_def)
    then show ?thesis using moved_deployment [OF assms(1,3) _ _ deploy] deploy assms(4) by blast
  next
    case other
    then show ?thesis using moved_other [OF assms(3) other]
      by (simp add: overridden_eq [OF assms(1,2)] Let_def)
  qed
qed

definition ref_addon_deployment :: obj where
  "ref_addon_deployment = fmap_of_list
     [(''kind'', JStr ''Deployment''),
      (''metadata'', jmap [(''name'', JStr ''interceptor''), (''namespace'', JStr ''keda'')]),
      (''spec'', jmap [(''template'', jmap [(''spec'', jmap [(''containers'', JList
         [jmap [(''env'', JList [jmap [(''name'', JStr ''KEDA_HTTP_OPERATOR_NAMESPACE''),
            (''value'', JStr ''keda'')]])]])])])])]"

theorem manifest_rewritten_witness:
  "as_list (json_get (JMap (overridden ref_lib ''http'' False ref_addon_deployment)) podContainers)
     = Some [jmap [(''env'', JList [jmap [(''name'', JStr ''KEDA_HTTP_OPERATOR_NAMESPACE''),
         (''value'', JStr ''http'')]])]]
   \<and> str_at (overridden ref_lib ''http'' False ref_addon_deployment) namespacePath = ''http''"
proof -
  let ?u' = "overridden ref_lib ''http'' False ref_addon_deployment"
  have k: "str_at ref_addon_deployment [''kind''] = ''Deployment''"
    "settable ref_addon_deployment labelsPath" "settable ref_addon_deployment templateLabels"
    "settable ref_addon_deployment templateAnnotations"
    "str_at ref_addon_deployment namespacePath = ''keda''"
    by (simp_all add: ref_addon_deployment_def jmap_def settable_def str_at_def)
  then have m: "moved ''http'' False ref_addon_deployment ?u'"
    using manifest_rewritten [OF ref_unstructured_doc, of "''http''" ref_addon_deployment False] by simp
  then have "as_list (json_get (JMap ?u') podContainers)
      = map_option (map (pinned_container ''http'')) (as_list (json_get (JMap ref_addon_deployment) podContainers))"
    using k by (simp add: moved_def deployment_moved_def Let_def del: json_get.simps)
  also have "\<dots> = Some [jmap [(''env'', JList [jmap [(''name'', JStr ''KEDA_HTTP_OPERATOR_NAMESPACE''),
         (''value'', JStr ''http'')]])]]"
    by (simp add: ref_addon_deployment_def jmap_def) (rule fmap_ext, simp, rule impI, rule fmap_ext, auto)
  finally show ?thesis using m k by (simp add: moved_def del: json_get.simps)
qed

section \<open>Versions\<close>

definition digits :: "string \<Rightarrow> bool" where
  "digits a \<longleftrightarrow> a \<noteq> [] \<and> list_all is_digit a"

lemma dot_no_digit [simp]: "\<not> is_digit CHR ''.''"
  by (simp add: is_digit_def)

lemma digits_dot_iff: "digits_dot s = Some rest \<longleftrightarrow> (\<exists>a. digits a \<and> s = a @ ''.'' @ rest)"
proof
  assume d: "digits_dot s = Some rest"
  then have dw: "dropWhile is_digit s = ''.'' @ rest" and "takeWhile is_digit s \<noteq> []"
    by (auto simp: digits_dot_def split: list.splits if_splits)
  moreover have "s = takeWhile is_digit s @ ''.'' @ rest" unfolding dw [symmetric] by simp
  moreover have "list_all is_digit (takeWhile is_digit s)"
    by (auto simp: list_all_iff dest: set_takeWhileD)
  ultimately show "\<exists>a. digits a \<and> s = a @ ''.'' @ rest" unfolding digits_def by blast
next
  assume "\<exists>a. digits a \<and> s = a @ ''.'' @ rest"
  then obtain a where a: "digits a" "s = a @ ''.'' @ rest" by blast
  then have "dropWhile is_digit s = ''.'' @ rest" "takeWhile is_digit s = a"
    by (simp_all add: digits_def list_all_iff)
  with a(1) show "digits_dot s = Some rest" by (simp add: digits_dot_def digits_def)
qed

lemma takeWhile_digits: "takeWhile is_digit s \<noteq> [] \<longleftrightarrow> (\<exists>c rest. digits c \<and> s = c @ rest)"
proof
  assume "takeWhile is_digit s \<noteq> []"
  then have "digits (takeWhile is_digit s)"
    by (auto simp: digits_def list_all_iff dest: set_takeWhileD)
  then show "\<exists>c rest. digits c \<and> s = c @ rest" by (metis takeWhile_dropWhile_id)
qed (auto simp: digits_def list_all_iff)

lemma versionRe_iff:
  "versionRe_MatchString s \<longleftrightarrow>
     (\<exists>a b c rest. digits a \<and> digits b \<and> digits c \<and> s = a @ ''.'' @ b @ ''.'' @ c @ rest)"
proof
  assume "versionRe_MatchString s"
  then obtain s1 s2 where "digits_dot s = Some s1" "digits_dot s1 = Some s2" "takeWhile is_digit s2 \<noteq> []"
    by (auto simp: versionRe_MatchString_def split: option.splits)
  then show "\<exists>a b c rest. digits a \<and> digits b \<and> digits c \<and> s = a @ ''.'' @ b @ ''.'' @ c @ rest"
    unfolding digits_dot_iff takeWhile_digits by fastforce
next
  assume "\<exists>a b c rest. digits a \<and> digits b \<and> digits c \<and> s = a @ ''.'' @ b @ ''.'' @ c @ rest"
  then obtain a b c rest where v: "digits a" "digits b" "digits c" "s = a @ ''.'' @ b @ ''.'' @ c @ rest"
    by blast
  then have "digits_dot s = Some (b @ ''.'' @ c @ rest)" "digits_dot (b @ ''.'' @ c @ rest) = Some (c @ rest)"
    "takeWhile is_digit (c @ rest) \<noteq> []"
    unfolding digits_dot_iff takeWhile_digits by blast+
  then show "versionRe_MatchString s" by (simp add: versionRe_MatchString_def)
qed

text \<open>The prefixes are trimmed one after the other: a lower-case v, then an upper-case one.\<close>

definition trimmed :: "string \<Rightarrow> string" where
  "trimmed v =
     (let w = (case v of c # cs \<Rightarrow> if c = CHR ''v'' then cs else v | [] \<Rightarrow> [])
      in case w of c # cs \<Rightarrow> if c = CHR ''V'' then cs else w | [] \<Rightarrow> [])"

lemma TrimPrefix_char: "TrimPrefix s [c] = (case s of x # xs \<Rightarrow> if x = c then xs else s | [] \<Rightarrow> [])"
  by (auto simp: TrimPrefix_def HasPrefix_def split: list.split)

text \<open>
  C37: A version is accepted exactly when, after one leading v and then one leading V are removed, it
  starts with three numbers separated by dots; the answer is the trimmed text, whatever follows the
  third number.
\<close>

theorem ValidateVersion_accepts:
  "ValidateVersion v = Inr w \<longleftrightarrow>
     w = trimmed v
   \<and> (\<exists>a b c rest. digits a \<and> digits b \<and> digits c \<and> w = a @ ''.'' @ b @ ''.'' @ c @ rest)"
proof -
  have "TrimPrefix (TrimPrefix v ''v'') ''V'' = trimmed v"
    by (simp only: TrimPrefix_char trimmed_def Let_def)
  then show ?thesis
    unfolding ValidateVersion_def Let_def versionRe_iff [symmetric] by auto
qed

section \<open>Loading\<close>

text \<open>
  C36: A text is loaded exactly when every document of it decodes and normalises; empty documents are
  skipped, the definitions of custom resources come first, the last one before the others, and all other
  objects follow in the order of the text.
\<close>

theorem LoadData_crds_first:
  "LoadData L content = Inr res \<longleftrightarrow>
     (\<exists>us. docs_of L (YamlDecode L content) = Some us
       \<and> res = rev (filter (is_crd_kind L) us) @ filter (\<lambda>u. \<not> is_crd_kind L u) us)"
  by (simp add: LoadData_def LoadData_loop_docs)

end
