(* ===== verification/Update_Chains.thy ===== *)
theory Update_Chains
  imports Fsm
begin

text \<open>
  The update states as a whole.  What one of them does to its object is a step of a small language,
  and a list of such steps leaves an object that the same list does not change any more: each
  step settles, and no step disturbs another.  The locale \<open>settling\<close> states this for any steps;
  it is interpreted on the steps of deployments and of network policies.
\<close>

section \<open>Steps that settle\<close>

locale settling =
  fixes step :: "'s \<Rightarrow> 'd \<Rightarrow> 'd \<Rightarrow> bool"
    and compatible :: "'s \<Rightarrow> 's \<Rightarrow> bool"
  assumes settles: "step a d d' \<Longrightarrow> step a d' d'"
    and undisturbed: "step a d d \<Longrightarrow> step b d d' \<Longrightarrow> compatible a b \<Longrightarrow> step a d' d'"
begin

inductive steps :: "'s list \<Rightarrow> 'd \<Rightarrow> 'd \<Rightarrow> bool" where
  Nil: "steps [] d d"
| Cons: "step a d d1 \<Longrightarrow> steps as d1 d' \<Longrightarrow> steps (a # as) d d'"

inductive_simps steps_simps [simp]: "steps [] d d'" "steps (a # as) d d'"

lemma steps_keep: "steps as d d' \<Longrightarrow> step a d d \<Longrightarrow> (\<And>b. b \<in> set as \<Longrightarrow> compatible a b) \<Longrightarrow> step a d' d'"
proof (induction rule: steps.induct)
  case (Cons b d d1 as d')
  have "compatible a b" by (rule Cons.prems(2)) simp
  then have "step a d1 d1" by (rule undisturbed [OF Cons.prems(1) Cons.hyps(1)])
  then show ?case by (rule Cons.IH) (rule Cons.prems(2), simp)
qed

lemma steps_all_settled:
  "steps as d d' \<Longrightarrow> (\<And>a b. a \<in> set as \<Longrightarrow> b \<in> set as \<Longrightarrow> compatible a b) \<Longrightarrow> a \<in> set as \<Longrightarrow> step a d' d'"
proof (induction rule: steps.induct)
  case (Cons b d d1 as d')
  show ?case
  proof (cases "a = b")
    case True
    have "step b d1 d1" using Cons.hyps(1) by (rule settles)
    then have "step b d' d'" by (rule steps_keep [OF Cons.hyps(2)]) (rule Cons.prems(1), simp_all)
    with True show ?thesis by simp
  next
    case False
    with Cons.prems(2) have "a \<in> set as" by simp
    then show ?thesis by (intro Cons.IH Cons.prems(1)) simp_all
  qed
qed simp

lemma settled_steps: "\<forall>a\<in>set as. step a d d \<Longrightarrow> steps as d d"
  by (induction as) auto

theorem steps_again:
  assumes "steps as d d'" "\<And>a b. a \<in> set as \<Longrightarrow> b \<in> set as \<Longrightarrow> compatible a b"
  shows "steps as d' d'"
  using steps_all_settled [OF assms] by (intro settled_steps) blast

end

section \<open>The steps on a deployment\<close>

text \<open>
  What the states of a chain do to a typed deployment.  An arguments step carries the function that
  rewrites the arguments of the first container.
\<close>

datatype dstep =
    SArgs "string list \<Rightarrow> string list"
  | SLabels IstioCfg
  | SAnnotations "smap option"
  | SPriority string
  | SResources json
  | SEnvs EnvVars

fun do_step :: "dstep \<Rightarrow> Deployment \<Rightarrow> Deployment go" where
  "do_step (SArgs f) d = container0 (\<lambda>c. c\<lparr>c_Args := f (c_Args c)\<rparr>) d"
| "do_step (SLabels x) d =
     (case d_TemplateLabels d of
        None \<Rightarrow> Panic ''assignment to entry in nil map''
      | Some f \<Rightarrow> Ret (d\<lparr>d_TemplateLabels := Some (fmupd ''sidecar.istio.io/inject''
            (FormatBool (istio_EnabledSidecarInjection x)) (with_common_labels f))\<rparr>))"
| "do_step (SAnnotations m) d =
     Ret (d\<lparr>d_TemplateAnnotations := Some (fmadd (non_nil (d_TemplateAnnotations d)) (non_nil m))\<rparr>)"
| "do_step (SPriority p) d = Ret (d\<lparr>d_PriorityClassName := p\<rparr>)"
| "do_step (SResources x) d = container0 (\<lambda>c. c\<lparr>c_Resources := x\<rparr>) d"
| "do_step (SEnvs v) d = container0 (\<lambda>c. c\<lparr>c_Env := EnvVars_Sanitize v\<rparr>) d"

fun kind_of :: "dstep \<Rightarrow> nat" where
  "kind_of (SArgs f) = 0"
| "kind_of (SLabels x) = 1"
| "kind_of (SAnnotations m) = 2"
| "kind_of (SPriority p) = 3"
| "kind_of (SResources x) = 4"
| "kind_of (SEnvs v) = 5"

fun stable :: "dstep \<Rightarrow> bool" where
  "stable (SArgs f) \<longleftrightarrow> (\<forall>xs. f (f xs) = f xs)"
| "stable _ \<longleftrightarrow> True"

definition compatible :: "dstep \<Rightarrow> dstep \<Rightarrow> bool" where
  "compatible a b \<longleftrightarrow> a = b \<or> kind_of a \<noteq> kind_of b"

text \<open>
  A step between normal forms: the converters drop empty maps between two states.
\<close>

definition dep_step :: "dstep \<Rightarrow> Deployment \<Rightarrow> Deployment \<Rightarrow> bool" where
  "dep_step a d d' \<longleftrightarrow> stable a \<and> (\<exists>d1. do_step a d = Ret d1 \<and> d' = omit_empty d1)"

lemma omit_empty_upd [simp]:
  "d_Containers (omit_empty d) = d_Containers d" "d_PriorityClassName (omit_empty d) = d_PriorityClassName d"
  "d_TemplateLabels (omit_empty d) = nil_if_empty (d_TemplateLabels d)"
  "d_TemplateAnnotations (omit_empty d) = nil_if_empty (d_TemplateAnnotations d)"
  "d_Name (omit_empty d) = d_Name d" "d_rest (omit_empty d) = d_rest d"
  "d_APIVersion (omit_empty d) = d_APIVersion d" "d_Namespace (omit_empty d) = d_Namespace d"
  by (simp_all add: omit_empty_def)

lemma dep_step_settles: "dep_step a d d' \<Longrightarrow> dep_step a d' d'"
  by (cases a)
     (auto simp: dep_step_def container0_Ret omit_empty_def with_common_labels_again
        split: option.splits)

text \<open>What a settled step says of the deployment, in the field it writes.\<close>

lemma omit_empty_iff: "omit_empty d = d \<longleftrightarrow>
    d_Labels d \<noteq> Some fmempty \<and> d_TemplateLabels d \<noteq> Some fmempty \<and> d_TemplateAnnotations d \<noteq> Some fmempty"
  by (cases d) (auto simp: omit_empty_def nil_if_empty_def)

definition normal :: "Deployment \<Rightarrow> bool" where
  "normal d \<longleftrightarrow> omit_empty d = d"

fun settled_field :: "dstep \<Rightarrow> Deployment \<Rightarrow> bool" where
  "settled_field (SArgs f) d \<longleftrightarrow> (case d_Containers d of [] \<Rightarrow> False | c # cs \<Rightarrow> f (c_Args c) = c_Args c)"
| "settled_field (SLabels x) d \<longleftrightarrow>
     (case d_TemplateLabels d of None \<Rightarrow> False
      | Some f \<Rightarrow> fmupd ''sidecar.istio.io/inject''
            (FormatBool (istio_EnabledSidecarInjection x)) (with_common_labels f) = f)"
| "settled_field (SAnnotations m) d \<longleftrightarrow>
     nil_if_empty (Some (fmadd (non_nil (d_TemplateAnnotations d)) (non_nil m))) = d_TemplateAnnotations d"
| "settled_field (SPriority p) d \<longleftrightarrow> d_PriorityClassName d = p"
| "settled_field (SResources x) d \<longleftrightarrow>
     (case d_Containers d of [] \<Rightarrow> False | c # cs \<Rightarrow> c_Resources c = x)"
| "settled_field (SEnvs v) d \<longleftrightarrow>
     (case d_Containers d of [] \<Rightarrow> False | c # cs \<Rightarrow> c_Env c = EnvVars_Sanitize v)"

lemma record_fixed:
  "d\<lparr>d_TemplateLabels := m\<rparr> = d \<longleftrightarrow> d_TemplateLabels d = m"
  "d\<lparr>d_TemplateAnnotations := m\<rparr> = d \<longleftrightarrow> d_TemplateAnnotations d = m"
  "d\<lparr>d_PriorityClassName := p\<rparr> = d \<longleftrightarrow> d_PriorityClassName d = p"
  "d\<lparr>d_Containers := cs\<rparr> = d \<longleftrightarrow> d_Containers d = cs"
  for d :: Deployment
  by (cases d; auto)+

lemma container_fixed:
  "c\<lparr>c_Args := a\<rparr> = c \<longleftrightarrow> c_Args c = a"
  "c\<lparr>c_Resources := x\<rparr> = c \<longleftrightarrow> c_Resources c = x"
  "c\<lparr>c_Env := v\<rparr> = c \<longleftrightarrow> c_Env c = v"
  for c :: Container
  by (cases c; auto)+

lemma omit_empty_normal: "normal d \<Longrightarrow> omit_empty (d\<lparr>d_Containers := cs\<rparr>) = d\<lparr>d_Containers := cs\<rparr>"
  "normal d \<Longrightarrow> omit_empty (d\<lparr>d_PriorityClassName := p\<rparr>) = d\<lparr>d_PriorityClassName := p\<rparr>"
  "normal d \<Longrightarrow> omit_empty (d\<lparr>d_TemplateLabels := m\<rparr>) = d\<lparr>d_TemplateLabels := nil_if_empty m\<rparr>"
  "normal d \<Longrightarrow> omit_empty (d\<lparr>d_TemplateAnnotations := m\<rparr>) = d\<lparr>d_TemplateAnnotations := nil_if_empty m\<rparr>"
  by (cases d; simp add: normal_def omit_empty_def)+

lemma dep_step_normal: "dep_step a d d' \<Longrightarrow> normal d'"
  by (auto simp: dep_step_def normal_def)

lemmas fixed_iff = record_fixed record_fixed [THEN eq_commute [THEN trans]]
  container_fixed container_fixed [THEN eq_commute [THEN trans]]

lemma dep_step_eq:
  "dep_step a d d' \<longleftrightarrow> stable a \<and> (case do_step a d of Ret d1 \<Rightarrow> d' = omit_empty d1 | Panic p \<Rightarrow> False)"
  by (auto simp: dep_step_def split: go.split)

lemma dep_step_self: "normal d \<Longrightarrow> dep_step a d d \<longleftrightarrow> stable a \<and> settled_field a d"
  by (cases a)
     (auto simp: dep_step_eq container0_def omit_empty_normal fixed_iff nil_if_empty_def
        split: list.split option.split if_splits)

lemma settled_field_kept:
  assumes "settled_field a d" "dep_step b d d'" "normal d" "kind_of a \<noteq> kind_of b"
  shows "settled_field a d'"
proof -
  obtain d1 where d1: "do_step b d = Ret d1" "d' = omit_empty d1"
    using assms(2) by (auto simp: dep_step_def)
  show ?thesis
    using assms(1,3,4) d1
    by (cases b; cases a)
       (auto simp: container0_Ret omit_empty_normal split: list.splits option.splits
          simp del: omit_empty_upd(3,4))
qed

interpretation dep: settling dep_step compatible
proof unfold_locales
  fix a d d'
  show "dep_step a d d' \<Longrightarrow> dep_step a d' d'" by (rule dep_step_settles)
next
  fix a b d d'
  assume a: "dep_step a d d" and b: "dep_step b d d'" and c: "compatible a b"
  have n: "normal d" "normal d'" using dep_step_normal a b by blast+
  show "dep_step a d' d'"
  proof (cases "a = b")
    case True
    with b show ?thesis using dep_step_settles by blast
  next
    case False
    with c have "kind_of a \<noteq> kind_of b" by (simp add: compatible_def)
    with a b n settled_field_kept [of a d b d'] show ?thesis by (simp add: dep_step_self)
  qed
qed

section \<open>The steps on an object\<close>

text \<open>A state converts its object, performs its step and converts back.\<close>

definition obj_step :: "k8s_lib \<Rightarrow> dstep \<Rightarrow> obj \<Rightarrow> obj \<Rightarrow> bool" where
  "obj_step L a u u' \<longleftrightarrow>
     (\<exists>d d1. FromDeployment L u = Inr d \<and> do_step a d = Ret d1 \<and> ToDeployment L d1 = Inr u')"

fun obj_steps :: "k8s_lib \<Rightarrow> dstep list \<Rightarrow> obj \<Rightarrow> obj \<Rightarrow> bool" where
  "obj_steps L [] u u' \<longleftrightarrow> u' = u"
| "obj_steps L (a # as) u u' \<longleftrightarrow> (\<exists>u1. obj_step L a u u1 \<and> obj_steps L as u1 u')"

lemma obj_step_From:
  "converter_doc L \<Longrightarrow> obj_step L a u u' \<Longrightarrow> \<exists>d. FromDeployment L u' = Inr (omit_empty d)"
  by (auto simp: obj_step_def converter_doc_def)

lemma obj_steps_typed:
  assumes doc: "converter_doc L" and st: "\<forall>a\<in>set as. stable a"
  shows "obj_steps L as u u' \<Longrightarrow> FromDeployment L u = Inr d \<Longrightarrow> as \<noteq> [] \<Longrightarrow>
    \<exists>d'. dep.steps as d d' \<and> ToDeployment L d' = Inr u' \<and> FromDeployment L u' = Inr d' \<and> normal d'"
  using st
proof (induction as arbitrary: u d)
  case (Cons a as)
  then obtain u1 d1 where s: "do_step a d = Ret d1" "ToDeployment L d1 = Inr u1" "obj_steps L as u1 u'"
    by (auto simp: obj_step_def)
  have f: "FromDeployment L u1 = Inr (omit_empty d1)" "ToDeployment L (omit_empty d1) = Inr u1"
    using doc s(2) by (auto simp: converter_doc_def)
  have d: "dep_step a d (omit_empty d1)" using s(1) Cons.prems(4) by (simp add: dep_step_def)
  show ?case
  proof (cases "as = []")
    case True
    with s f d show ?thesis by (auto simp: normal_def)
  next
    case False
    with Cons.IH [OF s(3) f(1)] Cons.prems(4) d show ?thesis by auto
  qed
qed simp

lemma obj_steps_again:
  assumes doc: "converter_doc L" and st: "\<forall>a\<in>set as. stable a"
    and co: "\<And>a b. a \<in> set as \<Longrightarrow> b \<in> set as \<Longrightarrow> compatible a b"
    and s: "obj_steps L as u u'"
  shows "obj_steps L as u' u'"
proof (cases "as = []")
  case False
  then obtain d where "FromDeployment L u = Inr d"
    using s by (cases as) (auto simp: obj_step_def)
  from obj_steps_typed [OF doc st s this False] obtain d' where
    d': "dep.steps as d d'" "ToDeployment L d' = Inr u'" "FromDeployment L u' = Inr d'" "normal d'" by blast
  have "obj_step L a u' u'" if "a \<in> set as" for a
  proof -
    have "dep_step a d' d'" by (rule dep.steps_all_settled [OF d'(1) co that])
    then obtain d1 where "do_step a d' = Ret d1" "d' = omit_empty d1" by (auto simp: dep_step_def)
    then show ?thesis using doc d'(2,3) unfolding obj_step_def converter_doc_def by metis
  qed
  then have "set bs \<subseteq> set as \<Longrightarrow> obj_steps L bs u' u'" for bs by (induction bs) auto
  then show ?thesis by blast
qed (use s in simp)

end
