(* ===== verification/Object_Identity.thy ===== *)
theory Object_Identity
  imports K8s_Lib
begin

text \<open>
  What identifies an object on the cluster: its version and kind, its name and its namespace.
\<close>

section \<open>The identity of an object\<close>

definition resource_id :: "k8s_lib \<Rightarrow> obj \<Rightarrow> string \<times> string \<times> string \<times> string" where
  "resource_id L u = (GetAPIVersion L u, GetKind L u, GetName L u, GetNamespace L u)"

abbreviation "identifying \<equiv>
  {[''apiVersion''], [''kind''], [''metadata'', ''name''], [''metadata'', ''namespace'']}"

definition alike :: "obj \<Rightarrow> obj \<Rightarrow> bool" where
  "alike u u' \<longleftrightarrow> (\<forall>p \<in> identifying. str_at u' p = str_at u p)"

lemma alike_refl [simp]: "alike u u"
  by (simp add: alike_def)

lemma alike_trans [trans]: "alike u v \<Longrightarrow> alike v w \<Longrightarrow> alike u w"
  by (simp add: alike_def)

lemma alike_put [simp]: "\<forall>q \<in> identifying. fork p q \<Longrightarrow> alike u (put u v p)"
  by (simp add: alike_def str_at_put_fork)

lemma alike_id: "unstructured_doc L \<Longrightarrow> alike u u' \<Longrightarrow> resource_id L u' = resource_id L u"
  by (simp add: resource_id_def alike_def unstructured_doc_def)

end
