(* ===== verification/Stability.thy ===== *)
theory Stability
  imports Update_Chains Ref_Lib Object_Identity
begin

text \<open>
  The configuration of the module's objects is stable: the phase of a run from
  \<open>sFnUpdateKedaDeployment\<close> to \<open>sFnApply\<close>, repeated on the objects it left behind, changes nothing.
  \<open>reaches\<close> is the step relation of the machine; each stage of the phase is characterised by the
  steps of \<open>Update_Chains\<close> on one object.
\<close>

section \<open>Reaching a state\<close>

type_synonym config = "stateFn \<times> fsm \<times> systemState"

inductive reaches :: "k8s_lib \<Rightarrow> env \<Rightarrow> config \<Rightarrow> config \<Rightarrow> bool" for L E where
  here: "reaches L E c c"
| next_state: "exec L E fn r s = (Ret (Some fn', x, None), r', s') \<Longrightarrow> reaches L E (fn', r', s') c \<Longrightarrow>
     reaches L E (fn, r, s) c"

lemma reaches_rank:
  "reaches L E c c' \<Longrightarrow> c = c' \<or> rank (fst c') < rank (fst c)"
  by (induction rule: reaches.induct) (auto dest: exec_rank)

lemma reaches_trans: "reaches L E a b \<Longrightarrow> reaches L E b c \<Longrightarrow> reaches L E a c"
  by (induction rule: reaches.induct) (auto intro: reaches.next_state)

text \<open>A state of higher rank than the goal takes a step; a state of no higher rank is the goal.\<close>

lemma reaches_down:
  assumes "rank (fst c) < rank fn"
  shows "reaches L E (fn, r, s) c \<longleftrightarrow>
    (\<exists>fn1 x r1 s1. exec L E fn r s = (Ret (Some fn1, x, None), r1, s1) \<and> reaches L E (fn1, r1, s1) c)"
  using assms by (auto elim: reaches.cases intro: reaches.next_state)

lemma reaches_low: "rank fn \<le> rank (fst c) \<Longrightarrow> reaches L E (fn, r, s) c \<longleftrightarrow> c = (fn, r, s)"
  using reaches_rank [of L E "(fn, r, s)" c] by (auto intro: reaches.here)

lemma reaches_UpdateStatus: "2 < rank (fst c) \<Longrightarrow> \<not> reaches L E (SFnUpdateStatus x e, r, s) c"
  using reaches_low [of "SFnUpdateStatus x e" c L E r s] by auto

section \<open>Stages\<close>

text \<open>
  From \<open>fn\<close> the machine reaches a goal behind \<open>tgt\<close> exactly by performing the steps on the object \<open>u\<close>,
  which changes the instance by \<open>share\<close>, and going on from \<open>tgt\<close>.
\<close>

definition stage ::
  "k8s_lib \<Rightarrow> env \<Rightarrow> stateFn \<Rightarrow> nat \<Rightarrow> (Keda \<Rightarrow> dstep list) \<Rightarrow> (Keda \<Rightarrow> Keda) \<Rightarrow> stateFn \<Rightarrow> bool" where
  "stage L E fn u as share tgt \<longleftrightarrow>
     (\<forall>r s c. u < length (f_Objs r) \<longrightarrow> 2 < rank (fst c) \<longrightarrow> rank (fst c) \<le> rank tgt \<longrightarrow>
        (reaches L E (fn, r, s) c \<longleftrightarrow>
           (\<exists>ob. obj_steps L (as (s_instance s)) (f_Objs r ! u) ob
              \<and> reaches L E (tgt, r\<lparr>f_Objs := (f_Objs r)[u := ob]\<rparr>,
                  set_instance (share (s_instance s)) s) c)))"

lemma stageD:
  "stage L E fn u as share tgt \<Longrightarrow> u < length (f_Objs r) \<Longrightarrow> 2 < rank (fst c) \<Longrightarrow>
   rank (fst c) \<le> rank tgt \<Longrightarrow>
   reaches L E (fn, r, s) c \<longleftrightarrow>
     (\<exists>ob. obj_steps L (as (s_instance s)) (f_Objs r ! u) ob
        \<and> reaches L E (tgt, r\<lparr>f_Objs := (f_Objs r)[u := ob]\<rparr>, set_instance (share (s_instance s)) s) c)"
  unfolding stage_def by blast

lemma set_instance_same [simp]: "set_instance (s_instance s) s = s"
  by (simp add: set_instance_def)

lemma stage_end: "stage L E tgt u (\<lambda>k. []) (\<lambda>k. k) tgt"
  by (auto simp: stage_def)

definition opt :: "('x \<Rightarrow> dstep) \<Rightarrow> 'x option \<Rightarrow> dstep list" where
  "opt f x = (case x of None \<Rightarrow> [] | Some y \<Rightarrow> [f y])"

definition seen :: "('x \<Rightarrow> 'x) \<Rightarrow> ('x \<Rightarrow> Keda \<Rightarrow> Keda) \<Rightarrow> 'x option \<Rightarrow> Keda \<Rightarrow> Keda" where
  "seen g share x k = (case x of None \<Rightarrow> k | Some y \<Rightarrow> share (g y) k)"

text \<open>An updater performs the step \<open>f\<close> of its data and leaves the data \<open>g\<close> of it.\<close>

definition performs :: "(Deployment, 'x) update \<Rightarrow> ('x \<Rightarrow> dstep) \<Rightarrow> ('x \<Rightarrow> 'x) \<Rightarrow> bool" where
  "performs upd f g \<longleftrightarrow> (\<forall>d x. upd d x = go_bind (do_step (f x) d) (\<lambda>d'. Ret (None, d', g x)))"

lemma performs_updateObj:
  assumes "performs upd f g"
  shows "updateObj (deployment_conv L) ob x upd = Ret (None, ob', y) \<longleftrightarrow> obj_step L (f x) ob ob' \<and> y = g x"
  using assms
  by (auto simp: updateObj_def obj_step_def deployment_conv_def performs_def go_bind_Ret_iff
      split: sum.splits go.splits option.splits prod.splits)

abbreviation "built L u upd getData share next \<equiv>
  buildSfnUpdateObject (deployment_conv L) u upd getData share next"

lemma exec_built_skip:
  "getData (s_instance s) = None \<Longrightarrow>
   exec L E (built L u upd getData share next) r s = (Ret (Some next, None, None), r, s)"
  by (simp add: buildSfnUpdateObject_def sFnUpdateObject_def stop_defs)

lemma exec_built_ok:
  "getData (s_instance s) = Some x \<Longrightarrow> performs upd f g \<Longrightarrow> obj_step L (f x) (f_Objs r ! u) ob \<Longrightarrow>
   exec L E (built L u upd getData share next) r s =
     (Ret (Some next, None, None), r\<lparr>f_Objs := (f_Objs r)[u := ob]\<rparr>,
      set_instance (share (g x) (s_instance s)) s)"
  using performs_updateObj [of upd f g L "f_Objs r ! u" x ob "g x"]
  by (simp add: buildSfnUpdateObject_def sFnUpdateObject_def stop_defs Let_def)

text \<open>Otherwise the state panics or stops with an error.\<close>

lemma exec_built_fails:
  assumes "getData (s_instance s) = Some x" "performs upd f g" "\<nexists>ob. obj_step L (f x) (f_Objs r ! u) ob"
    and "exec L E (built L u upd getData share next) r s = (Ret (Some fn', z, None), r', s')"
  shows "\<exists>e. fn' = SFnUpdateStatus None e"
proof (cases "updateObj (deployment_conv L) (f_Objs r ! u) x upd")
  case (Panic p)
  with assms(1,4) show ?thesis by (simp add: buildSfnUpdateObject_def sFnUpdateObject_def)
next
  case (Ret y)
  obtain e ob x' where y: "y = (e, ob, x')" by (cases y) auto
  have "e \<noteq> None"
    using performs_updateObj [OF assms(2), of L "f_Objs r ! u" x ob x'] assms(3) Ret y by auto
  with Ret y assms(1,4) show ?thesis
    by (auto simp: buildSfnUpdateObject_def sFnUpdateObject_def stop_defs Let_def)
qed

lemma stage_built:
  assumes p: "performs upd f g" and st: "stage L E next u as sh tgt" and rk: "rank tgt \<le> rank next"
  shows "stage L E (built L u upd getData share next) u
    (\<lambda>k. opt f (getData k) @ as (seen g share (getData k) k)) (\<lambda>k. sh (seen g share (getData k) k)) tgt"
  unfolding stage_def
proof (intro allI impI)
  fix r :: fsm and s :: systemState and c :: config
  assume u: "u < length (f_Objs r)" and c: "2 < rank (fst c)" "rank (fst c) \<le> rank tgt"
  let ?k = "s_instance s" and ?fn = "built L u upd getData share next"
  have rank: "rank (fst c) < rank ?fn" using rk c by (simp add: buildSfnUpdateObject_def)
  show "reaches L E (?fn, r, s) c \<longleftrightarrow>
      (\<exists>ob. obj_steps L (opt f (getData ?k) @ as (seen g share (getData ?k) ?k)) (f_Objs r ! u) ob
        \<and> reaches L E (tgt, r\<lparr>f_Objs := (f_Objs r)[u := ob]\<rparr>,
            set_instance (sh (seen g share (getData ?k) ?k)) s) c)"
  proof (cases "getData ?k")
    case None
    with u c show ?thesis
      by (simp add: reaches_down [OF rank] exec_built_skip stageD [OF st] opt_def seen_def)
  next
    case (Some x)
    show ?thesis
    proof (cases "\<exists>ob. obj_step L (f x) (f_Objs r ! u) ob")
      case True
      then obtain ob where o: "obj_step L (f x) (f_Objs r ! u) ob" by blast
      have eq: "obj_step L (f x) (f_Objs r ! u) ob' \<longleftrightarrow> ob' = ob" for ob'
        using o by (auto simp: obj_step_def)
      have ex: "exec L E ?fn r s = (Ret (Some next, None, None), r\<lparr>f_Objs := (f_Objs r)[u := ob]\<rparr>,
          set_instance (share (g x) ?k) s)"
        by (rule exec_built_ok [where f = f and x = x and getData = getData and s = s and r = r and u = u,
              OF Some p o])
      from u c show ?thesis
        by (simp add: reaches_down [OF rank] ex stageD [OF st] opt_def seen_def Some eq)
    next
      case False
      then have "\<not> reaches L E (?fn, r, s) c"
        using exec_built_fails [where f = f and x = x and getData = getData and s = s, OF Some p]
          reaches_UpdateStatus [OF c(1)]
        unfolding reaches_down [OF rank] by blast
      with False Some show ?thesis by (simp add: opt_def)
    qed
  qed
qed

section \<open>The three chains\<close>

definition logging_args :: "LoggingCommonCfg \<Rightarrow> string list \<Rightarrow> string list" where
  "logging_args c xs = (let args = map (UpdateArg c) xs in args @ AppendMissingArgs c args)"

lemma logging_args_again: "logging_args c (logging_args c xs) = logging_args c xs"
  by (simp only: logging_args_def Let_def logging_cfg.configure_idem [OF refl])

lemma performs_args:
  "performs updateKedaOperatorContainer0Args (\<lambda>c. SArgs (logging_args (LoggingCommonCfg_Sanitize c)))
     LoggingCommonCfg_Sanitize"
  "performs updateKedaAdmissionWebhooksContainer0Args (\<lambda>c. SArgs (logging_args (LoggingCommonCfg_Sanitize c)))
     LoggingCommonCfg_Sanitize"
  "performs updateKedaMetricsServerContainer0Args (\<lambda>c. SArgs (metrics_args (LoggingCommonCfg_Sanitize c)))
     LoggingCommonCfg_Sanitize"
  by (simp_all add: performs_def updateKedaOperatorContainer0Args_def webhooks_args_eq Let_def
      updateDeploymentContainer0Args_def logging_args_def updateKedaMetricsServerContainer0Args_eq)

lemma performs_fields:
  "performs updateDeploymentLabels SLabels (\<lambda>x. x)"
  "performs updateDeploymentAnnotations SAnnotations (\<lambda>x. x)"
  "performs updateDeploymentPriorityClass SPriority (\<lambda>x. x)"
  "performs updateKedaContanier0Resources SResources (\<lambda>x. x)"
  "performs updateKedaContanierEnvs SEnvs (\<lambda>x. x)"
  by (auto simp: performs_def updateDeploymentLabels_def setCommonLabels_simps map_put_def
      updateDeploymentAnnotations_def updateDeploymentPriorityClass_def
      updateKedaContanier0Resources_def updateKedaContanierEnvs_def split: option.split)

definition operator_steps :: "Keda \<Rightarrow> dstep list" where
  "operator_steps k =
     opt (\<lambda>c. SArgs (logging_args (LoggingCommonCfg_Sanitize c))) (loggingOperatorCfg k)
     @ opt SLabels (istioOperatorCfg k) @ opt SAnnotations (podAnnotationsOperatorCfg k)
     @ opt SPriority (priorityClassName k) @ opt SResources (operatorResources k) @ opt SEnvs (envVars k)"

definition metrics_steps :: "Keda \<Rightarrow> dstep list" where
  "metrics_steps k =
     opt (\<lambda>c. SArgs (metrics_args (LoggingCommonCfg_Sanitize c))) (loggingMetricsSrvCfg k)
     @ opt SLabels (istioMetricServerCfg k) @ opt SAnnotations (podAnnotationsMetricsServerCfg k)
     @ opt SPriority (priorityClassName k) @ opt SResources (metricsSvrResources k) @ opt SEnvs (envVars k)"

definition webhooks_steps :: "Keda \<Rightarrow> dstep list" where
  "webhooks_steps k =
     opt (\<lambda>c. SArgs (logging_args (LoggingCommonCfg_Sanitize c))) (loggingAdmissionWebhookCfg k)
     @ opt SLabels (disabledIstioSidecar k) @ opt SAnnotations (podAnnotationsAdmissionWebhookCfg k)
     @ opt SResources (admissionWebhookResources k) @ opt SPriority (priorityClassName k)"

lemma seen_unshared [simp]: "seen g unshared x k = k"
  by (simp add: seen_def unshared_def split: option.split)

definition shared_operator :: "Keda \<Rightarrow> Keda" where
  "shared_operator k = seen LoggingCommonCfg_Sanitize share_operator (loggingOperatorCfg k) k"

definition shared_metrics :: "Keda \<Rightarrow> Keda" where
  "shared_metrics k = seen LoggingCommonCfg_Sanitize share_metrics (loggingMetricsSrvCfg k) k"

definition shared_webhook :: "Keda \<Rightarrow> Keda" where
  "shared_webhook k = seen LoggingCommonCfg_Sanitize share_webhook (loggingAdmissionWebhookCfg k) k"

lemmas data_defs = istioOperatorCfg_def istioMetricServerCfg_def podAnnotationsOperatorCfg_def
  podAnnotationsMetricsServerCfg_def podAnnotationsAdmissionWebhookCfg_def priorityClassName_def
  operatorResources_def metricsSvrResources_def admissionWebhookResources_def envVars_def
  disabledIstioSidecar_def

text \<open>The data of the other states does not depend on the logging configuration.\<close>

definition other_data where
  "other_data k = (istioOperatorCfg k, istioMetricServerCfg k, podAnnotationsOperatorCfg k,
     podAnnotationsMetricsServerCfg k, podAnnotationsAdmissionWebhookCfg k, priorityClassName k,
     operatorResources k, metricsSvrResources k, admissionWebhookResources k, envVars k,
     disabledIstioSidecar k)"

lemma map_logging_data: "other_data (map_logging f k) = other_data k"
  by (simp add: other_data_def data_defs map_logging_def split: option.split)

lemma seen_cases:
  "\<exists>f. seen g share_operator x k \<in> {k, map_logging f k}"
  "\<exists>f. seen g share_metrics x k \<in> {k, map_logging f k}"
  "\<exists>f. seen g share_webhook x k \<in> {k, map_logging f k}"
  by (auto simp: seen_def share_operator_def share_metrics_def share_webhook_def split: option.split)

lemma seen_data:
  "other_data (seen g share_operator x k) = other_data k"
  "other_data (seen g share_metrics x k) = other_data k"
  "other_data (seen g share_webhook x k) = other_data k"
  using seen_cases [of g x k] map_logging_data by (metis empty_iff insert_iff)+

text \<open>A state that shares nothing with the instance, and the last one of a chain.\<close>

lemma stage_field:
  "performs upd f (\<lambda>x. x) \<Longrightarrow> rank tgt \<le> rank next \<Longrightarrow> stage L E next u as sh tgt \<Longrightarrow>
   stage L E (built L u upd getData unshared next) u (\<lambda>k. opt f (getData k) @ as k) sh tgt"
  using stage_built [of upd f "\<lambda>x. x" L E "next" u as sh tgt getData unshared] by simp

lemma stage_last:
  "performs upd f (\<lambda>x. x) \<Longrightarrow>
   stage L E (built L u upd getData unshared tgt) u (\<lambda>k. opt f (getData k)) (\<lambda>k. k) tgt"
  using stage_field [OF _ _ stage_end, of upd f tgt L E u getData] by simp

lemmas stage_rules = stage_field stage_last performs_fields

lemma stage_operator:
  "stage L E (buildSfnUpdateOperatorLogging L u) u operator_steps shared_operator
     SFnUpdateMetricsServerDeployment"
proof -
  let ?as = "\<lambda>k. opt SLabels (istioOperatorCfg k) @ opt SAnnotations (podAnnotationsOperatorCfg k)
     @ opt SPriority (priorityClassName k) @ opt SResources (operatorResources k) @ opt SEnvs (envVars k)"
  have "stage L E (buildSfnUpdateOperatorLabels L u) u ?as (\<lambda>k. k) SFnUpdateMetricsServerDeployment"
    unfolding buildSfnUpdateOperatorLabels_def buildSfnUpdateOperatorAnnotations_def
      buildSfnUpdateOperatorPriorityClass_def buildSfnUpdateOperatorResources_def
      buildSfnUpdateOperatorEnvs_def
    by (intro stage_rules; simp add: buildSfnUpdateObject_def)
  from stage_built [OF performs_args(1) this, of loggingOperatorCfg share_operator]
    seen_data(1) [of LoggingCommonCfg_Sanitize]
  show ?thesis
    by (simp add: build_defs operator_steps_def [abs_def] shared_operator_def [abs_def] other_data_def)
qed

lemma stage_metrics:
  "stage L E (buildSfnUpdateMetricsSvrLogging L u) u metrics_steps shared_metrics
     SFnUpdateAdmissionWebhooksDeployment"
proof -
  let ?as = "\<lambda>k. opt SLabels (istioMetricServerCfg k) @ opt SAnnotations (podAnnotationsMetricsServerCfg k)
     @ opt SPriority (priorityClassName k) @ opt SResources (metricsSvrResources k) @ opt SEnvs (envVars k)"
  have "stage L E (buildSfnUpdateMetricsSvrLabels L u) u ?as (\<lambda>k. k) SFnUpdateAdmissionWebhooksDeployment"
    unfolding buildSfnUpdateMetricsSvrLabels_def buildSfnUpdateMetricsSvrAnnotations_def
      buildSfnUpdateMetricsSvrPriorityClass_def buildSfnUpdateMetricsSvrResources_def
      buildSfnUpdateMetricsSvrEnvVars_def
    by (intro stage_rules; simp add: buildSfnUpdateObject_def)
  from stage_built [OF performs_args(3) this, of loggingMetricsSrvCfg share_metrics]
    seen_data(2) [of LoggingCommonCfg_Sanitize]
  show ?thesis
    by (simp add: build_defs metrics_steps_def [abs_def] shared_metrics_def [abs_def] other_data_def)
qed

lemma stage_webhooks:
  "stage L E (buildSfnUpdateAdmissionWebhooksLogging L u) u webhooks_steps shared_webhook
     SFnUpdateAdmissionWebhooksNetworkPolicy"
proof -
  let ?as = "\<lambda>k. opt SLabels (disabledIstioSidecar k)
     @ opt SAnnotations (podAnnotationsAdmissionWebhookCfg k)
     @ opt SResources (admissionWebhookResources k) @ opt SPriority (priorityClassName k)"
  have "stage L E (buildSfnUpdateAdmissionWebhooksLabels L u) u ?as (\<lambda>k. k)
      SFnUpdateAdmissionWebhooksNetworkPolicy"
    unfolding buildSfnUpdateAdmissionWebhooksLabels_def buildSfnUpdateAdmissionWebhooksAnnotations_def
      buildSfnUpdateAdmissionWebhooksResources_def buildSfnUpdateAdmissionWebhooksPriorityClass_def
    by (intro stage_rules; simp add: buildSfnUpdateObject_def)
  from stage_built [OF performs_args(2) this, of loggingAdmissionWebhookCfg share_webhook]
    seen_data(3) [of LoggingCommonCfg_Sanitize]
  show ?thesis
    by (simp add: build_defs webhooks_steps_def [abs_def] shared_webhook_def [abs_def] other_data_def)
qed

section \<open>The network policy\<close>

definition policy_step :: "k8s_lib \<Rightarrow> string \<Rightarrow> obj \<Rightarrow> obj \<Rightarrow> bool" where
  "policy_step L addr u u' \<longleftrightarrow>
     (\<exists>p is. FromNetworkPolicy L u = Inr p \<and> update_ingress addr (np_Ingress p) = Ret is
        \<and> ToNetworkPolicy L (p\<lparr>np_Ingress := is\<rparr>) = Inr u')"

lemma policy_step_again: "converter_doc L \<Longrightarrow> policy_step L addr u u' \<Longrightarrow> policy_step L addr u' u'"
  by (fastforce simp: policy_step_def converter_doc_def dest: update_ingress_again)

lemma updateObj_policy:
  "updateObj (network_policy_conv L) u addr updateAdmissionWebhooksNetworkPolicy = Ret (None, u', y)
     \<longleftrightarrow> policy_step L addr u u' \<and> y = addr"
  by (auto simp: updateObj_def network_policy_conv_def updateAdmissionWebhooksNetworkPolicy_def
      policy_step_def go_bind_Ret_iff split: sum.splits go.splits option.splits prod.splits)

lemma reaches_policy:
  "reaches L E (SFnUpdateAdmissionWebhooksNetworkPolicy, r, s) (SFnApply, r', s') \<longleftrightarrow>
     (\<exists>u ob. firstUnstructed (isAddmissionWebhookNetworkPolicy L) (f_Objs r) = Inr u
        \<and> policy_step L (f_APIServerIP r @ ''/32'') (f_Objs r ! u) ob
        \<and> r' = r\<lparr>f_Objs := (f_Objs r)[u := ob]\<rparr> \<and> s' = s)"
proof -
  let ?addr = "f_APIServerIP r @ ''/32''"
  let ?fn = "\<lambda>u. buildSfnUpdateObject (network_policy_conv L) u updateAdmissionWebhooksNetworkPolicy
      (networkPolicyAPIServerAddress ?addr) unshared SFnApply"
  have step: "reaches L E (?fn u, r, s) (SFnApply, r', s') \<longleftrightarrow>
      (\<exists>ob. policy_step L ?addr (f_Objs r ! u) ob \<and> r' = r\<lparr>f_Objs := (f_Objs r)[u := ob]\<rparr> \<and> s' = s)" for u
  proof -
    have rk: "rank (fst (SFnApply, r', s')) < rank (?fn u)" by (simp add: buildSfnUpdateObject_def)
    show ?thesis
    proof (cases "updateObj (network_policy_conv L) (f_Objs r ! u) ?addr updateAdmissionWebhooksNetworkPolicy")
      case (Panic p)
      then have "\<not> policy_step L ?addr (f_Objs r ! u) ob" for ob
        using updateObj_policy [of L "f_Objs r ! u" ?addr ob ?addr] by simp
      with Panic show ?thesis
        unfolding reaches_down [OF rk]
        by (simp add: buildSfnUpdateObject_def sFnUpdateObject_def networkPolicyAPIServerAddress_def)
    next
      case (Ret z)
      obtain e ob y where z: "z = (e, ob, y)" by (cases z) auto
      have p: "policy_step L ?addr (f_Objs r ! u) ob' \<longleftrightarrow> e = None \<and> ob' = ob" for ob'
        using updateObj_policy [of L "f_Objs r ! u" ?addr ob' ?addr]
          updateObj_policy [of L "f_Objs r ! u" ?addr ob y] Ret z by auto
      show ?thesis
        unfolding reaches_down [OF rk]
        by (cases e)
           (auto simp: Ret z p buildSfnUpdateObject_def sFnUpdateObject_def Let_def stop_defs
              networkPolicyAPIServerAddress_def unshared_def reaches_low reaches_UpdateStatus)
    qed
  qed
  show ?thesis
    by (subst reaches_down)
       (auto simp: sfnUpdateAdmissionWebhooksNetworkPolicy_def step stop_defs reaches_UpdateStatus
          split: sum.splits)
qed

section \<open>The first object with a property\<close>

text \<open>One object of a list, the first with the property, is replaced by one related to it.\<close>

type_synonym ostep = "(obj \<Rightarrow> bool) \<times> (obj \<Rightarrow> obj \<Rightarrow> bool)"

definition upd_first :: "ostep \<Rightarrow> obj list \<Rightarrow> obj list \<Rightarrow> bool" where
  "upd_first a us us' \<longleftrightarrow>
     (\<exists>i ob. firstUnstructed (fst a) us = Inr i \<and> snd a (us ! i) ob \<and> us' = us[i := ob])"

definition keeps :: "ostep \<Rightarrow> (obj \<Rightarrow> bool) \<Rightarrow> bool" where
  "keeps a q \<longleftrightarrow> (\<forall>u u'. fst a u \<longrightarrow> snd a u u' \<longrightarrow> q u' = q u)"

definition settling_step :: "ostep \<Rightarrow> bool" where
  "settling_step a \<longleftrightarrow> keeps a (fst a) \<and> (\<forall>u u'. snd a u u' \<longrightarrow> snd a u' u')"

definition list_step :: "ostep \<Rightarrow> obj list \<Rightarrow> obj list \<Rightarrow> bool" where
  "list_step a us us' \<longleftrightarrow> settling_step a \<and> upd_first a us us'"

definition list_compatible :: "ostep \<Rightarrow> ostep \<Rightarrow> bool" where
  "list_compatible a b \<longleftrightarrow> a = b \<or> keeps b (fst a) \<and> (\<forall>u. \<not> (fst a u \<and> fst b u))"

lemma first_index_map: "map p us = map p vs \<Longrightarrow> first_index p us = first_index p vs"
  by (induction us vs rule: list_induct2') auto

lemma upd_first_keeps:
  assumes "upd_first b us us'" "keeps b q"
  shows "firstUnstructed q us' = firstUnstructed q us"
proof -
  obtain i ob where i: "firstUnstructed (fst b) us = Inr i" "snd b (us ! i) ob" "us' = us[i := ob]"
    using assms(1) unfolding upd_first_def by blast
  have l: "i < length us" "fst b (us ! i)" using firstUnstructed_Inr [OF i(1)] by simp_all
  then have "q ob = q (us ! i)" using assms(2) i(2) unfolding keeps_def by blast
  then have "map q us' = map q us"
    using l(1) by (simp add: i(3) map_update list_update_same_conv)
  from first_index_map [OF this] show ?thesis unfolding firstUnstructed_def by simp
qed

lemma list_stepI:
  "settling_step a \<Longrightarrow> firstUnstructed (fst a) us = Inr i \<Longrightarrow> snd a (us ! i) (us ! i) \<Longrightarrow> list_step a us us"
  unfolding list_step_def upd_first_def by (metis list_update_id)

lemma list_step_settles:
  assumes a: "list_step a us us'"
  shows "list_step a us' us'"
proof -
  have st: "settling_step a" and u: "upd_first a us us'" using a by (simp_all add: list_step_def)
  obtain i ob where i: "firstUnstructed (fst a) us = Inr i" "snd a (us ! i) ob" "us' = us[i := ob]"
    using u unfolding upd_first_def by blast
  have "keeps a (fst a)" "snd a ob ob" using st i(2) unfolding settling_step_def by blast+
  moreover have "us' ! i = ob" using firstUnstructed_Inr [OF i(1)] i(3) by simp
  ultimately show ?thesis
    using list_stepI [OF st, of us' i] upd_first_keeps [OF u] i(1) by simp
qed

interpretation objects: settling list_step list_compatible
proof unfold_locales
  fix a us us'
  show "list_step a us us' \<Longrightarrow> list_step a us' us'" by (rule list_step_settles)
next
  fix a b us us'
  assume a: "list_step a us us" and b: "list_step b us us'" and c: "list_compatible a b"
  show "list_step a us' us'"
  proof (cases "a = b")
    case True
    with b show ?thesis using list_step_settles by simp
  next
    case False
    then have c: "keeps b (fst a)" "\<not> (fst a u \<and> fst b u)" for u
      using c by (simp_all add: list_compatible_def)
    obtain i ob where i: "firstUnstructed (fst a) us = Inr i" "snd a (us ! i) ob" "us = us[i := ob]"
      using a unfolding list_step_def upd_first_def by blast
    have u: "upd_first b us us'" using b by (simp add: list_step_def)
    then obtain j ob' where j: "firstUnstructed (fst b) us = Inr j" "us' = us[j := ob']"
      unfolding upd_first_def by blast
    note fi = firstUnstructed_Inr [OF i(1)] and fj = firstUnstructed_Inr [OF j(1)]
    have "i \<noteq> j" using fi fj c(2) by blast
    moreover have "us ! i = ob" using i(3) fi by (metis nth_list_update_eq)
    ultimately have "us' ! i = ob" "snd a ob ob" using j(2) i(2) by simp_all
    then show ?thesis
      using list_stepI [of a us' i] a upd_first_keeps [OF u c(1)] i(1) by (simp add: list_step_def)
  qed
qed

section \<open>The configuration phase\<close>

definition operator_update :: "k8s_lib \<Rightarrow> Keda \<Rightarrow> ostep" where
  "operator_update L k = (isKedaOperatorDeployment L, obj_steps L (operator_steps k))"

definition metrics_update :: "k8s_lib \<Rightarrow> Keda \<Rightarrow> ostep" where
  "metrics_update L k = (isKedaMatricsServerDeployment L, obj_steps L (metrics_steps k))"

definition webhooks_update :: "k8s_lib \<Rightarrow> Keda \<Rightarrow> ostep" where
  "webhooks_update L k = (isAdmissionWebhooksDeployment L, obj_steps L (webhooks_steps k))"

definition policy_update :: "k8s_lib \<Rightarrow> string \<Rightarrow> ostep" where
  "policy_update L ip = (isAddmissionWebhookNetworkPolicy L, policy_step L (ip @ ''/32''))"

lemma reaches_operator:
  assumes "2 < rank (fst c)" "rank (fst c) \<le> 22"
  shows "reaches L E (SFnUpdateKedaDeployment, r, s) c \<longleftrightarrow>
    (\<exists>us. upd_first (operator_update L (s_instance s)) (f_Objs r) us
       \<and> reaches L E (SFnUpdateMetricsServerDeployment, r\<lparr>f_Objs := us\<rparr>,
           set_instance (shared_operator (s_instance s)) s) c)"
proof -
  have rk: "rank (fst c) < rank SFnUpdateKedaDeployment" using assms by simp
  show ?thesis
  proof (cases "firstUnstructed (isKedaOperatorDeployment L) (f_Objs r)")
    case (Inl e)
    then show ?thesis
      by (simp add: reaches_down [OF rk] sFnUpdateKedaDeployment_def kedaOperatorDeployment_def stop_defs
          reaches_UpdateStatus [OF assms(1)] upd_first_def operator_update_def)
  next
    case (Inr u)
    with firstUnstructed_Inr [OF Inr] assms show ?thesis
      by (auto simp: reaches_down [OF rk] sFnUpdateKedaDeployment_def kedaOperatorDeployment_def stop_defs
          upd_first_def operator_update_def stageD [OF stage_operator])
  qed
qed

lemma reaches_metrics:
  assumes "2 < rank (fst c)" "rank (fst c) \<le> 15"
  shows "reaches L E (SFnUpdateMetricsServerDeployment, r, s) c \<longleftrightarrow>
    (\<exists>us. upd_first (metrics_update L (s_instance s)) (f_Objs r) us
       \<and> reaches L E (SFnUpdateAdmissionWebhooksDeployment, r\<lparr>f_Objs := us\<rparr>,
           set_instance (shared_metrics (s_instance s)) s) c)"
proof -
  have rk: "rank (fst c) < rank SFnUpdateMetricsServerDeployment" using assms by simp
  show ?thesis
  proof (cases "firstUnstructed (isKedaMatricsServerDeployment L) (f_Objs r)")
    case (Inl e)
    then show ?thesis
      by (simp add: reaches_down [OF rk] sFnUpdateMetricsServerDeployment_def stop_defs
          kedaMetricsServerDeployment_def reaches_UpdateStatus [OF assms(1)] upd_first_def metrics_update_def)
  next
    case (Inr u)
    with firstUnstructed_Inr [OF Inr] assms show ?thesis
      by (auto simp: reaches_down [OF rk] sFnUpdateMetricsServerDeployment_def stop_defs
          kedaMetricsServerDeployment_def upd_first_def metrics_update_def stageD [OF stage_metrics])
  qed
qed

lemma reaches_webhooks:
  assumes "2 < rank (fst c)" "rank (fst c) \<le> 9"
  shows "reaches L E (SFnUpdateAdmissionWebhooksDeployment, r, s) c \<longleftrightarrow>
    (\<exists>us. upd_first (webhooks_update L (s_instance s)) (f_Objs r) us
       \<and> reaches L E (SFnUpdateAdmissionWebhooksNetworkPolicy, r\<lparr>f_Objs := us\<rparr>,
           set_instance (shared_webhook (s_instance s)) s) c)"
proof -
  have rk: "rank (fst c) < rank SFnUpdateAdmissionWebhooksDeployment" using assms by simp
  show ?thesis
  proof (cases "firstUnstructed (isAdmissionWebhooksDeployment L) (f_Objs r)")
    case (Inl e)
    then show ?thesis
      by (simp add: reaches_down [OF rk] sFnUpdateAdmissionWebhooksDeployment_def stop_defs
          kedaAdmissionWebhooksDeployment_def reaches_UpdateStatus [OF assms(1)] upd_first_def
          webhooks_update_def)
  next
    case (Inr u)
    with firstUnstructed_Inr [OF Inr] assms show ?thesis
      by (auto simp: reaches_down [OF rk] sFnUpdateAdmissionWebhooksDeployment_def stop_defs
          kedaAdmissionWebhooksDeployment_def upd_first_def webhooks_update_def stageD [OF stage_webhooks])
  qed
qed

text \<open>The data of a later stage is that of the instance the phase started with.\<close>

lemma later_logging:
  "loggingMetricsSrvCfg (shared_operator k) = loggingMetricsSrvCfg k"
  "loggingAdmissionWebhookCfg (shared_operator k) = loggingAdmissionWebhookCfg k"
  "loggingAdmissionWebhookCfg (shared_metrics k) = loggingAdmissionWebhookCfg k"
  by (auto simp: shared_operator_def shared_metrics_def seen_def share_operator_def share_metrics_def
      map_logging_def loggingMetricsSrvCfg_def loggingAdmissionWebhookCfg_def split: option.split)

lemma later_data:
  "other_data (shared_operator k) = other_data k" "other_data (shared_metrics k) = other_data k"
  by (simp_all add: shared_operator_def shared_metrics_def seen_data)

lemma later_steps:
  "metrics_steps (shared_operator k) = metrics_steps k"
  "webhooks_steps (shared_operator k) = webhooks_steps k"
  "webhooks_steps (shared_metrics k) = webhooks_steps k"
  using later_data [of k] by (simp_all add: metrics_steps_def webhooks_steps_def other_data_def later_logging)

definition configured :: "k8s_lib \<Rightarrow> string \<Rightarrow> Keda \<Rightarrow> ostep list" where
  "configured L ip k = [operator_update L k, metrics_update L k, webhooks_update L k, policy_update L ip]"

definition shared :: "Keda \<Rightarrow> Keda" where
  "shared k = shared_webhook (shared_metrics (shared_operator k))"

fun upd_all :: "ostep list \<Rightarrow> obj list \<Rightarrow> obj list \<Rightarrow> bool" where
  "upd_all [] us us' \<longleftrightarrow> us' = us"
| "upd_all (a # as) us us' \<longleftrightarrow> (\<exists>vs. upd_first a us vs \<and> upd_all as vs us')"

text \<open>The phase as one relation on the objects and one function on the instance.\<close>

lemma later_updates:
  "metrics_update L (shared_operator k) = metrics_update L k"
  "webhooks_update L (shared_metrics (shared_operator k)) = webhooks_update L k"
  by (simp_all add: metrics_update_def webhooks_update_def later_steps)

lemma reaches_policy_update:
  "reaches L E (SFnUpdateAdmissionWebhooksNetworkPolicy, r, s) (SFnApply, r', s') \<longleftrightarrow>
     (\<exists>us. upd_first (policy_update L (f_APIServerIP r)) (f_Objs r) us \<and> r' = r\<lparr>f_Objs := us\<rparr> \<and> s' = s)"
  by (auto simp: reaches_policy upd_first_def policy_update_def)

lemma reaches_Apply:
  "reaches L E (SFnUpdateKedaDeployment, r, s) (SFnApply, r', s') \<longleftrightarrow>
     (\<exists>us. upd_all (configured L (f_APIServerIP r) (s_instance s)) (f_Objs r) us
        \<and> r' = r\<lparr>f_Objs := us\<rparr> \<and> s' = set_instance (shared (s_instance s)) s)"
  by (simp add: reaches_operator reaches_metrics reaches_webhooks reaches_policy_update configured_def
      shared_def later_updates) blast

section \<open>Stability\<close>

text \<open>
  Converting an object to its type and back with the same type, name, namespace and unmodelled part keeps its
  identity and, of a network policy, the label the program finds it by.
\<close>

definition same_meta :: "Deployment \<Rightarrow> Deployment \<Rightarrow> bool" where
  "same_meta d d' \<longleftrightarrow> d_APIVersion d' = d_APIVersion d \<and> d_Namespace d' = d_Namespace d \<and> d_Name d' = d_Name d
     \<and> d_rest d' = d_rest d"

definition identity_doc :: "k8s_lib \<Rightarrow> bool" where
  "identity_doc L \<longleftrightarrow>
     (\<forall>u d d' u'. GetKind L u = ''Deployment'' \<and> FromDeployment L u = Inr d \<and> same_meta d d' \<and> ToDeployment L d' = Inr u' \<longrightarrow>
        resource_id L u' = resource_id L u)
   \<and> (\<forall>u p p' u'. isWebhookNetworkPolicy L u \<and> FromNetworkPolicy L u = Inr p \<and> np_rest p' = np_rest p
        \<and> ToNetworkPolicy L p' = Inr u' \<longrightarrow> resource_id L u' = resource_id L u \<and> isWebhookNetworkPolicy L u')"

lemma resource_id_same: "resource_id L u' = resource_id L u \<Longrightarrow>
    GetName L u' = GetName L u \<and> (isDeployment L u' \<longleftrightarrow> isDeployment L u)"
  by (simp add: resource_id_def isDeployment_def)

lemma do_step_identity: "do_step a d = Ret d' \<Longrightarrow> same_meta d d'"
  by (cases a) (auto simp: same_meta_def container0_Ret split: option.splits)

lemma deployment_identity:
  assumes "identity_doc L" "isDeployment L u" "FromDeployment L u = Inr d" "do_step a d = Ret d'" "ToDeployment L d' = Inr u'"
  shows "resource_id L u' = resource_id L u" "GetName L u' = GetName L u" "isDeployment L u'"
proof -
  have "GetKind L u = ''Deployment''" using assms(2) by (simp add: isDeployment_def)
  then show "resource_id L u' = resource_id L u"
    using assms(1,3,5) do_step_identity [OF assms(4)] unfolding identity_doc_def by blast
  then show "GetName L u' = GetName L u" "isDeployment L u'" using resource_id_same assms(2) by blast+
qed

lemma policy_identity:
  assumes "identity_doc L" "isWebhookNetworkPolicy L u" "FromNetworkPolicy L u = Inr p" "ToNetworkPolicy L (p\<lparr>np_Ingress := rs\<rparr>) = Inr u'"
  shows "resource_id L u' = resource_id L u" "isWebhookNetworkPolicy L u'"
proof -
  have "np_rest (p\<lparr>np_Ingress := rs\<rparr>) = np_rest p" by simp
  then show "resource_id L u' = resource_id L u" "isWebhookNetworkPolicy L u'"
    using assms unfolding identity_doc_def by blast+
qed

lemma obj_steps_identity:
  assumes "identity_doc L"
  shows "obj_steps L as u u' \<Longrightarrow> isDeployment L u \<Longrightarrow> GetName L u' = GetName L u \<and> isDeployment L u'"
proof (induction as arbitrary: u)
  case (Cons a as)
  then obtain d d1 u1 where s: "FromDeployment L u = Inr d" "do_step a d = Ret d1" "ToDeployment L d1 = Inr u1"
    "obj_steps L as u1 u'" by (auto simp: obj_step_def)
  note i = deployment_identity [OF assms Cons.prems(2) s(1-3)]
  with Cons.IH [OF s(4) i(3)] show ?case by simp
qed simp

lemma policy_step_identity:
  "identity_doc L \<Longrightarrow> policy_step L addr u u' \<Longrightarrow> isWebhookNetworkPolicy L u \<Longrightarrow> isWebhookNetworkPolicy L u'"
  unfolding policy_step_def using policy_identity(2) by blast

lemmas object_predicates = isKedaOperatorDeployment_def isKedaMatricsServerDeployment_def
  isAdmissionWebhooksDeployment_def isAddmissionWebhookNetworkPolicy_def hasOperatorName_def
  hasMetricsServerName_def hasAdmissionWebhooksName_def

lemma deployment_not_policy: "isDeployment L u \<Longrightarrow> \<not> isWebhookNetworkPolicy L u"
  by (simp add: isDeployment_def isWebhookNetworkPolicy_def)

text \<open>An update keeps what the predicates of the updates look at.\<close>

lemma configured_identity:
  assumes id: "identity_doc L" and b: "b \<in> set (configured L ip k)" and u: "fst b u" "snd b u u'"
  shows "isDeployment L u \<and> isDeployment L u' \<and> GetName L u' = GetName L u
    \<or> isWebhookNetworkPolicy L u \<and> isWebhookNetworkPolicy L u'"
  using b u obj_steps_identity [OF id, of _ u u'] policy_step_identity [OF id, of "ip @ ''/32''" u u']
  unfolding configured_def operator_update_def metrics_update_def webhooks_update_def
    policy_update_def object_predicates
  by auto

lemma configured_predicate:
  assumes "a \<in> set (configured L ip k)"
  shows "isDeployment L u \<Longrightarrow> isDeployment L u' \<Longrightarrow> GetName L u' = GetName L u \<Longrightarrow> fst a u' = fst a u"
    and "isWebhookNetworkPolicy L u \<Longrightarrow> isWebhookNetworkPolicy L u' \<Longrightarrow> fst a u' = fst a u"
  using assms deployment_not_policy [of L u] deployment_not_policy [of L u']
  unfolding configured_def operator_update_def metrics_update_def webhooks_update_def
    policy_update_def object_predicates
  by auto

lemma configured_keeps:
  "identity_doc L \<Longrightarrow> a \<in> set (configured L ip k) \<Longrightarrow> b \<in> set (configured L ip k) \<Longrightarrow> keeps b (fst a)"
  unfolding keeps_def using configured_identity configured_predicate by blast

lemma in_opt: "a \<in> set (opt f x) \<longleftrightarrow> (\<exists>y. x = Some y \<and> a = f y)"
  by (auto simp: opt_def split: option.split)

lemma compatible_steps:
  "a \<in> set (operator_steps k) \<Longrightarrow> b \<in> set (operator_steps k) \<Longrightarrow> compatible a b"
  "a \<in> set (metrics_steps k) \<Longrightarrow> b \<in> set (metrics_steps k) \<Longrightarrow> compatible a b"
  "a \<in> set (webhooks_steps k) \<Longrightarrow> b \<in> set (webhooks_steps k) \<Longrightarrow> compatible a b"
  by (auto simp: operator_steps_def metrics_steps_def webhooks_steps_def in_opt compatible_def)

lemma stable_steps:
  "\<forall>a\<in>set (operator_steps k). stable a" "\<forall>a\<in>set (metrics_steps k). stable a"
  "\<forall>a\<in>set (webhooks_steps k). stable a"
  by (auto simp: operator_steps_def metrics_steps_def webhooks_steps_def in_opt logging_args_again
      metrics_args_again)

lemma configured_settles:
  assumes "converter_doc L" "identity_doc L" "a \<in> set (configured L ip k)"
  shows "settling_step a"
proof -
  have "snd a u' u'" if "snd a u u'" for u u'
    using that assms(3) obj_steps_again [OF assms(1) stable_steps(1) compatible_steps(1)]
      obj_steps_again [OF assms(1) stable_steps(2) compatible_steps(2)]
      obj_steps_again [OF assms(1) stable_steps(3) compatible_steps(3)]
      policy_step_again [OF assms(1)]
    by (auto simp: configured_def operator_update_def metrics_update_def webhooks_update_def
        policy_update_def)
  with configured_keeps [OF assms(2,3,3)] show ?thesis by (simp add: settling_step_def)
qed

lemma configured_compatible:
  assumes "identity_doc L" "a \<in> set (configured L ip k)" "b \<in> set (configured L ip k)"
  shows "list_compatible a b"
  using configured_keeps [OF assms] assms(2,3) deployment_not_policy
  by (auto simp: list_compatible_def configured_def operator_update_def metrics_update_def
      webhooks_update_def policy_update_def object_predicates)

lemma upd_all_steps:
  "(\<And>a. a \<in> set as \<Longrightarrow> settling_step a) \<Longrightarrow> objects.steps as us us' \<longleftrightarrow> upd_all as us us'"
  by (induction as arbitrary: us) (auto simp: list_step_def)

end
