(* ===== verification/Stability_Properties.thy ===== *)
theory Stability_Properties
  imports Stability
begin

text \<open>
  The configuration of the module's objects over several runs: passing the phase again changes
  nothing, and what a resource does not set stays as an earlier one left it.
\<close>

section \<open>What the resource does not set\<close>

lemma upd_first_other:
  "upd_first b us us' \<Longrightarrow> \<not> fst b (us ! i) \<Longrightarrow> us' ! i = us ! i"
  using firstUnstructed_Inr [of "fst b" us] unfolding upd_first_def by (metis nth_list_update_neq)

text \<open>The phase treats the operator by the first update alone.\<close>

lemma upd_all_operator:
  assumes "identity_doc L" and u: "upd_all (configured L ip k) us us'"
    and i: "firstUnstructed (isKedaOperatorDeployment L) us = Inr i"
  shows "obj_steps L (operator_steps k) (us ! i) (us' ! i)"
proof -
  obtain v1 v2 v3 where v: "upd_first (operator_update L k) us v1" "upd_first (metrics_update L k) v1 v2"
    "upd_first (webhooks_update L k) v2 v3" "upd_first (policy_update L ip) v3 us'"
    using u by (auto simp: configured_def)
  have s: "obj_steps L (operator_steps k) (us ! i) (v1 ! i)" and op: "isKedaOperatorDeployment L (us ! i)"
    using v(1) i firstUnstructed_Inr [OF i] unfolding upd_first_def operator_update_def by auto
  have o: "isKedaOperatorDeployment L (v1 ! i)"
    using op obj_steps_identity [OF assms(1) s] by (simp add: object_predicates)
  have "v2 ! i = v1 ! i"
    by (rule upd_first_other [OF v(2)]) (use o in \<open>simp add: metrics_update_def object_predicates\<close>)
  moreover from this have "v3 ! i = v2 ! i"
    by (intro upd_first_other [OF v(3)]) (use o in \<open>simp add: webhooks_update_def object_predicates\<close>)
  moreover from calculation have "us' ! i = v3 ! i"
    using o deployment_not_policy [of L "v1 ! i"]
    by (intro upd_first_other [OF v(4)]) (simp add: policy_update_def object_predicates)
  ultimately show ?thesis using s by simp
qed

lemma dep_step_keeps:
  assumes "dep_step a d d'"
  shows "kind_of a \<noteq> 0 \<Longrightarrow> map c_Args (d_Containers d') = map c_Args (d_Containers d)"
    and "kind_of a \<noteq> 4 \<Longrightarrow> map c_Resources (d_Containers d') = map c_Resources (d_Containers d)"
    and "kind_of a \<noteq> 2 \<Longrightarrow> nil_if_empty (d_TemplateAnnotations d') = nil_if_empty (d_TemplateAnnotations d)"
  using assms by (cases a; auto simp: dep_step_def container0_Ret split: option.splits)+

lemma dep_steps_keep:
  "dep.steps as d d' \<Longrightarrow> \<forall>a\<in>set as. kind_of a \<noteq> 0 \<Longrightarrow>
     map c_Args (d_Containers d') = map c_Args (d_Containers d)"
  "dep.steps as d d' \<Longrightarrow> \<forall>a\<in>set as. kind_of a \<noteq> 4 \<Longrightarrow>
     map c_Resources (d_Containers d') = map c_Resources (d_Containers d)"
  "dep.steps as d d' \<Longrightarrow> \<forall>a\<in>set as. kind_of a \<noteq> 2 \<Longrightarrow>
     nil_if_empty (d_TemplateAnnotations d') = nil_if_empty (d_TemplateAnnotations d)"
  by (induction rule: dep.steps.induct) (simp_all add: dep_step_keeps)

lemma operator_steps_kinds:
  "loggingOperatorCfg k = None \<Longrightarrow> \<forall>a\<in>set (operator_steps k). kind_of a \<noteq> 0"
  "operatorResources k = None \<Longrightarrow> \<forall>a\<in>set (operator_steps k). kind_of a \<noteq> 4"
  "podAnnotationsOperatorCfg k = None \<Longrightarrow> \<forall>a\<in>set (operator_steps k). kind_of a \<noteq> 2"
  by (auto simp: operator_steps_def in_opt)

section \<open>What the phase writes into the resource\<close>

definition sanitize_logging :: "LoggingCfg \<Rightarrow> LoggingCfg" where
  "sanitize_logging l =
     l\<lparr>lc_Operator := map_option LoggingCommonCfg_Sanitize (lc_Operator l),
       lc_MetricsServer := map_option LoggingCommonCfg_Sanitize (lc_MetricsServer l),
       lc_AdmissionWebhook := map_option LoggingCommonCfg_Sanitize (lc_AdmissionWebhook l)\<rparr>"

lemma shared_sanitized: "shared k = map_logging sanitize_logging k"
proof (cases "spec_Logging (k_Spec k)")
  case None
  then show ?thesis
    by (simp add: shared_def shared_webhook_def shared_metrics_def shared_operator_def seen_def
        loggingOperatorCfg_def loggingMetricsSrvCfg_def loggingAdmissionWebhookCfg_def map_logging_def)
next
  case (Some l)
  then show ?thesis
    by (cases "lc_Operator l"; cases "lc_MetricsServer l"; cases "lc_AdmissionWebhook l")
       (simp_all add: shared_def shared_webhook_def shared_metrics_def shared_operator_def seen_def
          loggingOperatorCfg_def loggingMetricsSrvCfg_def loggingAdmissionWebhookCfg_def map_logging_def
          share_operator_def share_metrics_def share_webhook_def sanitize_logging_def)
qed

section \<open>The phase as one update of the objects\<close>

text \<open>
  C10: The configuration phase implements its specification: from the update of the operator the machine
  reaches the apply state exactly by updating, one after the other, the first deployment of the
  operator, of the metrics server and of the webhooks and the first network policy, each by the list
  of steps the resource asks for, and by sanitising the logging formats of the resource.
\<close>

theorem configuration_phase:
  "reaches L E (SFnUpdateKedaDeployment, r, s) (SFnApply, r', s') \<longleftrightarrow>
     (\<exists>o1 o2 o3 o4. upd_first (isKedaOperatorDeployment L, obj_steps L (operator_steps (s_instance s))) (f_Objs r) o1
        \<and> upd_first (isKedaMatricsServerDeployment L, obj_steps L (metrics_steps (s_instance s))) o1 o2
        \<and> upd_first (isAdmissionWebhooksDeployment L, obj_steps L (webhooks_steps (s_instance s))) o2 o3
        \<and> upd_first (isAddmissionWebhookNetworkPolicy L, policy_step L (f_APIServerIP r @ ''/32'')) o3 o4
        \<and> r' = r\<lparr>f_Objs := o4\<rparr> \<and> s' = set_instance (map_logging sanitize_logging (s_instance s)) s)"
  by (simp add: reaches_Apply configured_def shared_sanitized operator_update_def metrics_update_def
      webhooks_update_def policy_update_def) blast

section \<open>Repeating the phase\<close>

text \<open>
  C11: The configuration of the module's objects is a fixed point: when the phase from the update of the
  operator to the apply state has been passed, passing it again with the same resource, on the objects
  it left behind, is possible and changes no object.
\<close>

theorem configuration_stable:
  assumes "converter_doc L" "identity_doc L"
    and "reaches L E (SFnUpdateKedaDeployment, r, s) (SFnApply, r', s')"
  shows "reaches L E (SFnUpdateKedaDeployment, r', s) (SFnApply, r', s')"
proof -
  let ?as = "configured L (f_APIServerIP r) (s_instance s)"
  obtain us where us: "upd_all ?as (f_Objs r) us" "r' = r\<lparr>f_Objs := us\<rparr>"
    "s' = set_instance (shared (s_instance s)) s"
    using assms(3) by (auto simp: reaches_Apply)
  note st = configured_settles [OF assms(1,2)]
  have "objects.steps ?as (f_Objs r) us" using us(1) upd_all_steps st by blast
  then have "objects.steps ?as us us"
    by (rule objects.steps_again) (rule configured_compatible [OF assms(2)])
  then have "upd_all ?as us us" using upd_all_steps st by blast
  then have "\<exists>vs. upd_all ?as us vs \<and> r\<lparr>f_Objs := us\<rparr> = r\<lparr>f_Objs := vs\<rparr>" by blast
  with us(2,3) show ?thesis by (simp add: reaches_Apply)
qed

text \<open>What the settled steps say: the environment and the Istio label are those of the resource.\<close>

lemma operator_steps_reset:
  assumes "dep.steps (operator_steps k) d d'" "normal d'" "istioOperatorCfg k = Some i"
  shows "\<exists>c cs. d_Containers d' = c # cs \<and> c_Env c = EnvVars_Sanitize (spec_Env (k_Spec k))"
    and "map_get (d_TemplateLabels d') ''sidecar.istio.io/inject'' = FormatBool (istio_EnabledSidecarInjection i)"
proof -
  have "dep_step a d' d'" if "a \<in> set (operator_steps k)" for a
    by (rule dep.steps_all_settled [OF assms(1) _ that]) (rule compatible_steps(1))
  then have "settled_field a d'" if "a \<in> set (operator_steps k)" for a
    using that dep_step_self [OF assms(2)] by simp
  moreover have "SEnvs (spec_Env (k_Spec k)) \<in> set (operator_steps k)" "SLabels i \<in> set (operator_steps k)"
    using assms(3) by (simp_all add: operator_steps_def opt_def envVars_def)
  ultimately have f: "settled_field (SEnvs (spec_Env (k_Spec k))) d'" "settled_field (SLabels i) d'" by blast+
  from f(1) show "\<exists>c cs. d_Containers d' = c # cs \<and> c_Env c = EnvVars_Sanitize (spec_Env (k_Spec k))"
    by (auto split: list.splits)
  from f(2) obtain m where "d_TemplateLabels d' = Some m"
    "fmupd ''sidecar.istio.io/inject'' (FormatBool (istio_EnabledSidecarInjection i)) (with_common_labels m) = m"
    by (auto split: option.splits)
  then show "map_get (d_TemplateLabels d') ''sidecar.istio.io/inject'' = FormatBool (istio_EnabledSidecarInjection i)"
    using fmupd_lookup [of "''sidecar.istio.io/inject''" "FormatBool (istio_EnabledSidecarInjection i)" "with_common_labels m"
        "''sidecar.istio.io/inject''"] by (simp add: map_get_def)
qed

text \<open>
  C27: Logging, resources and annotations that were removed from the resource stay: when a resource without logging,
  resources and annotations for the operator passes the configuration phase, the operator's
  deployment keeps the arguments, the resource requirements and the annotations it had, those of an
  earlier resource included.  Removing one of these settings has no effect before the next start.  The
  environment and the Istio label, on the other hand, are those of the resource, or the defaults for what it does not set.
\<close>

theorem removed_settings_stay:
  assumes "converter_doc L" "identity_doc L"
    and "reaches L E (SFnUpdateKedaDeployment, r, s) (SFnApply, r', s')"
    and "spec_Logging (k_Spec (s_instance s)) = None" "spec_Resources (k_Spec (s_instance s)) = None"
      "spec_PodAnnotations (k_Spec (s_instance s)) = None"
    and "firstUnstructed (isKedaOperatorDeployment L) (f_Objs r) = Inr i"
      "FromDeployment L (f_Objs r ! i) = Inr d"
  shows "\<exists>d'. FromDeployment L (f_Objs r' ! i) = Inr d'
     \<and> map c_Args (d_Containers d') = map c_Args (d_Containers d)
     \<and> map c_Resources (d_Containers d') = map c_Resources (d_Containers d)
     \<and> nil_if_empty (d_TemplateAnnotations d') = nil_if_empty (d_TemplateAnnotations d)
     \<and> (\<exists>c cs. d_Containers d' = c # cs \<and> c_Env c = EnvVars_Sanitize (spec_Env (k_Spec (s_instance s))))
     \<and> map_get (d_TemplateLabels d') ''sidecar.istio.io/inject'' =
         (case spec_Istio (k_Spec (s_instance s)) of
            None \<Rightarrow> ''false''
          | Some x \<Rightarrow> (case istio_Operator x of None \<Rightarrow> ''false'' | Some c \<Rightarrow> FormatBool (istio_EnabledSidecarInjection c)))"
proof -
  let ?k = "s_instance s"
  obtain us where us: "upd_all (configured L (f_APIServerIP r) ?k) (f_Objs r) us" "r' = r\<lparr>f_Objs := us\<rparr>"
    using assms(3) by (auto simp: reaches_Apply)
  have n: "loggingOperatorCfg ?k = None" "operatorResources ?k = None" "podAnnotationsOperatorCfg ?k = None"
    using assms(4-6) by (simp_all add: loggingOperatorCfg_def operatorResources_def podAnnotationsOperatorCfg_def)
  have "operator_steps ?k \<noteq> []" by (simp add: operator_steps_def opt_def envVars_def)
  then obtain d' where d': "dep.steps (operator_steps ?k) d d'" "FromDeployment L (us ! i) = Inr d'" "normal d'"
    using obj_steps_typed [OF assms(1) stable_steps(1)
        upd_all_operator [OF assms(2) us(1) assms(7)] assms(8)] by blast
  have "\<exists>c. istioOperatorCfg ?k = Some c"
    by (simp add: istioOperatorCfg_def disabledIstioSidecar_def split: option.split)
  then obtain c where c: "istioOperatorCfg ?k = Some c" by blast
  have inject: "FormatBool (istio_EnabledSidecarInjection c) = (case spec_Istio (k_Spec ?k) of
         None \<Rightarrow> ''false''
       | Some x \<Rightarrow> (case istio_Operator x of None \<Rightarrow> ''false'' | Some c \<Rightarrow> FormatBool (istio_EnabledSidecarInjection c)))"
    using c by (auto simp: istioOperatorCfg_def disabledIstioSidecar_def FormatBool_def split: option.splits)
  show ?thesis
    using us(2) d'(2) dep_steps_keep [OF d'(1)] operator_steps_kinds n operator_steps_reset [OF d'(1,3) c] inject
    by simp
qed

text \<open>
  Passing the configuration phase changes the resource in one respect only: the logging formats
  \<open>text\<close> of its specification become \<open>console\<close>.  The update that records the add-on later in the run
  stores this in the cluster, over what the user wrote.
\<close>

theorem phase_sanitizes_resource:
  assumes "reaches L E (SFnUpdateKedaDeployment, r, s) (SFnApply, r', s')"
  shows "s' = s\<lparr>s_instance := (s_instance s)\<lparr>k_Spec := (k_Spec (s_instance s))
      \<lparr>spec_Logging := map_option sanitize_logging (spec_Logging (k_Spec (s_instance s)))\<rparr>\<rparr>\<rparr>"
  using assms by (auto simp: reaches_Apply shared_sanitized map_logging_def set_instance_def)

section \<open>A concrete installation\<close>

lemma ref_GetName_deployment [simp]: "str_at (enc_deployment d) namePath = d_Name d"
  by (simp add: str_at_def enc_deployment_def jmap_def)

lemma ref_isDeployment [simp]: "isDeployment ref_lib (enc_deployment d) \<longleftrightarrow> d_APIVersion d = ''apps/v1''"
  by (simp add: isDeployment_def ref_lib_simps str_at_def enc_deployment_def)

lemma ref_APIVersion [simp]: "d_APIVersion (ref_deployment name) = ''apps/v1''"
  by (simp add: ref_deployment_def)

lemma str_at_field: "str_at u [''metadata'', k] = fld_str (fld_obj u ''metadata'') k"
proof (cases "fmlookup u ''metadata''")
  case (Some j)
  then show ?thesis by (cases j) (auto simp: fld_str_def fld_obj_def str_at_def split: option.split)
qed (simp add: fld_str_def fld_obj_def str_at_def)

lemma dec_deployment_id:
  "resource_id ref_lib u = (d_APIVersion (dec_deployment u), str_at u [''kind''], d_Name (dec_deployment u), d_Namespace (dec_deployment u))"
  by (simp add: resource_id_def ref_lib_simps dec_deployment_def Let_def str_at_field) (simp add: str_at_def fld_str_def split: option.split)

lemma dec_policy_purpose:
  assumes "fld_val v ''metadata'' = fld_val u ''metadata''"
  shows "smap_at v labelsPath = smap_at u labelsPath"
  using assms
  by (auto simp: fld_val_def smap_at_def split: option.splits)

lemma enc_policy_metadata: "fld_val (enc_policy p) ''metadata'' = np_rest p"
  by (simp add: fld_val_def enc_policy_def)

lemma ref_policy_identity:
  assumes "isWebhookNetworkPolicy ref_lib u" "np_rest p = fld_val u ''metadata''"
  shows "resource_id ref_lib (enc_policy p) = resource_id ref_lib u" "isWebhookNetworkPolicy ref_lib (enc_policy p)"
proof -
  have k: "str_at (enc_policy p) [''kind''] = ''NetworkPolicy''" "str_at (enc_policy p) [''apiVersion''] = ''networking.k8s.io/v1''"
    by (simp_all add: str_at_def enc_policy_def)
  have "fld_obj (enc_policy p) ''metadata'' = fld_obj u ''metadata''"
    using enc_policy_metadata [of p] assms(2) by (auto simp: fld_val_def fld_obj_def split: option.splits)
  then show "resource_id ref_lib (enc_policy p) = resource_id ref_lib u"
    using assms(1) k by (simp add: resource_id_def isWebhookNetworkPolicy_def ref_lib_simps str_at_field)
  show "isWebhookNetworkPolicy ref_lib (enc_policy p)"
    using assms k dec_policy_purpose [of "enc_policy p" u]
    by (simp add: isWebhookNetworkPolicy_def ref_lib_simps enc_policy_metadata)
qed

lemma ref_identity_doc: "identity_doc ref_lib"
proof -
  have "resource_id ref_lib (enc_deployment d) = resource_id ref_lib u"
    if "str_at u [''kind''] = ''Deployment''" "same_meta (dec_deployment u) d" for u d
    using that by (simp add: dec_deployment_id enc_deployment_inv same_meta_def) (simp add: str_at_def enc_deployment_def)
  then show ?thesis
    using ref_policy_identity by (auto simp: identity_doc_def ref_lib_simps dec_policy_def)
qed

definition ref_policy :: NetworkPolicy where
  "ref_policy = \<lparr>np_Ingress = [],
     np_rest = jmap [(''labels'', of_smap (fmap_of_list [(''purpose'', ''webhook'')]))]\<rparr>"

lemma ref_policy_ingress: "np_Ingress ref_policy = []"
  by (simp add: ref_policy_def)

definition ref_objects :: "obj list" where
  "ref_objects = [enc_deployment (ref_deployment ''keda-operator''),
     enc_deployment (ref_deployment ''keda-operator-metrics-apiserver''),
     enc_deployment (ref_deployment ''keda-admission-webhooks''), enc_policy ref_policy]"

lemma ref_obj_step [simp]:
  "obj_step ref_lib a (enc_deployment d) u' \<longleftrightarrow>
     (case do_step a (omit_empty d) of Ret d1 \<Rightarrow> u' = enc_deployment d1 | Panic p \<Rightarrow> False)"
  by (auto simp: obj_step_def ref_lib_simps enc_deployment_inv split: go.split)

lemma ref_policy_step [simp]:
  "policy_step ref_lib addr (enc_policy p) u' \<longleftrightarrow>
     (case update_ingress addr (np_Ingress p) of
        Ret is \<Rightarrow> u' = enc_policy (p\<lparr>np_Ingress := is\<rparr>) | Panic e \<Rightarrow> False)"
  by (auto simp: policy_step_def ref_lib_simps enc_policy_inv split: go.split)

lemma ref_isWebhook: "isWebhookNetworkPolicy ref_lib (enc_policy ref_policy)"
  by (simp add: isWebhookNetworkPolicy_def ref_lib_simps str_at_def enc_policy_def ref_policy_def smap_at_def
     jmap_def of_smap_def map_get_def)

lemma ref_isDeployment_policy: "\<not> isDeployment ref_lib (enc_policy p)"
  by (simp add: isDeployment_def ref_lib_simps str_at_def enc_policy_def)

lemma ref_steps:
  "operator_steps ref_keda = [SLabels \<lparr>istio_EnabledSidecarInjection = False\<rparr>,
     SPriority ''keda-priority-class'', SEnvs []]"
  "webhooks_steps ref_keda = [SLabels \<lparr>istio_EnabledSidecarInjection = False\<rparr>,
     SPriority ''keda-priority-class'']"
  "metrics_steps ref_keda = [SLabels \<lparr>istio_EnabledSidecarInjection = False\<rparr>, SAnnotations (Some fmempty),
     SPriority ''keda-priority-class'', SEnvs []]"
  by (simp_all add: operator_steps_def webhooks_steps_def metrics_steps_def opt_def data_defs
      loggingOperatorCfg_def loggingMetricsSrvCfg_def loggingAdmissionWebhookCfg_def
      operatorResources_def metricsSvrResources_def admissionWebhookResources_def envVars_def
      priorityClassName_def podAnnotationsAdmissionWebhookCfg_def disabledIstioSidecar_def
      ref_keda_def ref_spec_def)

lemma upd_first_eval:
  "upd_first a us us' \<longleftrightarrow> (case first_index (fst a) us of
     None \<Rightarrow> False | Some i \<Rightarrow> \<exists>ob. snd a (us ! i) ob \<and> us' = us[i := ob])"
  by (simp add: upd_first_def firstUnstructed_def split: option.split)

lemma ref_configured:
  "\<exists>us. upd_all (configured ref_lib ip ref_keda) ref_objects us"
  by (simp add: configured_def upd_first_eval operator_update_def metrics_update_def webhooks_update_def
      policy_update_def ref_objects_def object_predicates ref_lib_simps ref_isDeployment_policy
      ref_isWebhook deployment_not_policy ref_steps ref_deployment_def ref_policy_ingress
      omit_empty_def nil_if_empty_def container0_def)

lemma ref_reaches:
  "\<exists>r' s'. reaches ref_lib ref_env (SFnUpdateKedaDeployment, ref_fsm\<lparr>f_Objs := ref_objects\<rparr>,
     \<lparr>s_instance = ref_keda, s_objs = [], s_snapshot = zero_Status\<rparr>) (SFnApply, r', s')"
  unfolding reaches_Apply
  using ref_configured [of "f_APIServerIP (ref_fsm\<lparr>f_Objs := ref_objects\<rparr>)"] by simp

lemma configuration_stable_witness:
  "\<exists>r' s'. reaches ref_lib ref_env (SFnUpdateKedaDeployment, ref_fsm\<lparr>f_Objs := ref_objects\<rparr>,
       \<lparr>s_instance = ref_keda, s_objs = [], s_snapshot = zero_Status\<rparr>) (SFnApply, r', s')
     \<and> reaches ref_lib ref_env (SFnUpdateKedaDeployment, r',
       \<lparr>s_instance = ref_keda, s_objs = [], s_snapshot = zero_Status\<rparr>) (SFnApply, r', s')"
proof -
  let ?r = "ref_fsm\<lparr>f_Objs := ref_objects\<rparr>"
    and ?s = "\<lparr>s_instance = ref_keda, s_objs = [], s_snapshot = zero_Status\<rparr>"
  obtain r' s' where "reaches ref_lib ref_env (SFnUpdateKedaDeployment, ?r, ?s) (SFnApply, r', s')"
    using ref_reaches by blast
  with configuration_stable [OF ref_converter_doc ref_identity_doc this] show ?thesis by blast
qed

lemma removed_settings_stay_witness:
  "\<exists>r' s' d'. reaches ref_lib ref_env (SFnUpdateKedaDeployment, ref_fsm\<lparr>f_Objs := ref_objects\<rparr>,
       \<lparr>s_instance = ref_keda, s_objs = [], s_snapshot = zero_Status\<rparr>) (SFnApply, r', s')
     \<and> FromDeployment ref_lib (f_Objs r' ! 0) = Inr d' \<and> map c_Args (d_Containers d') = [[''--zap-log-level=debug'']]"
proof -
  let ?r = "ref_fsm\<lparr>f_Objs := ref_objects\<rparr>"
    and ?s = "\<lparr>s_instance = ref_keda, s_objs = [], s_snapshot = zero_Status\<rparr>"
  obtain r' s' where r: "reaches ref_lib ref_env (SFnUpdateKedaDeployment, ?r, ?s) (SFnApply, r', s')"
    using ref_reaches by blast
  have i: "firstUnstructed (isKedaOperatorDeployment ref_lib) (f_Objs ?r) = Inr 0"
    by (simp add: firstUnstructed_def ref_objects_def object_predicates ref_lib_simps ref_deployment_def)
  have d: "FromDeployment ref_lib (f_Objs ?r ! 0) = Inr (omit_empty (ref_deployment ''keda-operator''))"
    by (simp add: ref_objects_def ref_lib_simps enc_deployment_inv)
  from removed_settings_stay [OF ref_converter_doc ref_identity_doc r _ _ _ i d] r show ?thesis
    by (auto simp: ref_keda_def ref_spec_def ref_deployment_def ref_container_def omit_empty_def)
qed

text \<open>A resource that asks for the format \<open>text\<close>.\<close>

definition ref_logging :: LoggingCommonCfg where
  "ref_logging = \<lparr>log_Level = None, log_Format = Some ''text'', log_TimeEncoding = None\<rparr>"

definition ref_text_keda :: Keda where
  "ref_text_keda = ref_keda\<lparr>k_Spec := ref_spec\<lparr>spec_Logging :=
     Some \<lparr>lc_Operator = Some ref_logging, lc_MetricsServer = None, lc_AdmissionWebhook = None\<rparr>\<rparr>\<rparr>"

lemma ref_text_steps:
  "\<exists>f. operator_steps ref_text_keda = SArgs f # operator_steps ref_keda"
  "metrics_steps ref_text_keda = metrics_steps ref_keda" "webhooks_steps ref_text_keda = webhooks_steps ref_keda"
  by (simp_all add: operator_steps_def metrics_steps_def webhooks_steps_def opt_def data_defs
      loggingOperatorCfg_def loggingMetricsSrvCfg_def loggingAdmissionWebhookCfg_def
      ref_text_keda_def ref_keda_def ref_spec_def)

lemma ref_text_configured: "\<exists>us. upd_all (configured ref_lib ip ref_text_keda) ref_objects us"
proof -
  obtain f where f: "operator_steps ref_text_keda = SArgs f # operator_steps ref_keda"
    using ref_text_steps(1) by blast
  show ?thesis
    by (simp add: configured_def upd_first_eval operator_update_def metrics_update_def webhooks_update_def
        policy_update_def ref_objects_def object_predicates ref_lib_simps ref_isDeployment_policy
        ref_isWebhook deployment_not_policy f ref_text_steps(2,3) ref_steps ref_deployment_def
        ref_policy_ingress omit_empty_def nil_if_empty_def container0_def)
qed

lemma phase_sanitizes_resource_witness:
  "\<exists>r' s'. reaches ref_lib ref_env (SFnUpdateKedaDeployment, ref_fsm\<lparr>f_Objs := ref_objects\<rparr>,
       \<lparr>s_instance = ref_text_keda, s_objs = [], s_snapshot = zero_Status\<rparr>) (SFnApply, r', s')
     \<and> map_option lc_Operator (spec_Logging (k_Spec (s_instance s')))
         = Some (Some (ref_logging\<lparr>log_Format := Some ''console''\<rparr>))"
proof -
  let ?r = "ref_fsm\<lparr>f_Objs := ref_objects\<rparr>"
    and ?s = "\<lparr>s_instance = ref_text_keda, s_objs = [], s_snapshot = zero_Status\<rparr>"
  obtain r' s' where r: "reaches ref_lib ref_env (SFnUpdateKedaDeployment, ?r, ?s) (SFnApply, r', s')"
    unfolding reaches_Apply using ref_text_configured [of "f_APIServerIP ?r"] by auto
  have "map_option lc_Operator (spec_Logging (k_Spec (s_instance s')))
      = Some (Some (ref_logging\<lparr>log_Format := Some ''console''\<rparr>))"
    unfolding phase_sanitizes_resource [OF r]
    by (simp add: ref_text_keda_def sanitize_logging_def LoggingCommonCfg_Sanitize_def ref_logging_def)
  with r show ?thesis by blast
qed

end
