(* ===== verification/Controller.thy ===== *)
theory Controller
  imports Fsm
begin

text \<open>
  The controller of \<open>controllers/keda_controller.go\<close> and \<open>controllers/watch.go\<close>, with the checksum of
  \<open>pkg/crypto/sha256/utils.go\<close>: one reconciliation of a request, the mapping of events of watched
  objects to requests, and the registration of one watch per kind of object.  The controller owns
  the slice of objects; a reconciliation works on a copy of its configuration that shares the
  elements of that slice, so changes of elements survive and appended elements do not.
\<close>

section \<open>Reconcile\<close>

text \<open>
  A reconciler is the configuration and the clients, that is, the same data a machine is made of.
  A request names a Keda resource by namespace and name.
\<close>

type_synonym kedaReconciler = fsm

definition NewFsm :: "kedaReconciler \<Rightarrow> fsm" where
  "NewFsm c = c"

text \<open>What the reconciler holds after a machine made from it has run.\<close>

definition after_run :: "kedaReconciler \<Rightarrow> fsm \<Rightarrow> kedaReconciler" where
  "after_run c r = c\<lparr>f_Objs := take (length (f_Objs c)) (f_Objs r), f_hist := f_hist r\<rparr>"

definition Reconcile :: "k8s_lib \<Rightarrow> env \<Rightarrow> kedaReconciler \<Rightarrow> string \<times> string
    \<Rightarrow> (Result \<times> goerror option) go \<times> kedaReconciler" where
  "Reconcile L E c req =
     (let c1 = log_req (ReqGet (fst req) (snd req)) c in
      case e_get E (f_hist c) (fst req) (snd req) of
        Inl err \<Rightarrow> (Ret (\<lparr>r_Requeue = True, r_RequeueAfter = 0\<rparr>, IgnoreNotFound (Some err)), c1)
      | Inr instance \<Rightarrow>
          (case Run L E (NewFsm c1) instance of
             (out, r', s') \<Rightarrow> (out, after_run c1 r')))"

definition NewKedaReconciler :: "env \<Rightarrow> obj list \<Rightarrow> kedaReconciler" where
  "NewKedaReconciler E objs =
     \<lparr>f_Finalizer = Finalizer_name, f_Objs = objs, f_AddonObjs = [],
      f_APIServerIP = e_getenv E ''KUBERNETES_PORT_443_TCP_ADDR'', f_hist = []\<rparr>"

section \<open>Events\<close>

text \<open>The request for the first listed resource; the error and the empty list give none.\<close>

definition mapFunction :: "env \<Rightarrow> kedaReconciler \<Rightarrow> (string \<times> string) list \<times> kedaReconciler" where
  "mapFunction E c =
     (let c1 = log_req ReqListKedas c in
      case e_list_kedas E (f_hist c) of
        Inl err \<Rightarrow> ([], c1)
      | Inr items \<Rightarrow>
          (if length items < 1 then ([], c1)
           else if \<not> IsZero (meta_DeletionTimestamp (k_Meta (items ! 0))) then ([], c1)
           else ([(meta_Namespace (k_Meta (items ! 0)), meta_Name (k_Meta (items ! 0)))], c1)))"

text \<open>The requests added to the queue, in order.\<close>

definition retriggerAllKedaCRs :: "env \<Rightarrow> kedaReconciler \<Rightarrow> (string \<times> string) list \<times> kedaReconciler" where
  "retriggerAllKedaCRs E c =
     (let c1 = log_req ReqListKedas c in
      case e_list_kedas E (f_hist c) of
        Inl err \<Rightarrow> ([], c1)
      | Inr items \<Rightarrow> (map (\<lambda>s. (meta_Namespace (k_Meta s), meta_Name (k_Meta s))) items, c1))"

text \<open>
  Which events lead to requests.  The predicates of controller-runtime on an event are a parameter;
  \<open>predicate.Or\<close> and \<open>predicate.And\<close> combine their answers.  The selector is the one for the label
  \<open>app.kubernetes.io/part-of: keda-manager\<close>.
\<close>

datatype 'o event =
    CreateEvent 'o
  | UpdateEvent 'o 'o
  | DeleteEvent 'o
  | GenericEvent 'o

fun event_object :: "'o event \<Rightarrow> 'o" where
  "event_object (CreateEvent x) = x"
| "event_object (UpdateEvent x y) = y"
| "event_object (DeleteEvent x) = x"
| "event_object (GenericEvent x) = x"

record 'o predicates =
  LabelChanged :: "'o event \<Rightarrow> bool"
  AnnotationChanged :: "'o event \<Rightarrow> bool"
  GenerationChanged :: "'o event \<Rightarrow> bool"
  LabelSelector :: "(string \<times> string) list \<Rightarrow> 'o event \<Rightarrow> bool"

definition ommitStatusChanged :: "'o predicates \<Rightarrow> 'o event \<Rightarrow> bool" where
  "ommitStatusChanged P e \<longleftrightarrow> LabelChanged P e \<or> AnnotationChanged P e \<or> GenerationChanged P e"

definition part_of_keda_manager :: "(string \<times> string) list" where
  "part_of_keda_manager = [(''app.kubernetes.io/part-of'', ''keda-manager'')]"

definition watchedChange :: "'o predicates \<Rightarrow> 'o event \<Rightarrow> bool" where
  "watchedChange P e \<longleftrightarrow> GenerationChanged P e \<and> LabelSelector P part_of_keda_manager e"

text \<open>
  The requests of an event on a Keda resource, of which \<open>For\<close> makes one and the deletion watch one per
  resource left, and of an event on a watched object.  \<open>EnqueueRequestsFromMapFunc\<close> maps both objects of an
  update and adds each request once.
\<close>

definition keda_event :: "env \<Rightarrow> Keda predicates \<Rightarrow> Keda event \<Rightarrow> kedaReconciler
    \<Rightarrow> (string \<times> string) list \<times> kedaReconciler" where
  "keda_event E P e c =
     (let k = event_object e;
          own = (if ommitStatusChanged P e then [(meta_Namespace (k_Meta k), meta_Name (k_Meta k))] else [])
      in case e of
           DeleteEvent x \<Rightarrow> (case retriggerAllKedaCRs E c of (qs, c') \<Rightarrow> (own @ qs, c'))
         | _ \<Rightarrow> (own, c))"

definition object_event :: "env \<Rightarrow> obj predicates \<Rightarrow> obj event \<Rightarrow> kedaReconciler
    \<Rightarrow> (string \<times> string) list \<times> kedaReconciler" where
  "object_event E P e c =
     (if \<not> watchedChange P e then ([], c)
      else case e of
             UpdateEvent x y \<Rightarrow>
               (case mapFunction E c of
                  (qs, c1) \<Rightarrow>
                    (case mapFunction E c1 of
                       (qs', c2) \<Rightarrow> (qs @ filter (\<lambda>q. q \<notin> set qs) qs', c2)))
           | _ \<Rightarrow> mapFunction E c)"

section \<open>Watches\<close>

text \<open>
  A calculator makes a hash; writing a text to it fails or gives the sum.  The default one is
  SHA-256, whose \<open>Write\<close> does not fail.
\<close>

type_synonym Calculator = "string \<Rightarrow> goerror + string"

definition DefaultCalculator :: "k8s_lib \<Rightarrow> Calculator" where
  "DefaultCalculator L s = Inr (Sha256 L s)"

definition sum_input :: "k8s_lib \<Rightarrow> obj \<Rightarrow> string" where
  "sum_input L u = GetKind L u @ '':'' @ gvk_Group (GroupVersionKind L u) @ '':''
     @ gvk_Version (GroupVersionKind L u)"

definition CalculateSum :: "k8s_lib \<Rightarrow> Calculator \<Rightarrow> obj \<Rightarrow> goerror + string" where
  "CalculateSum L w u =
     (case w (sum_input L u) of
        Inl err \<Rightarrow> Inl err
      | Inr sha \<Rightarrow> Inr (Base64URL L sha))"

text \<open>\<open>registerWatchDistinct\<close> with the calculator as an argument: the objects it registered and the error.\<close>

fun registerWatch_loop :: "k8s_lib \<Rightarrow> Calculator \<Rightarrow> obj list \<Rightarrow> string list \<Rightarrow> obj list
    \<Rightarrow> obj list \<times> goerror option" where
  "registerWatch_loop L w [] visited registered = (registered, None)"
| "registerWatch_loop L w (u # us) visited registered =
     (case CalculateSum L w u of
        Inl err \<Rightarrow> (registered, Some err)
      | Inr shaStr \<Rightarrow>
          (if shaStr \<in> set visited then registerWatch_loop L w us visited registered
           else registerWatch_loop L w us (shaStr # visited) (registered @ [u])))"

definition registerWatchDistinct :: "k8s_lib \<Rightarrow> obj list \<Rightarrow> obj list \<times> goerror option" where
  "registerWatchDistinct L objs = registerWatch_loop L (DefaultCalculator L) objs [] []"

text \<open>
  \<open>SetupWithManager\<close>: the controller is built only if the registration succeeds; the label
  selector it builds from a constant cannot fail.
\<close>

datatype watch =
    ForKeda
  | WatchKedaDeletion
  | WatchObject obj

definition SetupWithManager :: "k8s_lib \<Rightarrow> kedaReconciler \<Rightarrow> goerror + watch list" where
  "SetupWithManager L c =
     (case registerWatchDistinct L (f_Objs c) of
        (registered, Some err) \<Rightarrow> Inl err
      | (registered, None) \<Rightarrow> Inr (ForKeda # WatchKedaDeletion # map WatchObject registered))"

end
