(* ===== verification/Startup.thy ===== *)
theory Startup
  imports Controller Ref_Lib
begin

text \<open>
  The process: \<open>main.go\<close> and \<open>pkg/logging\<close>.  The packages they call (the FIPS module, the logging
  toolkit, zap and controller-runtime) are the record \<open>runtime\<close>; each call is recorded in a trace, so
  the order of the start-up can be stated.  Level and format of the toolkit are texts; the level of
  zap is a number.
\<close>

section \<open>What the process is made of\<close>

record flags =
  metricsAddr :: string
  probeAddr :: string
  configPath :: string
  enableLeaderElection :: bool

record Config =
  LogLevel :: string
  LogFormat :: string

record manager_options =
  mo_MetricsBindAddress :: string
  mo_WebhookPort :: nat
  mo_HealthProbeBindAddress :: string
  mo_LeaderElection :: bool
  mo_LeaderElectionID :: string
  mo_DisableCacheFor :: "string list"

datatype startup_call =
    Print string
  | GoReconfigure string
  | SetLogger
  | NewManager manager_options
  | CompleteController "watch list"
  | AddHealthzCheck string
  | AddReadyzCheck string
  | StartManager

text \<open>
  \<open>os_Args\<close> are the arguments of the process without its name.  \<open>other_flags\<close> are the flags that imported
  packages define (controller-runtime has \<open>kubeconfig\<close>): whether they are boolean and which texts they
  accept.  \<open>GetConfigOrDie\<close> exits with code 1 itself when there is no configuration of the cluster.
  \<open>start\<close> is what \<open>Start\<close> returns when the process is told to stop.
\<close>

record runtime =
  fips140_Enabled :: bool
  os_Args :: "string list"
  other_flags :: "string \<Rightarrow> (bool \<times> (string \<Rightarrow> bool)) option"
  LoadConfig :: "string \<Rightarrow> goerror + Config"
  GetConfig :: "string \<Rightarrow> goerror + Config"
  ParseLevel :: "string \<Rightarrow> goerror + int"
  MapLevel :: "string \<Rightarrow> goerror + string"
  MapFormat :: "string \<Rightarrow> goerror + string"
  NewWithAtomicLevel :: "string \<Rightarrow> int \<Rightarrow> goerror option"
  InitKlog :: "string \<Rightarrow> goerror option"
  cluster_config :: bool
  new_manager :: "manager_options \<Rightarrow> goerror option"
  builder_Complete :: "watch list \<Rightarrow> goerror option"
  add_healthz :: "goerror option"
  add_readyz :: "goerror option"
  start :: "goerror option"

datatype exit =
    Returned
  | Exit nat
  | Panicked string

section \<open>The flags of main.go\<close>

text \<open>
  The package \<open>flag\<close> of the standard library on the flags that \<open>main\<close> defines.  A flag is boolean or takes a
  value, and setting it may fail.
\<close>

definition ParseBool :: "string \<Rightarrow> bool option" where
  "ParseBool s =
     (if s \<in> set [''1'', ''t'', ''T'', ''TRUE'', ''true'', ''True''] then Some True
      else if s \<in> set [''0'', ''f'', ''F'', ''FALSE'', ''false'', ''False''] then Some False
      else None)"

definition flag_lookup :: "runtime \<Rightarrow> string \<Rightarrow> (bool \<times> (string \<Rightarrow> flags \<Rightarrow> flags option)) option" where
  "flag_lookup R name =
     (if name = ''metrics-bind-address'' then Some (False, \<lambda>v f. Some (f\<lparr>metricsAddr := v\<rparr>))
      else if name = ''health-probe-bind-address'' then Some (False, \<lambda>v f. Some (f\<lparr>probeAddr := v\<rparr>))
      else if name = ''config-path'' then Some (False, \<lambda>v f. Some (f\<lparr>configPath := v\<rparr>))
      else if name = ''leader-elect'' then
        Some (True, \<lambda>v f. map_option (\<lambda>b. f\<lparr>enableLeaderElection := b\<rparr>) (ParseBool v))
      else map_option (\<lambda>(isBool, accepts). (isBool, \<lambda>v f. if accepts v then Some f else None)) (other_flags R name))"

text \<open>The name of a flag and what follows its first equals sign.\<close>

definition cut_value :: "string \<Rightarrow> string \<times> string option" where
  "cut_value s =
     (case dropWhile (\<lambda>c. c \<noteq> CHR ''='') s of
        [] \<Rightarrow> (s, None)
      | _ # v \<Rightarrow> (takeWhile (\<lambda>c. c \<noteq> CHR ''='') s, Some v))"

text \<open>
  \<open>flag.Parse\<close>: the flags, or the code the process exits with: 0 when help was asked for, 2 for an argument
  that is no flag of the program, has no value or a wrong one.  The first argument that is not a
  flag ends the parsing.
\<close>

fun parse_args :: "runtime \<Rightarrow> string list \<Rightarrow> flags \<Rightarrow> nat + flags" where
  "parse_args R [] f = Inr f"
| "parse_args R (s # args) f =
     (if length s < 2 \<or> hd s \<noteq> CHR ''-'' \<or> s = ''--'' then Inr f
      else let arg = (if s ! 1 = CHR ''-'' then drop 2 s else drop 1 s) in
        if arg = [] \<or> hd arg = CHR ''-'' \<or> hd arg = CHR ''='' then Inl 2
        else
          (case cut_value arg of
             (name, value) \<Rightarrow>
               (case flag_lookup R name of
                  None \<Rightarrow> Inl (if name = ''help'' \<or> name = ''h'' then 0 else 2)
                | Some (isBool, set_value) \<Rightarrow>
                    (if isBool \<or> value \<noteq> None then
                       (case set_value (case value of None \<Rightarrow> ''true'' | Some v \<Rightarrow> v) f of
                          None \<Rightarrow> Inl 2
                        | Some f' \<Rightarrow> parse_args R args f')
                     else
                       (case args of
                          [] \<Rightarrow> Inl 2
                        | v # rest \<Rightarrow>
                            (case set_value v f of
                               None \<Rightarrow> Inl 2
                             | Some f' \<Rightarrow> parse_args R rest f'))))))"

definition flag_Parse :: "runtime \<Rightarrow> flags \<Rightarrow> nat + flags" where
  "flag_Parse R f = parse_args R (os_Args R) f"

section \<open>pkg/logging/setup.go\<close>

text \<open>\<open>errors.Wrap\<close> puts the text before the error.  The result is the format the logger is built with.\<close>

definition errors_Wrap :: "goerror \<Rightarrow> string \<Rightarrow> goerror" where
  "errors_Wrap e msg = errorf_w (msg @ '': '') e []"

definition ConfigureLogger :: "runtime \<Rightarrow> string \<Rightarrow> string \<Rightarrow> int \<Rightarrow> goerror + string" where
  "ConfigureLogger R logLevel logFormat atomic =
     (case MapLevel R logLevel of
        Inl err \<Rightarrow> Inl (errors_Wrap err ''unable to parse logging level'')
      | Inr parsedLogLevel \<Rightarrow>
          (case MapFormat R logFormat of
             Inl err \<Rightarrow> Inl (errors_Wrap err ''unable to set logging format'')
           | Inr format \<Rightarrow>
               (case NewWithAtomicLevel R format atomic of
                  Some err \<Rightarrow> Inl (errors_Wrap err ''unable to set logger'')
                | None \<Rightarrow>
                    (case InitKlog R parsedLogLevel of
                       Some err \<Rightarrow> Inl (errors_Wrap err ''unable to init Klog'')
                     | None \<Rightarrow> Inr format))))"

text \<open>\<open>pkg/logging/dynamic.go\<close>: the watcher of the toolkit, started in a goroutine of its own.\<close>

definition ReconfigureOnConfigChange :: "string \<Rightarrow> startup_call" where
  "ReconfigureOnConfigChange cfgPath = GoReconfigure cfgPath"

section \<open>main.go\<close>

definition isFIPS140Only :: "runtime \<Rightarrow> env \<Rightarrow> bool" where
  "isFIPS140Only R E \<longleftrightarrow> fips140_Enabled R \<and> e_getenv E ''GODEBUG'' = ''fips140=only,tlsmlkem=0''"

definition flag_defaults :: flags where
  "flag_defaults = \<lparr>metricsAddr = '':8080'', probeAddr = '':8081'', configPath = [],
     enableLeaderElection = False\<rparr>"

definition load_config :: "runtime \<Rightarrow> string \<Rightarrow> string + Config" where
  "load_config R path =
     (if path \<noteq> [] then
        (case LoadConfig R path of
           Inl err \<Rightarrow> Inl (''unable to load config: '' @ Error err)
         | Inr cfg \<Rightarrow> Inr cfg)
      else
        (case GetConfig R [] of
           Inl err \<Rightarrow> Inl (''unable to get config: '' @ Error err)
         | Inr cfg \<Rightarrow> Inr cfg))"

definition manager_options_of :: "flags \<Rightarrow> manager_options" where
  "manager_options_of f =
     \<lparr>mo_MetricsBindAddress = metricsAddr f, mo_WebhookPort = 9443,
      mo_HealthProbeBindAddress = probeAddr f, mo_LeaderElection = enableLeaderElection f,
      mo_LeaderElectionID = ''4123c01c.operator.kyma-project.io'',
      mo_DisableCacheFor = [''Secret'', ''ConfigMap'']\<rparr>"

text \<open>An error that ends the process: its text is printed and the exit code is 1.\<close>

definition die :: "string \<Rightarrow> startup_call list \<Rightarrow> exit \<times> startup_call list" where
  "die msg t = (Exit 1, t @ [Print (msg @ [CHR 0x0A])])"

text \<open>
  The end of \<open>main\<close>: the health checks and the manager.  A failing health check is only printed.
\<close>

definition serve :: "runtime \<Rightarrow> startup_call list \<Rightarrow> exit \<times> startup_call list" where
  "serve R t0 =
     (let t = t0 @ [AddHealthzCheck ''healthz''];
          t = (case add_healthz R of
                 Some err \<Rightarrow> t @ [Print (''unable to set up health check: '' @ Error err @ [CHR 0x0A])]
               | None \<Rightarrow> t);
          t = t @ [AddReadyzCheck ''readyz'']
      in case add_readyz R of
           Some err \<Rightarrow> die (''unable to set up ready check: '' @ Error err) t
         | None \<Rightarrow>
             (let t = t @ [Print ''starting manager'', StartManager]
              in case start R of
                   Some err \<Rightarrow> die (''problem running manager: '' @ Error err) t
                 | None \<Rightarrow> (Returned, t)))"

text \<open>From the manager to the controller.\<close>

definition start_controller :: "k8s_lib \<Rightarrow> env \<Rightarrow> runtime \<Rightarrow> flags \<Rightarrow> startup_call list \<Rightarrow> exit \<times> startup_call list" where
  "start_controller L E R f t =
     (if \<not> cluster_config R then (Exit 1, t)
      else let opts = manager_options_of f; t = t @ [NewManager opts] in
        case new_manager R opts of
          Some err \<Rightarrow> die (''unable to start manager: '' @ Error err) t
        | None \<Rightarrow>
            (case LoadFromPaths L E [''keda-networkpolicies.yaml'', ''keda.yaml''] of
               Inl err \<Rightarrow> die (''unable to load k8s data: '' @ Error err) t
             | Inr data \<Rightarrow>
                 (case SetupWithManager L (NewKedaReconciler E data) of
                    Inl err \<Rightarrow> die (''unable to create controller: '' @ Error err) t
                  | Inr watches \<Rightarrow>
                      (let t = t @ [CompleteController watches]
                       in case builder_Complete R watches of
                            Some err \<Rightarrow> die (''unable to create controller: '' @ Error err) t
                          | None \<Rightarrow> serve R t))))"

definition fips_message :: string where
  "fips_message = ''FIPS 140 exclusive mode is not enabled. Check GODEBUG flags.''"

text \<open>What \<open>flag\<close> itself prints before it exits is not recorded.\<close>

definition main :: "k8s_lib \<Rightarrow> env \<Rightarrow> runtime \<Rightarrow> exit \<times> startup_call list" where
  "main L E R =
     (if \<not> isFIPS140Only R E
      then (Panicked fips_message, [Print (fips_message @ [CHR 0x0A])])
      else
        case flag_Parse R flag_defaults of
          Inl code \<Rightarrow> (Exit code, [])
        | Inr f \<Rightarrow>
            (case load_config R (configPath f) of
               Inl msg \<Rightarrow> die msg []
             | Inr logCfg \<Rightarrow>
                 (case ParseLevel R (LogLevel logCfg) of
                    Inl err \<Rightarrow> die (''unable to parse logger level: '' @ Error err) []
                  | Inr parsedLevel \<Rightarrow>
                      (case ConfigureLogger R (LogLevel logCfg) (LogFormat logCfg) parsedLevel of
                         Inl err \<Rightarrow> die (''unable to configure logger: '' @ Error err) []
                       | Inr log \<Rightarrow>
                           start_controller L E R f [ReconfigureOnConfigChange (configPath f), SetLogger]))))"

end
