(* ===== verification/Run_Properties.thy ===== *)
theory Run_Properties
  imports Effects Ref_Lib
begin

text \<open>
  Properties of a whole reconciliation, \<open>Run\<close>: how long it is, what it may write on the cluster and
  when, and how it reports its result.  Each is an invariant of the loop, by \<open>loop_rule\<close> of the
  locale \<open>machine\<close> and the effects of the states.
\<close>

section \<open>Length\<close>

text \<open>
  C19: A reconciliation executes at most 33 state functions, the first of them the served filter: the outcome
  of \<open>Run\<close>, an error, a panic and a cancelled context included, is that of the machine started in the
  served filter with a budget of 33 steps, which is never used up.  The state machine has no cycle.
\<close>

theorem run_length:
  "\<exists>out r' s'. run_for L E 33 0 (Some SFnServedFilter) None r (init_state v) = Some (out, r', s')
     \<and> Run L E r v =
         (case out of
            Panic p \<Rightarrow> (Panic p, r', s')
          | Ret (result, err) \<Rightarrow>
              (Ret (case result of None \<Rightarrow> \<lparr>r_Requeue = False, r_RequeueAfter = 0\<rparr> | Some x \<Rightarrow> x, err), r', s'))"
proof -
  obtain out r' s' where o: "run_loop L E 0 (Some SFnServedFilter) None r (init_state v) = (out, r', s')"
    by (metis prod_cases3)
  have "run_for L E 33 0 (Some SFnServedFilter) None r (init_state v) = Some (out, r', s')"
    using run_for_enough [of SFnServedFilter 33 L E 0 None r "init_state v"] o by simp
  then show ?thesis
    by (intro exI [of _ out] exI [of _ r'] exI [of _ s'] conjI) (simp_all add: Run_def o del: run_loop.simps split: go.split prod.split)
qed

section \<open>Where a step leads\<close>

text \<open>
  The phases of a run.  \<open>install_ok\<close> and \<open>delete_ok\<close> are the conditions, on the instance the run
  starts with, under which it installs or deletes the module.
\<close>

definition served :: "Keda \<Rightarrow> bool" where
  "served v \<longleftrightarrow> \<not> IsServedEmpty v \<and> st_Served (k_Status v) \<noteq> ServedFalse"

definition has_finalizer :: "k8s_lib \<Rightarrow> fsm \<Rightarrow> Keda \<Rightarrow> bool" where
  "has_finalizer L r v \<longleftrightarrow> ContainsFinalizer L (meta_Finalizers (k_Meta v)) (f_Finalizer r)"

definition deleting :: "Keda \<Rightarrow> bool" where
  "deleting v \<longleftrightarrow> \<not> IsZero (meta_DeletionTimestamp (k_Meta v))"

definition install_ok :: "k8s_lib \<Rightarrow> fsm \<Rightarrow> Keda \<Rightarrow> bool" where
  "install_ok L r v \<longleftrightarrow> served v \<and> has_finalizer L r v \<and> \<not> deleting v \<and> \<not> hasRestrictedAnnotations v"

definition delete_ok :: "k8s_lib \<Rightarrow> fsm \<Rightarrow> Keda \<Rightarrow> bool" where
  "delete_ok L r v \<longleftrightarrow> served v \<and> has_finalizer L r v \<and> deleting v"

text \<open>The states of the installation, and the condition each state implies.\<close>

fun installs :: "stateFn \<Rightarrow> bool" where
  "installs SFnUpdateKedaDeployment = True"
| "installs SFnUpdateMetricsServerDeployment = True"
| "installs SFnUpdateAdmissionWebhooksDeployment = True"
| "installs SFnUpdateAdmissionWebhooksNetworkPolicy = True"
| "installs (SFnUpdateObject u upd next) = installs next"
| "installs SFnApply = True"
| "installs SFnVerify = True"
| "installs SFnHandleAddon = True"
| "installs SFnGuardAddonInUse = True"
| "installs SFnApplyAddon = True"
| "installs SFnDeleteAddon = True"
| "installs _ = False"

fun phase :: "k8s_lib \<Rightarrow> fsm \<Rightarrow> Keda \<Rightarrow> stateFn \<Rightarrow> systemState \<Rightarrow> bool" where
  "phase L r0 v SFnServedFilter s \<longleftrightarrow> s_instance s = v"
| "phase L r0 v SFnTakeSnapshot s \<longleftrightarrow> s_instance s = v \<and> served v"
| "phase L r0 v SFnInitialize s \<longleftrightarrow> s_instance s = v \<and> served v"
| "phase L r0 v SFnBootstrapperValidation s \<longleftrightarrow>
     s_instance s = v \<and> served v \<and> has_finalizer L r0 v \<and> \<not> deleting v"
| "phase L r0 v SFnDeleteResources s \<longleftrightarrow> s_instance s = v \<and> delete_ok L r0 v"
| "phase L r0 v SFnCascadeDeletionState s \<longleftrightarrow> False"
| "phase L r0 v SFnUpstreamDeletionState s \<longleftrightarrow> False"
| "phase L r0 v SFnSafeDeletionState s \<longleftrightarrow> s_instance s = v \<and> delete_ok L r0 v"
| "phase L r0 v SFnRemoveFinalizer s \<longleftrightarrow> s_instance s = v \<and> delete_ok L r0 v"
| "phase L r0 v (SFnUpdateStatus result err) s \<longleftrightarrow> True"
| "phase L r0 v (SFnEmitEventfunc next result err) s \<longleftrightarrow> next = None"
| "phase L r0 v fn s \<longleftrightarrow> installs fn \<and> install_ok L r0 v"

lemma phase_installs: "installs fn \<Longrightarrow> phase L r0 v fn s = install_ok L r0 v"
  by (cases fn) auto

text \<open>The next state of an outcome satisfies a predicate.\<close>

definition leads :: "(stateFn \<Rightarrow> systemState \<Rightarrow> bool) \<Rightarrow> outcome \<Rightarrow> bool" where
  "leads P out \<longleftrightarrow>
     (case out of
        (Ret (Some fn, x, e), r, s) \<Rightarrow> P fn s
      | _ \<Rightarrow> True)"

lemma leads_simps [simp]:
  "leads P (Panic p, rs)"
  "leads P (Ret (None, x, e), rs)"
  "leads P (Ret (Some fn, x, e), rs) \<longleftrightarrow> P fn (snd rs)"
  "leads P (Ret (switchState fn), rs) \<longleftrightarrow> P fn (snd rs)"
  "leads P (Ret stopWithNoRequeue, rs) \<longleftrightarrow> P (SFnUpdateStatus None None) (snd rs)"
  "leads P (Ret stopWithRequeue, rs) \<longleftrightarrow>
     P (SFnUpdateStatus (Some \<lparr>r_Requeue = True, r_RequeueAfter = 0\<rparr>) None) (snd rs)"
  "leads P (Ret (stopWithRequeueAfter d), rs) \<longleftrightarrow>
     P (SFnUpdateStatus (Some \<lparr>r_Requeue = False, r_RequeueAfter = d\<rparr>) None) (snd rs)"
  "leads P (Ret (stopWithErrorAndNoRequeue er), rs) \<longleftrightarrow> P (SFnUpdateStatus None er) (snd rs)"
  by (cases rs; simp add: leads_def stop_defs)+

fun is_UpdateStatus :: "stateFn \<Rightarrow> bool" where
  "is_UpdateStatus (SFnUpdateStatus x e) = True"
| "is_UpdateStatus _ = False"

abbreviation "continues \<equiv> \<lambda>fn (s :: systemState). installs fn \<or> is_UpdateStatus fn"

lemma leads_updates:
  "leads continues (sFnUpdateKedaDeployment L E r s)"
  "leads continues (sFnUpdateMetricsServerDeployment L E r s)"
  "leads continues (sFnUpdateAdmissionWebhooksDeployment L E r s)"
  "leads continues (sfnUpdateAdmissionWebhooksNetworkPolicy L E r s)"
  "installs fn \<Longrightarrow> leads continues (sFnUpdateObject u upd fn L E r s)"
  by (auto simp: sFnUpdateKedaDeployment_def sFnUpdateMetricsServerDeployment_def
      sFnUpdateAdmissionWebhooksDeployment_def sfnUpdateAdmissionWebhooksNetworkPolicy_def
      sFnUpdateObject_def build_defs Let_def split: step_splits)

lemma leads_install:
  "leads continues (sFnApply L E r s)" "leads continues (sFnVerify L E r s)"
  "leads continues (sFnHandleAddon r s)" "leads continues (sFnGuardAddonInUse L E r s)"
  by (simp_all add: sFnApply_def sFnVerify_def sFnHandleAddon_def sFnGuardAddonInUse_def Let_def
      split: prod.split option.split go.split sum.split)

lemma leads_fetched: "leads continues (apply_fetched L E cfg v ns objs r s)"
  by (simp add: apply_fetched_def Let_def split: prod.split option.split)

lemma leads_known: "leads continues (delete_known L E ns objs r s)"
  by (simp add: delete_known_def Let_def split: prod.split option.split)

lemma leads_addon:
  "leads continues (sFnApplyAddon L E r s)" "leads continues (sFnDeleteAddon L E r s)"
  by (simp_all add: sFnApplyAddon_def sFnDeleteAddon_def leads_fetched leads_known Let_def
      split: prod.split option.split go.split sum.split)

lemma install_leads: "installs fn \<Longrightarrow> leads continues (exec L E fn r s)"
  by (cases fn) (simp_all add: leads_updates leads_install leads_addon)

lemma phase_continues: "install_ok L r0 v \<Longrightarrow> continues fn s \<Longrightarrow> phase L r0 v fn s"
  by (cases fn) auto

lemma leads_mono: "leads P out \<Longrightarrow> (\<And>fn s. P fn s \<Longrightarrow> Q fn s) \<Longrightarrow> leads Q out"
  by (auto simp: leads_def split: prod.splits go.splits option.splits)

lemma leads_phase:
  assumes "phase L r0 v fn s" "f_Finalizer r = f_Finalizer r0"
  shows "leads (phase L r0 v) (exec L E fn r s)"
proof (cases "installs fn")
  case True
  with assms(1) have ok: "install_ok L r0 v" by (simp add: phase_installs)
  from install_leads [OF True] show ?thesis
    by (rule leads_mono) (rule phase_continues [OF ok])
next
  case False
  with assms show ?thesis
    by (cases fn)
       (auto simp: sFnServedFilter_def sFnTakeSnapshot_def sFnInitialize_def
          sFnBootstrapperValidation_def sFnDeleteResources_def sFnSafeDeletionState_def
          deleteResourcesWithFilter_def sFnRemoveFinalizer_def sFnUpdateStatus_def
          sFnEmitEventfunc_def saveKedaStatus_def defaultDeletionStrategy_def
          served_def has_finalizer_def deleting_def install_ok_def delete_ok_def Let_def
          split: step_splits)
qed

lemma exec_phase:
  "phase L r0 v fn s \<Longrightarrow> f_Finalizer r = f_Finalizer r0 \<Longrightarrow>
   exec L E fn r s = (Ret (Some fn', x, e), r', s') \<Longrightarrow> phase L r0 v fn' s'"
  using leads_phase [of L r0 v fn s r E] by simp

section \<open>Who may write\<close>

text \<open>The condition on the start instance under which a run may make a call.\<close>

fun permitted :: "k8s_lib \<Rightarrow> fsm \<Rightarrow> Keda \<Rightarrow> request \<Rightarrow> bool" where
  "permitted L r v (ReqPatch u) \<longleftrightarrow> install_ok L r v"
| "permitted L r v (ReqCreateNamespace n) \<longleftrightarrow> install_ok L r v"
| "permitted L r v (ReqHTTPGet u) \<longleftrightarrow> install_ok L r v"
| "permitted L r v (ReqDelete u) \<longleftrightarrow> install_ok L r v \<or> delete_ok L r v"
| "permitted L r v (ReqList g) \<longleftrightarrow> install_ok L r v \<or> delete_ok L r v"
| "permitted L r v (ReqUpdate k) \<longleftrightarrow> served v"
| "permitted L r v q \<longleftrightarrow> True"

lemma allowed_permitted:
  assumes "phase L r v fn s" "allowed fn q"
  shows "permitted L r v q"
  using assms
  by (cases fn; cases q) (auto simp: install_ok_def delete_ok_def)

text \<open>The loop rule for an invariant of the phases of a run.\<close>

lemma Run_rule:
  assumes run: "Run L E r0 v = (out, r', s')"
    and start: "I (Some SFnServedFilter) r0 (init_state v)"
    and stop: "\<And>f r s. I f r s \<Longrightarrow> Q r s"
    and step: "\<And>fn r s y r1 s1. I (Some fn) r s \<Longrightarrow> phase L r0 v fn s \<Longrightarrow>
      f_Finalizer r = f_Finalizer r0 \<Longrightarrow> exec L E fn r s = (y, r1, s1) \<Longrightarrow>
      (case y of
         Ret (f, x, None) \<Rightarrow> I f r1 s1
       | _ \<Rightarrow> Q r1 s1)"
  shows "Q r' s'"
proof -
  let ?J = "\<lambda>f (x :: Result option) r s. I f r s \<and> f_Finalizer r = f_Finalizer r0
    \<and> (case f of None \<Rightarrow> True | Some fn \<Rightarrow> phase L r0 v fn s)"
  obtain res where l: "run_loop L E 0 (Some SFnServedFilter) None r0 (init_state v) = (res, r', s')"
    using run by (auto simp: Run_def split: prod.splits go.splits)
  show ?thesis
  proof (rule fsm_loop.loop_rule [OF l, where I = ?J and Q = "\<lambda>out r s. Q r s"])
    show "?J (Some SFnServedFilter) None r0 (init_state v)"
      using start by (simp add: init_state_def)
  next
    fix f :: stateFn and x r s f' x' ra sa
    assume J: "?J (Some f) x r s" and e: "exec L E f r s = (Ret (f', x', None), ra, sa)"
    have "f_Finalizer ra = f_Finalizer r"
      using exec_effect [OF e] by (simp add: effect_def kept_def)
    then show "?J f' x' ra sa"
      using J step [OF _ _ _ e] exec_phase [of L r0 v f s r E] e by (auto split: option.splits)
  qed (use stop step in \<open>fastforce split: option.splits go.splits\<close>)+
qed

lemma Run_collapse: "Run L E r v = (fst (Run L E r v), fst (snd (Run L E r v)), snd (snd (Run L E r v)))"
  by simp

lemma run_permitted: "hist_ext (permitted L r v) r (fst (snd (Run L E r v)))"
proof (rule Run_rule [OF Run_collapse, where I = "\<lambda>f ra s. hist_ext (permitted L r v) r ra"])
  fix fn ra s y r1 s1
  assume "hist_ext (permitted L r v) r ra" "phase L r v fn s" "exec L E fn ra s = (y, r1, s1)"
  then have "hist_ext (permitted L r v) r r1"
    using exec_effect [of L E fn ra s y r1 s1] allowed_permitted [of L r v fn s]
    unfolding effect_def by (meson hist_ext_mono hist_ext_trans)
  then show "case y of Ret (f, x, None) \<Rightarrow> hist_ext (permitted L r v) r r1
      | _ \<Rightarrow> hist_ext (permitted L r v) r r1"
    by (simp split: go.split prod.split option.split)
qed simp_all

text \<open>
  C2: A reconciliation touches the cluster only when the resource allows it, as it was when the run
  started: it patches objects, creates the add-on namespace and downloads manifests only for a
  served resource that carries the finalizer, is not being deleted and uses no restricted
  annotation; it deletes objects only for such a resource or for a served one with the finalizer
  that is being deleted; it updates the resource itself only when it is served.
\<close>

theorem run_writes_permitted: "hist_ext (permitted L r v) r (fst (snd (Run L E r v)))"
  by (rule run_permitted)

section \<open>How a run reports\<close>

text \<open>A quiet history reports nothing: no status update and no event.\<close>

definition quiet :: "hist \<Rightarrow> bool" where
  "quiet qs \<longleftrightarrow> list_all (\<lambda>q. \<not> is_ReqStatusUpdate q \<and> \<not> is_ReqEvent q) qs"

definition reported :: "hist \<Rightarrow> hist \<Rightarrow> bool" where
  "reported h h' \<longleftrightarrow>
     (\<exists>qs k evs. h' = h @ qs @ ReqStatusUpdate k # evs \<and> quiet qs \<and> list_all is_ReqEvent evs)"

definition not_reported :: "hist \<Rightarrow> hist \<Rightarrow> bool" where
  "not_reported h h' \<longleftrightarrow> (\<exists>qs. h' = h @ qs \<and> quiet qs)"

fun is_Emit :: "stateFn \<Rightarrow> bool" where
  "is_Emit (SFnEmitEventfunc n x e) = True"
| "is_Emit _ = False"

definition report_inv :: "hist \<Rightarrow> stateFn option \<Rightarrow> hist \<Rightarrow> bool" where
  "report_inv h0 f h \<longleftrightarrow>
     (case f of
        None \<Rightarrow> not_reported h0 h \<or> reported h0 h
      | Some fn \<Rightarrow> if is_Emit fn then reported h0 h else not_reported h0 h)"

lemma allowed_quiet: "allowed fn q \<Longrightarrow> \<not> is_Emit fn \<Longrightarrow> \<not> is_UpdateStatus fn \<Longrightarrow>
    \<not> is_ReqStatusUpdate q \<and> \<not> is_ReqEvent q"
  by (cases fn; cases q) auto

lemma not_reported_ext:
  "not_reported h0 (f_hist r) \<Longrightarrow> hist_ext (allowed fn) r r' \<Longrightarrow> \<not> is_Emit fn \<Longrightarrow>
   \<not> is_UpdateStatus fn \<Longrightarrow> not_reported h0 (f_hist r')"
  using allowed_quiet by (fastforce simp: not_reported_def hist_ext_def quiet_def list_all_iff)

lemma reportedI: "not_reported h h' \<Longrightarrow> reported h (h' @ [ReqStatusUpdate k])"
  unfolding not_reported_def reported_def by (metis append_assoc list.pred_inject(1))

lemma leads_UpdateStatus:
  "leads (\<lambda>fn s. is_Emit fn) (exec L E (SFnUpdateStatus x e) r s)"
  by (simp add: sFnUpdateStatus_def Let_def split: step_splits)

lemma leads_not_Emit:
  "phase L r0 v fn s \<Longrightarrow> \<not> is_UpdateStatus fn \<Longrightarrow> leads (\<lambda>fn s. \<not> is_Emit fn) (exec L E fn r s)"
proof (cases "installs fn")
  case True
  from install_leads [OF True] show ?thesis
    by (rule leads_mono) (rename_tac fn' s', case_tac fn', auto)
next
  case False
  assume "phase L r0 v fn s" "\<not> is_UpdateStatus fn"
  with False show ?thesis
    by (cases fn)
       (auto simp: sFnServedFilter_def sFnTakeSnapshot_def sFnInitialize_def
          sFnBootstrapperValidation_def sFnDeleteResources_def sFnSafeDeletionState_def
          deleteResourcesWithFilter_def sFnRemoveFinalizer_def defaultDeletionStrategy_def
          sFnEmitEventfunc_def Let_def split: step_splits)
qed

lemma report_step:
  assumes inv: "report_inv h0 (Some fn) (f_hist r)" and ph: "phase L r0 v fn s"
    and e: "exec L E fn r s = (y, r', s')"
  shows "(not_reported h0 (f_hist r') \<or> reported h0 (f_hist r'))
     \<and> (\<forall>f x. y = Ret (f, x, None) \<longrightarrow> report_inv h0 f (f_hist r'))"
proof -
  have h: "hist_ext (allowed fn) r r'" using exec_effect [OF e] by (simp add: effect_def)
  consider (emit) "is_Emit fn" | (upd) "is_UpdateStatus fn" | (other) "\<not> is_Emit fn" "\<not> is_UpdateStatus fn"
    by blast
  then show ?thesis
  proof cases
    case emit
    then obtain x er where fn: "fn = SFnEmitEventfunc None x er" using ph by (cases fn) auto
    have "reported h0 (f_hist r')"
      using inv h fn by (fastforce simp: report_inv_def reported_def hist_ext_def list_all_iff)
    with fn e show ?thesis by (auto simp: report_inv_def sFnEmitEventfunc_def)
  next
    case upd
    then obtain x er where fn: "fn = SFnUpdateStatus x er" by (cases fn) auto
    have "f_hist r' = f_hist r @ [ReqStatusUpdate (s_instance s)]"
      using e fn by (auto simp: sFnUpdateStatus_def Let_def split: prod.splits option.splits)
    then have "reported h0 (f_hist r')"
      using inv fn reportedI [of h0 "f_hist r"] by (simp add: report_inv_def)
    with fn e leads_UpdateStatus [of L E x er r s] show ?thesis
      by (auto simp: report_inv_def split: option.split)
  next
    case other
    then have n: "not_reported h0 (f_hist r')"
      using not_reported_ext [OF _ h] inv by (simp add: report_inv_def)
    with e leads_not_Emit [OF ph other(2), of E r] show ?thesis
      by (auto simp: report_inv_def split: option.split)
  qed
qed

text \<open>
  C20: A reconciliation updates the status of the resource at most once, after every other call, and
  emits events only after that update: its calls are either quiet, or quiet, one status update,
  events.
\<close>

theorem run_reports_once:
  "not_reported (f_hist r) (f_hist (fst (snd (Run L E r v))))
   \<or> reported (f_hist r) (f_hist (fst (snd (Run L E r v))))"
proof (rule Run_rule [OF Run_collapse, where I = "\<lambda>f ra s. report_inv (f_hist r) f (f_hist ra)"
    and Q = "\<lambda>ra s. not_reported (f_hist r) (f_hist ra) \<or> reported (f_hist r) (f_hist ra)"])
  show "report_inv (f_hist r) (Some SFnServedFilter) (f_hist r)"
    by (simp add: report_inv_def not_reported_def quiet_def)
next
  fix fn ra s y r1 s1
  assume "report_inv (f_hist r) (Some fn) (f_hist ra)" "phase L r v fn s"
    "exec L E fn ra s = (y, r1, s1)"
  then show "case y of Ret (f, x, None) \<Rightarrow> report_inv (f_hist r) f (f_hist r1)
      | _ \<Rightarrow> not_reported (f_hist r) (f_hist r1) \<or> reported (f_hist r) (f_hist r1)"
    using report_step [of "f_hist r" fn ra L r v s E y r1 s1]
    by (auto split: go.split prod.split option.split)
qed (auto simp: report_inv_def split: option.splits if_splits)

end
