(* ===== verification/State_Properties.thy ===== *)
theory State_Properties
  imports Run_Properties
begin

text \<open>
  Properties of single states: what a resource that is not served reports, which events are
  emitted, what the verification of the deployments decides and what the apply loop sends.
\<close>

section \<open>Events\<close>

definition event_of :: "Condition \<Rightarrow> request" where
  "event_of c = ReqEvent (eventType c) (cond_Reason c) (cond_Message c)"

lemma emit_loop_eq:
  "emit_loop L snap cs r
   = r\<lparr>f_hist := f_hist r @ map event_of (filter (\<lambda>c. \<not> unchanged L snap c) cs)\<rparr>"
  by (induction cs arbitrary: r) (simp_all add: event_of_def log_req_def)

lemma find_type: "find (\<lambda>d. cond_Type d = t) cs = Some m \<Longrightarrow> cond_Type m = t"
  by (induction cs) (auto split: if_splits)

lemma Find_doc: "conditions_doc L \<Longrightarrow> FindStatusCondition L cs t = find (\<lambda>d. cond_Type d = t) cs"
  by (simp add: conditions_doc_def)

text \<open>
  C35: The event state emits one event for each condition of the resource that is not in the
  snapshot with the same status, reason and message, in the order of the conditions: a warning
  exactly for the status False.  It calls nothing else, leaves the resource alone and ends with
  the result and the error it was built with.
\<close>

theorem events_for_changes:
  assumes "conditions_doc L"
  shows "sFnEmitEventfunc next result err L r s =
    (Ret (next, result, err),
     r\<lparr>f_hist := f_hist r @
        map (\<lambda>c. ReqEvent (if cond_Status c = ''False'' then ''Warning'' else ''Normal'')
              (cond_Reason c) (cond_Message c))
          (filter (\<lambda>c. \<forall>m. find (\<lambda>d. cond_Type d = cond_Type c) (st_Conditions (s_snapshot s)) = Some m
              \<longrightarrow> \<not> same_content m c)
            (st_Conditions (k_Status (s_instance s))))\<rparr>,
     s)"
proof -
  have "(\<not> unchanged L snap c) = (\<forall>m. find (\<lambda>d. cond_Type d = cond_Type c) (st_Conditions snap) = Some m
      \<longrightarrow> \<not> same_content m c)" for snap c
  proof (cases "find (\<lambda>d. cond_Type d = cond_Type c) (st_Conditions snap)")
    case (Some m)
    then have "cond_Type m = cond_Type c" by (rule find_type)
    with Some show ?thesis by (simp add: unchanged_def Find_doc [OF assms] same_content_def)
  qed (simp add: unchanged_def Find_doc [OF assms])
  moreover have "event_of = (\<lambda>c. ReqEvent (if cond_Status c = ''False'' then ''Warning'' else ''Normal'')
      (cond_Reason c) (cond_Message c))"
    by (simp add: event_of_def eventType_def fun_eq_iff)
  ultimately show ?thesis by (simp add: sFnEmitEventfunc_def emit_loop_eq)
qed

theorem events_for_changes_witness:
  "f_hist (fst (snd (sFnEmitEventfunc None None None ref_lib ref_fsm
     (init_state (UpdateStateReady ref_lib 1 ''Installed'' ''Verified'' ''ok'' ref_keda)))))
   = [ReqEvent ''Normal'' ''Verified'' ''ok'']"
  unfolding events_for_changes [OF ref_conditions_doc]
  by (simp add: UpdateStateReady_def set_condition_def
      mk_condition_def set_state_def ref_keda_def init_state_def ref_fsm_def ref_lib_def zero_Status_def)

section \<open>A resource that is not served\<close>

lemma init_state_simps [simp]:
  "s_instance (init_state v) = v" "s_snapshot (init_state v) = zero_Status"
  "s_objs (init_state v) = []" "set_instance k (init_state v) = init_state k"
  by (simp_all add: init_state_def set_instance_def)

text \<open>The resource whose status a run reports when its start instance is not served.\<close>

definition unserved_report :: "k8s_lib \<Rightarrow> env \<Rightarrow> hist \<Rightarrow> Keda \<Rightarrow> Keda" where
  "unserved_report L E h v =
     (case e_list_kedas E h of
        Inl err \<Rightarrow> v
      | Inr ks \<Rightarrow>
          (case find (\<lambda>k. st_Served (k_Status k) = ''True'') ks of
             None \<Rightarrow> UpdateServed ''True'' v
           | Some sk \<Rightarrow>
               UpdateStateFromErr L (e_now E (h @ [ReqListKedas])) ''Installed'' ''KedaDuplicated''
                 (kedaDuplicatedErr sk) (UpdateServed ''False'' v)))"

lemma first_served_find: "first_served ks = find (\<lambda>k. st_Served (k_Status k) = ''True'') ks"
  by (induction ks) (auto simp: IsServedEmpty_def)

lemma unserved_filter:
  assumes "\<not> served v"
  shows "sFnServedFilter L E r (init_state v) =
    (Ret (case e_list_kedas E (f_hist r) of Inl err \<Rightarrow> stopWithErrorAndNoRequeue (Some err)
          | Inr ks \<Rightarrow> stopWithRequeue),
     log_req ReqListKedas r, init_state (unserved_report L E (f_hist r) v))"
  using assms
  by (auto simp: sFnServedFilter_def findServedKeda_def served_def unserved_report_def
      first_served_find Let_def UpdateServed_def split: sum.split option.split)

lemma unserved_run_effect:
  assumes "\<not> served v" "conditions_doc L" "\<And>n h. e_ctx_err E n h = None"
    and "e_status_update E (f_hist r @ [ReqListKedas]) (unserved_report L E (f_hist r) v) = (None, k')"
  shows "f_hist (fst (snd (Run L E r v))) =
      f_hist r @ ReqListKedas # ReqStatusUpdate (unserved_report L E (f_hist r) v)
        # map event_of (st_Conditions (k_Status k'))
    \<and> fst (Run L E r v) = Ret
       (case e_list_kedas E (f_hist r) of
          Inl err \<Rightarrow> (\<lparr>r_Requeue = False, r_RequeueAfter = 0\<rparr>, Some err)
        | Inr ks \<Rightarrow> (\<lparr>r_Requeue = True, r_RequeueAfter = 0\<rparr>, None))"
proof -
  have "\<not> unchanged L zero_Status c" for c
    using assms(2) by (simp add: unchanged_def zero_Status_def conditions_doc_def)
  then show ?thesis
    using assms(3,4)
    by (cases "e_list_kedas E (f_hist r)")
       (auto simp: Run_def unserved_filter [OF assms(1)] stop_defs sFnUpdateStatus_def
          sFnEmitEventfunc_def emit_loop_eq)
qed

text \<open>
  C38: A reconciliation of a resource that is not served makes two calls before its events: it lists
  the Keda resources and writes its status.  If another resource is served, the status becomes
  Served False and Error with the reason KedaDuplicated; if none is, the resource becomes the
  served one; if the list fails, the status is written as it is.  The events repeat every
  condition the server returned, since no snapshot was taken yet.
\<close>

theorem unserved_run:
  assumes "\<not> served v" "conditions_doc L" "\<And>n h. e_ctx_err E n h = None"
    and "e_status_update E (f_hist r @ [ReqListKedas]) (unserved_report L E (f_hist r) v) = (None, k')"
  shows "f_hist (fst (snd (Run L E r v))) =
      f_hist r @ ReqListKedas # ReqStatusUpdate (unserved_report L E (f_hist r) v)
        # map event_of (st_Conditions (k_Status k'))
    \<and> fst (Run L E r v) = Ret
       (case e_list_kedas E (f_hist r) of
          Inl err \<Rightarrow> (\<lparr>r_Requeue = False, r_RequeueAfter = 0\<rparr>, Some err)
        | Inr ks \<Rightarrow> (\<lparr>r_Requeue = True, r_RequeueAfter = 0\<rparr>, None))"
  using unserved_run_effect [OF assms] .

theorem unserved_run_witness:
  "f_hist (fst (snd (Run ref_lib ref_env ref_fsm ref_keda)))
   = [ReqListKedas, ReqStatusUpdate (UpdateServed ''True'' ref_keda)]"
proof -
  have 1: "\<not> served ref_keda" by (simp add: served_def IsServedEmpty_def ref_keda_def zero_Status_def)
  have 2: "unserved_report ref_lib ref_env (f_hist ref_fsm) ref_keda = UpdateServed ''True'' ref_keda"
    by (simp add: unserved_report_def ref_env_def)
  show ?thesis
    using unserved_run [OF 1 ref_conditions_doc, of ref_env ref_fsm "UpdateServed ''True'' ref_keda"] 2
    by (simp add: ref_env_def ref_fsm_def UpdateServed_def ref_keda_def zero_Status_def)
qed

section \<open>Verification\<close>

text \<open>The deployments among the applied objects, or the first conversion error.\<close>

fun applied_deployments :: "k8s_lib \<Rightarrow> obj list \<Rightarrow> goerror + Deployment list" where
  "applied_deployments L [] = Inr []"
| "applied_deployments L (u # us) =
     (if isDeployment L u then
        (case FromDeployment L u of
           Inl err \<Rightarrow> Inl err
         | Inr d \<Rightarrow> (case applied_deployments L us of Inl err \<Rightarrow> Inl err | Inr ds \<Rightarrow> Inr (d # ds)))
      else applied_deployments L us)"

lemma verify_loop_eq:
  "verify_loop L us t =
     (case applied_deployments L us of
        Inl err \<Rightarrow> Inl err
      | Inr ds \<Rightarrow> Inr (fold (count_deployment L) ds t))"
  by (induction us arbitrary: t) (auto split: sum.split)

lemma fold_count:
  "t_ready (fold (count_deployment L) ds t) = t_ready t + length (filter (IsDeploymentReady L) ds)"
  "t_replicaFailure (fold (count_deployment L) ds t)
     = t_replicaFailure t + length (filter (hasDeployReplicaFailure L) ds)"
  by (induction ds arbitrary: t) (simp_all add: count_deployment_def)

lemma fold_version:
  "t_kedaVersion (fold (count_deployment L) ds t) =
     (case find (\<lambda>d. d_Name d = operatorName) (rev ds) of
        None \<Rightarrow> t_kedaVersion t
      | Some d \<Rightarrow> map_get (d_Labels d) ''app.kubernetes.io/version'')"
  by (induction ds rule: rev_induct) (simp_all add: count_deployment_def)

text \<open>
  C23: Verification decides on the deployments among the applied objects: with a replica failure the
  module is in state Error and verified again after ten seconds; otherwise, unless exactly three
  deployments are ready, it is in state Processing and verified again after ten seconds; with
  three ready it is Ready, an old failure condition is removed, the version label of the operator
  is recorded, and the add-on is handled next.  It makes no call.
\<close>

theorem verify_outcome:
  "sFnVerify L E r s =
     (let now = e_now E (f_hist r); k = s_instance s in
      case applied_deployments L (s_objs s) of
        Inl err \<Rightarrow> (Ret (stopWithErrorAndNoRequeue (Some err)), r,
          set_instance (UpdateStateFromErr L now ''Installed'' ''VerificationErr'' err k) s)
      | Inr ds \<Rightarrow>
          if \<exists>d\<in>set ds. hasDeployReplicaFailure L d then
            (Ret (stopWithRequeueAfter (10 * 10^9)), r, set_instance
               (UpdateStateReplicaFailure L now ''DeploymentFailure'' ''DeploymentReplicaFailure''
                 ''one or more deployment/s have ReplicaFailure condition'' k) s)
          else if length (filter (IsDeploymentReady L) ds) \<noteq> 3 then
            (Ret (stopWithRequeueAfter (10 * 10^9)), r, set_instance
               (UpdateStateProcessing L now ''Installed'' ''Verification'' ''verification in progress'' k) s)
          else
            (Ret (switchState SFnHandleAddon), r, set_instance
               (UpdateStateReady L now ''Installed'' ''Verified''
                 ''keda-operator and keda-operator-metrics-server ready''
                 (set_KedaVersion
                   (case find (\<lambda>d. d_Name d = ''keda-operator'') (rev ds) of
                      None \<Rightarrow> [] | Some d \<Rightarrow> map_get (d_Labels d) ''app.kubernetes.io/version'')
                   (RemoveCondition L ''DeploymentFailure'' k))) s))"
proof (cases "applied_deployments L (s_objs s)")
  case (Inr ds)
  have "(0 < length (filter (hasDeployReplicaFailure L) ds)) = (\<exists>d\<in>set ds. hasDeployReplicaFailure L d)"
    by (auto simp: filter_empty_conv)
  with Inr show ?thesis
    by (auto simp: sFnVerify_def verify_loop_eq fold_count fold_version zero_tally_def Let_def
        Second_def split: option.split)
qed (simp add: sFnVerify_def verify_loop_eq Let_def)

end
