(* ===== verification/Delete_Properties.thy ===== *)
theory Delete_Properties
  imports State_Properties Config_Properties "HOL-Library.Sublist"
begin

text \<open>
  Properties of the deletion of the module: the finalizer goes last, instances of the module's CRDs
  block everything, and three reconciliations complete a deletion that nothing blocks.
\<close>

section \<open>Answered calls\<close>

text \<open>Between the histories \<open>h\<close> and \<open>h'\<close> the call \<open>q\<close> was made, at a history where \<open>P\<close> held.\<close>

definition answered :: "(hist \<Rightarrow> bool) \<Rightarrow> request \<Rightarrow> hist \<Rightarrow> hist \<Rightarrow> bool" where
  "answered P q h h' \<longleftrightarrow> (\<exists>h1 h2. h' = h @ h1 @ q # h2 \<and> P (h @ h1))"

lemma answered_mono:
  assumes "prefix h h1" "prefix h2 h'" "answered P q h1 h2"
  shows "answered P q h h'"
proof -
  obtain a b x y where "h1 = h @ a" "h' = h2 @ b" "h2 = h1 @ x @ q # y" "P (h1 @ x)"
    using assms by (auto simp: prefix_def answered_def)
  then have "h' = h @ (a @ x) @ q # (y @ b)" "P (h @ (a @ x))" by simp_all
  then show ?thesis unfolding answered_def by blast
qed

lemma answered_now:
  assumes "P h" "prefix (h @ [q]) h'"
  shows "answered P q h h'"
proof -
  obtain b where "h' = h @ [] @ q # b" using assms(2) by (auto simp: prefix_def)
  with assms(1) show ?thesis unfolding answered_def by (metis append_Nil2)
qed

lemma effect_prefix: "effect A r r' \<Longrightarrow> prefix (f_hist r) (f_hist r')"
  by (auto simp: effect_def hist_ext_def)

lemma join_opt_None [simp]: "join_opt e x = None \<longleftrightarrow> e = None \<and> x = None"
  by (simp add: join_opt_def split: option.split)

lemma join_opt_None_right [simp]: "join_opt e None = e"
  by (simp add: join_opt_def)

text \<open>The call deleted the object, or found it gone.\<close>

definition deleted :: "env \<Rightarrow> obj \<Rightarrow> hist \<Rightarrow> hist \<Rightarrow> bool" where
  "deleted E u = answered (\<lambda>h. IgnoreNotFound (e_delete E h u) = None) (ReqDelete u)"

text \<open>The instances of the CRD were listed and there were none.\<close>

definition no_instances :: "k8s_lib \<Rightarrow> env \<Rightarrow> obj \<Rightarrow> hist \<Rightarrow> hist \<Rightarrow> bool" where
  "no_instances L E u h h' \<longleftrightarrow>
     (\<exists>g. buildResourceListFromCRD L u = Inr g
        \<and> answered (\<lambda>x. IgnoreNotFound (fst (e_list E x g)) = None \<and> snd (e_list E x g) = [])
            (ReqList g) h h')"

lemma deleted_mono: "prefix h h1 \<Longrightarrow> prefix h2 h' \<Longrightarrow> deleted E u h1 h2 \<Longrightarrow> deleted E u h h'"
  unfolding deleted_def by (rule answered_mono)

lemma no_instances_mono:
  "prefix h h1 \<Longrightarrow> prefix h2 h' \<Longrightarrow> no_instances L E u h1 h2 \<Longrightarrow> no_instances L E u h h'"
  unfolding no_instances_def using answered_mono by blast

lemma deleteResources_None:
  "deleteResources E us [] e r = (None, r') \<Longrightarrow>
     e = None \<and> (\<forall>u\<in>set us. deleted E u (f_hist r) (f_hist r'))"
proof (induction us arbitrary: e r)
  case (Cons u us)
  let ?r1 = "log_req (ReqDelete u) r"
  have rest: "deleteResources E us [] (join_opt e (IgnoreNotFound (e_delete E (f_hist r) u))) ?r1
      = (None, r')"
    using Cons.prems by (simp add: client_Delete_def)
  from Cons.IH [OF this] have ih: "e = None" "IgnoreNotFound (e_delete E (f_hist r) u) = None"
    "\<forall>x\<in>set us. deleted E x (f_hist ?r1) (f_hist r')" by auto
  have p: "prefix (f_hist r @ [ReqDelete u]) (f_hist r')"
    using effect_prefix [OF effect_deleteResources [OF rest]] by simp
  have "deleted E u (f_hist r) (f_hist r')"
    unfolding deleted_def by (rule answered_now) (simp_all add: ih(2) p)
  moreover have "deleted E x (f_hist r) (f_hist r')" if "x \<in> set us" for x
    by (rule deleted_mono [OF _ prefix_order.refl ih(3) [rule_format, OF that]]) simp
  ultimately show ?case using ih(1) by simp
qed simp

lemma checkCRDOrphan_None:
  "checkCRDOrphan_loop L E us r = (None, r') \<Longrightarrow>
     \<forall>u\<in>set us. isCRD L u \<longrightarrow> no_instances L E u (f_hist r) (f_hist r')"
proof (induction us arbitrary: r)
  case (Cons u us)
  show ?case
  proof (cases "isCRD L u")
    case True
    with Cons.prems obtain g where g: "buildResourceListFromCRD L u = Inr g"
      by (cases "buildResourceListFromCRD L u") auto
    let ?r1 = "log_req (ReqList g) r"
    have l: "IgnoreNotFound (fst (e_list E (f_hist r) g)) = None" "snd (e_list E (f_hist r) g) = []"
      and rest: "checkCRDOrphan_loop L E us ?r1 = (None, r')"
      using Cons.prems True g by (auto simp: client_List_def split: prod.splits if_splits)
    have p: "prefix (f_hist r @ [ReqList g]) (f_hist r')"
      using effect_prefix [OF effect_checkCRDOrphan_loop [OF rest]] by simp
    have "answered (\<lambda>x. IgnoreNotFound (fst (e_list E x g)) = None \<and> snd (e_list E x g) = [])
        (ReqList g) (f_hist r) (f_hist r')"
      by (rule answered_now) (simp_all add: l p)
    with g have "no_instances L E u (f_hist r) (f_hist r')" unfolding no_instances_def by blast
    moreover have "no_instances L E x (f_hist r) (f_hist r')" if "x \<in> set us" "isCRD L x" for x
      by (rule no_instances_mono [OF _ prefix_order.refl Cons.IH [OF rest, rule_format, OF that]]) simp
    ultimately show ?thesis by simp
  next
    case False
    with Cons show ?thesis by simp
  qed
qed simp

section \<open>The finalizer goes last\<close>

definition leases :: "obj list" where
  "leases = [fixLeaseObject ''4123c01c.operator.kyma-project.io'', fixLeaseObject ''operator.keda.sh'']"

text \<open>Everything the module consists of is gone, and no instance of a CRD was left.\<close>

definition module_gone :: "k8s_lib \<Rightarrow> env \<Rightarrow> obj list \<Rightarrow> hist \<Rightarrow> hist \<Rightarrow> bool" where
  "module_gone L E objs h h' \<longleftrightarrow>
     (\<forall>u\<in>set (objs @ leases). deleted E u h h')
   \<and> (\<forall>u\<in>set objs. isCRD L u \<longrightarrow> no_instances L E u h h')"

lemma module_gone_mono:
  "prefix h h1 \<Longrightarrow> prefix h2 h' \<Longrightarrow> module_gone L E objs h1 h2 \<Longrightarrow> module_gone L E objs h h'"
  unfolding module_gone_def using deleted_mono no_instances_mono by blast

lemma deleteAddonObjs_Objs: "deleteAddonObjs L E r = (x, r') \<Longrightarrow> f_Objs r' = f_Objs r"
proof -
  have 1: "f_Objs b = f_Objs r" if "deletePeerAuthentication E ns r = (a, b)" for ns r a b
    using that by (auto simp: deletePeerAuthentication_def client_Delete_def split: if_splits)
  have 2: "f_Objs b = f_Objs r" if "deletePeers_loop E nss e r = (a, b)" for nss e r a b
    using that by (induction nss arbitrary: e r) (auto split: prod.splits dest: 1)
  have 3: "f_Objs b = f_Objs r" if "deleteAddon_loop L E us nss e r = (n, a, b)" for us nss e r n a b
    using that by (induction us arbitrary: nss e r) (auto simp: Let_def client_Delete_def)
  assume "deleteAddonObjs L E r = (x, r')"
  then show ?thesis by (auto simp: deleteAddonObjs_def split: prod.splits dest!: 2 3)
qed

lemma checkCRDOrphan_keeps:
  "checkCRDOrphan_loop L E us r = (x, r') \<Longrightarrow> f_Objs r' = f_Objs r \<and> f_AddonObjs r' = f_AddonObjs r"
  by (induction us arbitrary: r) (auto simp: client_List_def split: if_splits sum.splits prod.splits)

lemma deleteResources_Objs: "deleteResources E us fs e r = (x, r') \<Longrightarrow> f_Objs r' = f_Objs r"
  by (induction us arbitrary: e r) (auto simp: client_Delete_def split: if_splits)

text \<open>The three calls of the safe strategy, when each succeeds.\<close>

lemma safe_calls_gone:
  assumes c: "checkCRDOrphanResources L E r = (None, r1)"
    and a: "deleteAddonObjs L E (AddLeaseObjs r1) = (None, r2)"
    and d: "deleteResources E (f_Objs r2) [] None r2 = (None, r3)"
  shows "module_gone L E (f_Objs r) (f_hist r) (f_hist r3)"
    and "effect (allowed SFnSafeDeletionState) r r3"
proof -
  note c' = c [unfolded checkCRDOrphanResources_def]
  have o: "set (f_Objs r2) = set (f_Objs r @ leases)"
    using deleteAddonObjs_Objs [OF a] checkCRDOrphan_keeps [OF c'] by (auto simp: AddLeaseObjs_def leases_def)
  have e1: "effect (\<lambda>q. \<exists>g. q = ReqList g) r r1" by (rule effect_checkCRDOrphan_loop [OF c'])
  have e2: "effect is_ReqDelete r1 r2"
    using effect_AddLeaseObjs effect_deleteAddonObjs [OF a] by (rule effect_trans)
  have e13: "effect is_ReqDelete r1 r3" by (rule effect_trans [OF e2 effect_deleteResources [OF d]])
  have p12: "prefix (f_hist r) (f_hist r2)"
    by (rule prefix_order.trans [OF effect_prefix [OF e1] effect_prefix [OF e2]])
  have "deleted E u (f_hist r) (f_hist r3)" if "u \<in> set (f_Objs r @ leases)" for u
    using deleteResources_None [OF d] that deleted_mono [OF p12 prefix_order.refl] unfolding o by blast
  moreover have "no_instances L E u (f_hist r) (f_hist r3)" if "u \<in> set (f_Objs r)" "isCRD L u" for u
    using checkCRDOrphan_None [OF c'] that no_instances_mono [OF prefix_order.refl effect_prefix [OF e13]]
    by blast
  ultimately show "module_gone L E (f_Objs r) (f_hist r) (f_hist r3)" by (simp add: module_gone_def)
  show "effect (allowed SFnSafeDeletionState) r r3"
  proof (rule effect_trans)
    show "effect (allowed SFnSafeDeletionState) r r1" using e1 by (rule effect_mono) auto
    show "effect (allowed SFnSafeDeletionState) r1 r3" using e13 by (rule effect_mono) (auto split: request.split)
  qed
qed

lemma safe_to_finalizer:
  assumes "sFnSafeDeletionState L E r s = (Ret (Some SFnRemoveFinalizer, x, e), r', s')"
  shows "module_gone L E (f_Objs r) (f_hist r) (f_hist r')"
proof -
  obtain r0 r1 r2 where a: "checkAddonOrphanResources E r = (None, r0)"
    and "checkCRDOrphanResources L E r0 = (None, r1)" "deleteAddonObjs L E (AddLeaseObjs r1) = (None, r2)"
      "deleteResources E (f_Objs r2) [] None r2 = (None, r')"
    using assms by (auto simp: sFnSafeDeletionState_def deleteResourcesWithFilter_def stop_defs
        split: prod.splits option.splits if_splits)
  then have g: "module_gone L E (f_Objs r0) (f_hist r0) (f_hist r')" by (intro safe_calls_gone(1))
  have "f_Objs r0 = f_Objs r" "prefix (f_hist r) (f_hist r0)"
    using a by (auto simp: checkAddonOrphanResources_def httpScaledObjectsInUse_def client_List_def
        split: if_splits sum.splits option.splits prod.splits)
  then show ?thesis using g module_gone_mono [OF _ prefix_order.refl] by metis
qed

text \<open>What a run on a resource that is being deleted knows in each state.\<close>

fun delete_inv :: "k8s_lib \<Rightarrow> env \<Rightarrow> fsm \<Rightarrow> stateFn option \<Rightarrow> fsm \<Rightarrow> bool" where
  "delete_inv L E r0 (Some SFnRemoveFinalizer) r \<longleftrightarrow>
     module_gone L E (f_Objs r0) (f_hist r0) (f_hist r)"
| "delete_inv L E r0 (Some (SFnUpdateStatus x e)) r \<longleftrightarrow> True"
| "delete_inv L E r0 (Some (SFnEmitEventfunc n x e)) r \<longleftrightarrow> True"
| "delete_inv L E r0 None r \<longleftrightarrow> True"
| "delete_inv L E r0 (Some fn) r \<longleftrightarrow> f_Objs r = f_Objs r0"

definition updates_gone :: "k8s_lib \<Rightarrow> env \<Rightarrow> fsm \<Rightarrow> fsm \<Rightarrow> bool" where
  "updates_gone L E r0 r \<longleftrightarrow> prefix (f_hist r0) (f_hist r)
     \<and> (list_ex is_ReqUpdate (drop (length (f_hist r0)) (f_hist r))
         \<longrightarrow> module_gone L E (f_Objs r0) (f_hist r0) (f_hist r))"

lemma updates_gone_ext:
  assumes "updates_gone L E r0 r" "effect A r r'"
    and "(\<forall>q. A q \<longrightarrow> \<not> is_ReqUpdate q) \<or> module_gone L E (f_Objs r0) (f_hist r0) (f_hist r)"
  shows "updates_gone L E r0 r'"
proof -
  obtain qs where qs: "f_hist r' = f_hist r @ qs" "list_all A qs"
    using assms(2) by (auto simp: effect_def hist_ext_def)
  obtain hs where hs: "f_hist r = f_hist r0 @ hs" using assms(1) by (auto simp: updates_gone_def prefix_def)
  have m: "module_gone L E (f_Objs r0) (f_hist r0) (f_hist r) \<Longrightarrow>
      module_gone L E (f_Objs r0) (f_hist r0) (f_hist r')"
    by (rule module_gone_mono [OF prefix_order.refl]) (simp_all add: qs)
  show ?thesis
  proof (cases "module_gone L E (f_Objs r0) (f_hist r0) (f_hist r)")
    case True
    with m qs hs show ?thesis by (simp add: updates_gone_def)
  next
    case False
    with assms(3) qs(2) have "\<not> list_ex is_ReqUpdate qs"
      by (auto simp: list_ex_iff list_all_iff)
    with False assms(1) qs hs show ?thesis by (simp add: updates_gone_def)
  qed
qed

lemma delete_step_Objs:
  assumes "delete_inv L E r0 (Some fn) r" "phase L r0 v fn s" "deleting v"
    and "exec L E fn r s = (Ret (Some fn', x, e), r', s')"
    and "prefix (f_hist r0) (f_hist r)"
  shows "delete_inv L E r0 (Some fn') r'"
proof (cases "fn = SFnSafeDeletionState \<and> fn' = SFnRemoveFinalizer")
  case True
  with assms safe_to_finalizer [of L E r s x e r' s']
  show ?thesis using module_gone_mono [OF _ prefix_order.refl] by simp
next
  case False
  have "\<not> installs fn" using assms(2,3) by (cases fn) (auto simp: install_ok_def)
  with assms(1-4) False show ?thesis
    by (cases fn)
       (auto simp: sFnServedFilter_def findServedKeda_def sFnTakeSnapshot_def sFnInitialize_def
          sFnBootstrapperValidation_def sFnDeleteResources_def sFnSafeDeletionState_def deleting_def
          deleteResourcesWithFilter_def sFnRemoveFinalizer_def sFnUpdateStatus_def stop_defs
          sFnEmitEventfunc_def defaultDeletionStrategy_def Let_def split: step_splits)
qed

lemma allowed_update:
  "allowed fn q \<Longrightarrow> is_ReqUpdate q \<Longrightarrow> installs fn \<or> fn = SFnInitialize \<or> fn = SFnRemoveFinalizer"
  by (cases fn; cases q) auto

lemma delete_step_quiet:
  assumes "phase L r0 v fn s" "deleting v" "exec L E fn r s = (y, r', s')" "fn \<noteq> SFnRemoveFinalizer"
  shows "effect (\<lambda>q. \<not> is_ReqUpdate q) r r'"
proof (cases "fn = SFnInitialize")
  case True
  with assms have "r' = r"
    by (auto simp: sFnInitialize_def deleting_def Let_def split: if_splits)
  then show ?thesis by simp
next
  case False
  have "\<not> installs fn" using assms(1,2) by (cases fn) (auto simp: install_ok_def)
  moreover have "effect (allowed fn) r r'" by (rule exec_effect [OF assms(3)])
  ultimately show ?thesis
    using False assms(4)
    by (elim effect_mono) (blast dest: allowed_update)
qed

lemma deletion_updates_gone:
  assumes "deleting v"
  shows "updates_gone L E r (fst (snd (Run L E r v)))"
proof (rule Run_rule [OF Run_collapse, where
      I = "\<lambda>f ra s. delete_inv L E r f ra \<and> updates_gone L E r ra" and Q = "\<lambda>ra s. updates_gone L E r ra"])
  show "delete_inv L E r (Some SFnServedFilter) r \<and> updates_gone L E r r"
    by (simp add: updates_gone_def)
next
  fix fn ra s y r1 s1
  assume I: "delete_inv L E r (Some fn) ra \<and> updates_gone L E r ra" and p: "phase L r v fn s"
    and e: "exec L E fn ra s = (y, r1, s1)"
  have u: "updates_gone L E r r1"
  proof (cases "fn = SFnRemoveFinalizer")
    case True
    with I have "module_gone L E (f_Objs r) (f_hist r) (f_hist ra)" by simp
    then show ?thesis using updates_gone_ext [OF _ exec_effect [OF e]] I by blast
  next
    case False
    from delete_step_quiet [OF p assms e this] show ?thesis
      using updates_gone_ext I by blast
  qed
  have "delete_inv L E r f r1" if "y = Ret (f, x, None)" for f x
    using delete_step_Objs [of L E r fn ra v s _ x None r1 s1] I p assms e that
    by (cases f) (auto simp: updates_gone_def)
  with u show "case y of Ret (f, x, None) \<Rightarrow> delete_inv L E r f r1 \<and> updates_gone L E r r1
      | _ \<Rightarrow> updates_gone L E r r1"
    by (auto split: go.split prod.split option.split)
qed simp

text \<open>
  C1: The finalizer goes last: a run on a resource that is being deleted updates the resource only
  after every object of the module and both leases were deleted (or found gone) in this run, and
  after the instances of every CRD of the module were listed and none was found.
\<close>

theorem finalizer_removed_last:
  assumes "deleting v"
  shows "list_ex is_ReqUpdate (drop (length (f_hist r)) (f_hist (fst (snd (Run L E r v)))))
     \<longrightarrow> module_gone L E (f_Objs r) (f_hist r) (f_hist (fst (snd (Run L E r v))))"
  using deletion_updates_gone [OF assms] by (simp add: updates_gone_def)

definition ref_deleting :: Keda where
  "ref_deleting = ref_keda\<lparr>k_Meta := ref_meta\<lparr>meta_DeletionTimestamp := Some 5\<rparr>,
     k_Status := \<lparr>st_State = ''Deleting'', st_Served = ''True'', st_KedaVersion = [],
       st_Conditions = [mk_condition ''Deleted'' ''True'' 3 ''Deleted'' ''Keda module deleted'']\<rparr>\<rparr>"

lemmas run_eval = Run_def init_state_def sFnServedFilter_def findServedKeda_def sFnTakeSnapshot_def
  saveKedaStatus_def sFnInitialize_def sFnDeleteResources_def sFnSafeDeletionState_def
  deleteResourcesWithFilter_def deleteAddonObjs_def deletePeerAuthentication_def client_Delete_def
  client_Update_def client_List_def checkAddonOrphanResources_def checkCRDOrphanResources_def
  sFnRemoveFinalizer_def sFnUpdateStatus_def sFnEmitEventfunc_def emit_loop_eq stop_defs Let_def
  AddLeaseObjs_def isKedaDeleting_def defaultDeletionStrategy_def IsServedEmpty_def IsZero_def
  log_req_def set_instance_def set_finalizers_def

lemma ref_deleting_run:
  "\<exists>k. f_hist (fst (snd (Run ref_lib ref_env ref_fsm ref_deleting))) =
     [ReqDelete (PeerAuthentication ''kyma-system''), ReqDelete (leases ! 0), ReqDelete (leases ! 1),
      ReqUpdate k] \<and> Finalizer_name \<notin> set (meta_Finalizers (k_Meta k))"
  by (simp add: run_eval ref_lib_simps ref_env_simps ref_fsm_simps ref_deleting_def ref_keda_def
      ref_meta_def mk_condition_def ref_eval leases_def)

theorem finalizer_removed_last_witness:
  "module_gone ref_lib ref_env [] [] (f_hist (fst (snd (Run ref_lib ref_env ref_fsm ref_deleting))))"
proof -
  have d: "deleting ref_deleting" by (simp add: deleting_def IsZero_def ref_deleting_def)
  have f: "f_hist ref_fsm = []" "f_Objs ref_fsm = []" by (simp_all add: ref_fsm_def)
  show ?thesis
    using finalizer_removed_last [OF d, of ref_fsm ref_lib ref_env] ref_deleting_run unfolding f by auto
qed

section \<open>Instances of the CRDs block\<close>

text \<open>A CRD of the module that the orphan check cannot pass.\<close>

definition blocks :: "k8s_lib \<Rightarrow> env \<Rightarrow> obj \<Rightarrow> bool" where
  "blocks L E u \<longleftrightarrow> isCRD L u \<and>
     (case buildResourceListFromCRD L u of
        Inl err \<Rightarrow> True
      | Inr g \<Rightarrow> \<forall>h. snd (e_list E h g) \<noteq> [] \<or> IgnoreNotFound (fst (e_list E h g)) \<noteq> None)"

lemma blocks_instances: "blocks L E u \<Longrightarrow> \<not> no_instances L E u h h'"
  by (auto simp: blocks_def no_instances_def answered_def)

lemma blocks_not_gone: "blocks L E u \<Longrightarrow> u \<in> set objs \<Longrightarrow> \<not> module_gone L E objs h h'"
  using blocks_instances by (auto simp: module_gone_def blocks_def)

lemma safe_blocked:
  assumes "blocks L E u" "u \<in> set (f_Objs r)" "sFnSafeDeletionState L E r s = (y, r', s')"
  shows "effect (\<lambda>q. \<not> is_ReqDelete q \<and> \<not> is_ReqUpdate q) r r'"
proof -
  obtain a r1 where a: "checkAddonOrphanResources E r = (a, r1)" by fastforce
  obtain c r2 where c: "checkCRDOrphanResources L E r1 = (c, r2)" by fastforce
  have o: "f_Objs r1 = f_Objs r" and e1: "effect (\<lambda>q. \<exists>g. q = ReqList g) r r1"
    using a by (auto simp: checkAddonOrphanResources_def httpScaledObjectsInUse_def client_List_def
        split: if_splits sum.splits option.splits prod.splits)
  have e2: "effect (\<lambda>q. \<exists>g. q = ReqList g) r1 r2"
    using effect_checkCRDOrphan_loop c by (simp add: checkCRDOrphanResources_def)
  have "c \<noteq> None"
    using checkCRDOrphan_None [of L E "f_Objs r1" r1 r2] c blocks_instances [OF assms(1)] assms(1,2) o
    by (auto simp: checkCRDOrphanResources_def blocks_def)
  then have "r' = r1 \<or> r' = r2"
    using assms(3) a c by (auto simp: sFnSafeDeletionState_def split: option.splits)
  with e1 effect_trans [OF e1 e2] show ?thesis by (auto elim!: effect_mono)
qed

text \<open>
  C4: While an instance of one of the module's CRDs exists (or the CRD cannot be read or listed), a
  run on a resource that is being deleted deletes nothing and does not update the resource, so the
  finalizer stays.
\<close>

theorem crd_instances_block_deletion:
  assumes "deleting v" "u \<in> set (f_Objs r)" "blocks L E u"
  shows "hist_ext (\<lambda>q. \<not> is_ReqDelete q \<and> \<not> is_ReqUpdate q) r (fst (snd (Run L E r v)))"
proof -
  let ?P = "\<lambda>q. \<not> is_ReqDelete q \<and> \<not> is_ReqUpdate q"
  have "prefix (f_hist r) (f_hist (fst (snd (Run L E r v)))) \<and> effect ?P r (fst (snd (Run L E r v)))"
  proof (rule Run_rule [OF Run_collapse, where
        I = "\<lambda>f ra s. delete_inv L E r f ra \<and> prefix (f_hist r) (f_hist ra) \<and> effect ?P r ra"
        and Q = "\<lambda>ra s. prefix (f_hist r) (f_hist ra) \<and> effect ?P r ra"])
    fix fn ra s y r1 s1
    assume I: "delete_inv L E r (Some fn) ra \<and> prefix (f_hist r) (f_hist ra) \<and> effect ?P r ra"
      and p: "phase L r v fn s" and e: "exec L E fn ra s = (y, r1, s1)"
    have rf: "fn \<noteq> SFnRemoveFinalizer" using I blocks_not_gone [OF assms(3,2)] by auto
    have "effect ?P ra r1"
    proof (cases "fn = SFnSafeDeletionState")
      case True
      with e I assms(2) show ?thesis by (intro safe_blocked [OF assms(3)]) auto
    next
      case False
      have "\<not> installs fn" using p assms(1) by (cases fn) (auto simp: install_ok_def)
      then have "\<not> is_ReqDelete q" if "allowed fn q" for q
        using that False p by (cases fn; cases q) auto
      with exec_effect [OF e] delete_step_quiet [OF p assms(1) e rf]
      show ?thesis by (auto simp: effect_def hist_ext_def list_all_iff)
    qed
    then have u: "effect ?P r r1" using I effect_trans by blast
    have "delete_inv L E r f r1" if "y = Ret (f, x, None)" for f x
      using delete_step_Objs [of L E r fn ra v s _ x None r1 s1] I p assms(1) e that
      by (cases f) auto
    with u effect_prefix [OF u]
    show "case y of Ret (f, x, None) \<Rightarrow>
          delete_inv L E r f r1 \<and> prefix (f_hist r) (f_hist r1) \<and> effect ?P r r1
        | _ \<Rightarrow> prefix (f_hist r) (f_hist r1) \<and> effect ?P r r1"
      by (auto split: go.split prod.split option.split)
  qed simp_all
  then show ?thesis by (simp add: effect_def)
qed

theorem crd_instances_block_deletion_witness:
  "hist_ext (\<lambda>q. \<not> is_ReqDelete q \<and> \<not> is_ReqUpdate q) (ref_fsm\<lparr>f_Objs := [ref_crd]\<rparr>)
     (fst (snd (Run ref_lib (ref_env\<lparr>e_list := \<lambda>h g. (None, [ref_crd])\<rparr>)
        (ref_fsm\<lparr>f_Objs := [ref_crd]\<rparr>) ref_deleting)))"
proof (rule crd_instances_block_deletion [where u = ref_crd])
  show "blocks ref_lib (ref_env\<lparr>e_list := \<lambda>h g. (None, [ref_crd])\<rparr>) ref_crd"
    by (simp add: blocks_def isCRD_def buildResourceListFromCRD_def ref_lib_simps ref_gvk_def
        ref_crd_def str_at_def)
qed (simp_all add: deleting_def IsZero_def ref_deleting_def)

section \<open>Progress\<close>

text \<open>A cluster that deletes what it is asked to, with no instance of a CRD of the module left.\<close>

definition deletable :: "k8s_lib \<Rightarrow> env \<Rightarrow> obj list \<Rightarrow> bool" where
  "deletable L E objs \<longleftrightarrow>
     (\<forall>n h. e_ctx_err E n h = None)
   \<and> (\<forall>h u. IgnoreNotFound (e_delete E h u) = None)
   \<and> (\<forall>u\<in>set objs. isCRD L u \<longrightarrow>
        (\<exists>g. buildResourceListFromCRD L u = Inr g \<and> (\<forall>h. e_list E h g = (None, []))))
   \<and> (\<forall>h k. e_update E h k = (None, k)) \<and> (\<forall>h k. e_status_update E h k = (None, k))"

lemma deletable_calls:
  assumes "deletable L E objs"
  shows "fst (deleteResources E us fs None r) = None"
    and "fst (deletePeers_loop E nss None r) = None"
    and "set us \<subseteq> set objs \<Longrightarrow> fst (checkCRDOrphan_loop L E us r) = None"
proof -
  have d: "IgnoreNotFound (e_delete E h u) = None" for h u using assms by (simp add: deletable_def)
  show "fst (deleteResources E us fs None r) = None"
    by (induction us arbitrary: r) (simp_all add: client_Delete_def d)
  have "fst (deletePeerAuthentication E ns r) = None" for ns r
    by (simp add: deletePeerAuthentication_def client_Delete_def d)
  then show "fst (deletePeers_loop E nss None r) = None"
    by (induction nss arbitrary: r) (simp_all add: case_prod_unfold)
  show "set us \<subseteq> set objs \<Longrightarrow> fst (checkCRDOrphan_loop L E us r) = None"
  proof (induction us arbitrary: r)
    case (Cons u us)
    then show ?case
      using assms by (cases "isCRD L u") (auto simp: deletable_def client_List_def)
  qed simp
qed

lemma run_to_delete:
  assumes "delete_ok L r v" "\<And>n h. e_ctx_err E n h = None"
  shows "run_loop L E 0 (Some SFnServedFilter) None r (init_state v)
    = run_loop L E 3 (Some SFnDeleteResources) None r (saveKedaStatus (init_state v))"
  using assms
  by (simp add: delete_ok_def served_def has_finalizer_def deleting_def sFnServedFilter_def
      sFnTakeSnapshot_def sFnInitialize_def saveKedaStatus_def stop_defs Let_def numeral_3_eq_3)

lemma safe_deletable:
  assumes "deletable L E (f_Objs r)" "f_AddonObjs r = []"
  shows "\<exists>r'. effect (allowed SFnSafeDeletionState) r r' \<and> take (length (f_Objs r)) (f_Objs r') = f_Objs r
      \<and> module_gone L E (f_Objs r) (f_hist r) (f_hist r')
      \<and> sFnSafeDeletionState L E r s =
          (case FindStatusCondition L (st_Conditions (k_Status (s_instance s))) ''Deleted'' of
             None \<Rightarrow> (Ret (switchState SFnRemoveFinalizer), r', s)
           | Some c \<Rightarrow>
               if cond_Status c = ''True'' then (Ret (switchState SFnRemoveFinalizer), r', s)
               else (Ret stopWithRequeue, r',
                 set_instance (UpdateStateDeletionTrue L (e_now E (f_hist r')) ''Deleted''
                   ''Deleted'' ''Keda module deleted'' (s_instance s)) s))"
proof -
  obtain r1 where c: "checkCRDOrphanResources L E r = (None, r1)"
    using deletable_calls(3) [OF assms(1), of "f_Objs r" r]
    by (cases "checkCRDOrphanResources L E r") (simp add: checkCRDOrphanResources_def)
  then have r1: "f_AddonObjs r1 = []" "f_Objs r1 = f_Objs r"
    using checkCRDOrphan_keeps assms(2) unfolding checkCRDOrphanResources_def by metis+
  then obtain r2 where a: "deleteAddonObjs L E (AddLeaseObjs r1) = (None, r2)"
    using deletable_calls(2) [OF assms(1)]
    by (cases "deleteAddonObjs L E (AddLeaseObjs r1)") (simp add: deleteAddonObjs_def AddLeaseObjs_def, metis fst_conv)
  obtain r3 where d: "deleteResources E (f_Objs r2) [] None r2 = (None, r3)"
    using deletable_calls(1) [OF assms(1)] by (metis prod.collapse)
  have "take (length (f_Objs r)) (f_Objs r3) = f_Objs r"
    using deleteResources_Objs [OF d] deleteAddonObjs_Objs [OF a] r1(2) by (simp add: AddLeaseObjs_def)
  then show ?thesis
    using assms(2) safe_calls_gone [OF c a d]
    by (intro exI [of _ r3]) (simp add: sFnSafeDeletionState_def checkAddonOrphanResources_def
        deleteResourcesWithFilter_def c a d)
qed

text \<open>The number of runs a deletion still needs before the one that removes the finalizer.\<close>

definition deletion_left :: "Keda \<Rightarrow> nat" where
  "deletion_left v =
     (case find (\<lambda>c. cond_Type c = ''Deleted'') (st_Conditions (k_Status v)) of
        None \<Rightarrow> 2 | Some c \<Rightarrow> if cond_Status c = ''True'' then 0 else 1)"

text \<open>One run of a deletion that nothing blocks, with its calls.\<close>

lemma deletion_run:
  assumes "deletable L E (f_Objs r)" "f_AddonObjs r = []" "delete_ok L r v" and doc: "conditions_doc L"
  obtains r' s' pre cs where
    "Run L E r v = (Ret (\<lparr>r_Requeue = deletion_left v \<noteq> 0, r_RequeueAfter = 0\<rparr>, None), r', s')"
    "list_all (allowed SFnSafeDeletionState) pre" "take (length (f_Objs r)) (f_Objs r') = f_Objs r"
    "deletion_left v < 2 \<Longrightarrow> module_gone L E (f_Objs r) (f_hist r) (f_hist r @ pre)"
    "deletion_left v = 2 \<Longrightarrow> status_effect L v ''Deleting'' ''Deleted'' ''Unknown'' ''Deletion'' ''deletion in progress'' (s_instance s')"
    "deletion_left v = 1 \<Longrightarrow> status_effect L v ''Deleting'' ''Deleted'' ''True'' ''Deleted'' ''Keda module deleted'' (s_instance s')"
    "deletion_left v \<noteq> 0 \<Longrightarrow> f_hist r' = f_hist r @ pre @ ReqStatusUpdate (s_instance s') # map event_of cs"
    "deletion_left v = 0 \<Longrightarrow> f_hist r' = f_hist r @ pre @ [ReqUpdate (s_instance s')]
      \<and> s_instance s' = set_finalizers (RemoveFinalizer L (meta_Finalizers (k_Meta v)) (f_Finalizer r)) v"
proof -
  have E: "e_ctx_err E n h = None" "e_update E h k = (None, k)" "e_status_update E h k = (None, k)" for n h k
    using assms(1) by (simp_all add: deletable_def)
  let ?s = "saveKedaStatus (init_state v)"
  have si: "s_instance ?s = v" by (simp add: saveKedaStatus_def)
  note start = Run_def [of L E r v, unfolded run_to_delete [OF assms(3) E(1)]]
  note steps = E sFnDeleteResources_def isKedaDeleting_def Find_doc [OF doc] si stop_defs
    sFnUpdateStatus_def sFnEmitEventfunc_def emit_loop_eq set_condition_effect [OF doc]
    defaultDeletionStrategy_def
  show thesis
  proof (cases "find (\<lambda>c. cond_Type c = ''Deleted'') (st_Conditions (k_Status v))")
    case None
    then show thesis
      by (intro that [where pre = "[]"], simp add: start steps UpdateStateDeletion_def deletion_left_def)
         (simp_all add: steps deletion_left_def)
  next
    case (Some c)
    obtain r' where g: "module_gone L E (f_Objs r) (f_hist r) (f_hist r')"
      and k: "f_Finalizer r' = f_Finalizer r" and e: "effect (allowed SFnSafeDeletionState) r r'"
      and o: "take (length (f_Objs r)) (f_Objs r') = f_Objs r"
      and safe: "sFnSafeDeletionState L E r ?s =
        (if cond_Status c = ''True'' then (Ret (switchState SFnRemoveFinalizer), r', ?s)
         else (Ret stopWithRequeue, r',
           set_instance (UpdateStateDeletionTrue L (e_now E (f_hist r')) ''Deleted'' ''Deleted''
             ''Keda module deleted'' v) ?s))"
      using safe_deletable [OF assms(1,2), of ?s] Some by (auto simp: Find_doc [OF doc] si effect_def kept_def)
    obtain pre where pre: "f_hist r' = f_hist r @ pre" "list_all (allowed SFnSafeDeletionState) pre"
      using e by (auto simp: effect_def hist_ext_def)
    note last = safe UpdateStateDeletionTrue_def sFnRemoveFinalizer_def client_Update_def set_finalizers_def
      Let_def deletion_left_def Some g [unfolded pre(1)] k pre o
    show thesis
    proof (cases "cond_Status c = ''True''")
      case True
      then show thesis by (intro that [where pre = pre], simp add: start steps last) (simp_all add: steps last)
    next
      case False
      then show thesis by (intro that [where pre = pre], simp add: start steps last) (simp_all add: steps last)
    qed
  qed
qed

text \<open>
  A deletion that nothing blocks completes in three runs.  The first run marks the condition
  Deleted as Unknown and asks for another; the second deletes every object of the module and marks
  it True; the third removes the finalizer, and the run ends without error and without a requeue.
\<close>

theorem deletion_progress:
  assumes "deletable L E (f_Objs r)" "f_AddonObjs r = []" "delete_ok L r v"
    and docs: "conditions_doc L" "finalizers_doc L"
  shows "case (Run L E r v, find (\<lambda>c. cond_Type c = ''Deleted'') (st_Conditions (k_Status v))) of
      ((out, r', s'), None) \<Rightarrow>
        out = Ret (\<lparr>r_Requeue = True, r_RequeueAfter = 0\<rparr>, None)
        \<and> status_effect L v ''Deleting'' ''Deleted'' ''Unknown'' ''Deletion'' ''deletion in progress'' (s_instance s')
    | ((out, r', s'), Some c) \<Rightarrow>
        module_gone L E (f_Objs r) (f_hist r) (f_hist r')
        \<and> (if cond_Status c \<noteq> ''True'' then
             out = Ret (\<lparr>r_Requeue = True, r_RequeueAfter = 0\<rparr>, None)
             \<and> status_effect L v ''Deleting'' ''Deleted'' ''True'' ''Deleted'' ''Keda module deleted'' (s_instance s')
           else out = Ret (\<lparr>r_Requeue = False, r_RequeueAfter = 0\<rparr>, None)
             \<and> last (f_hist r') = ReqUpdate (s_instance s')
             \<and> f_Finalizer r \<notin> set (meta_Finalizers (k_Meta (s_instance s'))))"
proof (rule deletion_run [OF assms(1-4)])
  fix r' s' pre cs
  assume run: "Run L E r v = (Ret (\<lparr>r_Requeue = deletion_left v \<noteq> 0, r_RequeueAfter = 0\<rparr>, None), r', s')"
    and gone: "deletion_left v < 2 \<Longrightarrow> module_gone L E (f_Objs r) (f_hist r) (f_hist r @ pre)"
    and u: "deletion_left v = 2 \<Longrightarrow> status_effect L v ''Deleting'' ''Deleted'' ''Unknown'' ''Deletion'' ''deletion in progress'' (s_instance s')"
    and t: "deletion_left v = 1 \<Longrightarrow> status_effect L v ''Deleting'' ''Deleted'' ''True'' ''Deleted'' ''Keda module deleted'' (s_instance s')"
    and h: "deletion_left v \<noteq> 0 \<Longrightarrow> f_hist r' = f_hist r @ pre @ ReqStatusUpdate (s_instance s') # map event_of cs"
    and f: "deletion_left v = 0 \<Longrightarrow> f_hist r' = f_hist r @ pre @ [ReqUpdate (s_instance s')]
      \<and> s_instance s' = set_finalizers (RemoveFinalizer L (meta_Finalizers (k_Meta v)) (f_Finalizer r)) v"
  have g: "deletion_left v < 2 \<Longrightarrow> module_gone L E (f_Objs r) (f_hist r) (f_hist r')"
    by (rule module_gone_mono [OF prefix_order.refl _ gone]) (use h f in \<open>cases "deletion_left v = 0"; simp\<close>)+
  show ?thesis
    using run u t f g docs(2)
    by (auto simp: deletion_left_def set_finalizers_def finalizers_doc_def split: option.split if_splits)
qed

theorem deletion_progress_witness:
  "fst (Run ref_lib ref_env ref_fsm ref_deleting) = Ret (\<lparr>r_Requeue = False, r_RequeueAfter = 0\<rparr>, None)"
proof -
  have "deletable ref_lib ref_env (f_Objs ref_fsm)"
    by (simp add: deletable_def ref_env_simps ref_fsm_simps)
  moreover have "delete_ok ref_lib ref_fsm ref_deleting"
    by (simp add: delete_ok_def served_def IsServedEmpty_def has_finalizer_def deleting_def IsZero_def
        ref_deleting_def ref_meta_def ref_lib_simps ref_fsm_simps ref_keda_def)
  ultimately show ?thesis
    using deletion_progress [of ref_lib ref_env ref_fsm ref_deleting]
    by (simp add: ref_fsm_simps ref_deleting_def mk_condition_def case_prod_unfold)
qed

end
