(* ===== verification/Controller_Properties.thy ===== *)
theory Controller_Properties
  imports Controller Delete_Properties
begin

text \<open>
  Properties of the controller: the watches it registers, what one reconciliation leaves of the
  reconciler, and what the objects of the HTTP add-on mean for a deletion.
\<close>

section \<open>Watches\<close>

lemma CalculateSum_default:
  "CalculateSum L (DefaultCalculator L) u = Inr (Base64URL L (Sha256 L (sum_input L u)))"
  by (simp add: CalculateSum_def DefaultCalculator_def)

lemma registerWatch_loop_default:
  assumes "inj_on (\<lambda>u. Base64URL L (Sha256 L u)) K" "sum_input L ` set us \<subseteq> K"
    and "V = map (\<lambda>u. Base64URL L (Sha256 L (sum_input L u))) vs" "sum_input L ` set vs \<subseteq> K"
  shows "\<exists>new. registerWatch_loop L (DefaultCalculator L) us V reg = (reg @ new, None)
     \<and> subseq new us \<and> distinct (map (sum_input L) new)
     \<and> sum_input L ` set new = sum_input L ` set us - sum_input L ` set vs"
  using assms
proof (induction us arbitrary: V vs reg)
  case (Cons u us)
  let ?k = "\<lambda>u. Base64URL L (Sha256 L (sum_input L u))"
  have seen: "?k u \<in> set V \<longleftrightarrow> sum_input L u \<in> sum_input L ` set vs"
  proof -
    have "?k u = ?k w \<longleftrightarrow> sum_input L u = sum_input L w" if "w \<in> set vs" for w
      using that Cons.prems(2,4) by (intro inj_on_eq_iff [OF Cons.prems(1)]) auto
    then show ?thesis by (auto simp: Cons.prems(3) image_iff)
  qed
  show ?case
  proof (cases "?k u \<in> set V")
    case True
    obtain new where "registerWatch_loop L (DefaultCalculator L) us V reg = (reg @ new, None)"
      "subseq new us" "distinct (map (sum_input L) new)"
      "sum_input L ` set new = sum_input L ` set us - sum_input L ` set vs"
      using Cons.IH [of V vs reg] Cons.prems by auto
    with True seen show ?thesis
      by (intro exI [of _ new]) (auto simp: CalculateSum_default)
  next
    case False
    obtain new where new: "registerWatch_loop L (DefaultCalculator L) us (?k u # V) (reg @ [u])
        = (reg @ [u] @ new, None)"
      "subseq new us" "distinct (map (sum_input L) new)"
      "sum_input L ` set new = sum_input L ` set us - sum_input L ` set (u # vs)"
      using Cons.IH [of "?k u # V" "u # vs" "reg @ [u]"] Cons.prems by auto
    have "sum_input L u \<notin> sum_input L ` set new" using new(4) by auto
    moreover have "registerWatch_loop L (DefaultCalculator L) (u # us) V reg = (reg @ (u # new), None)"
      using False new(1) by (simp add: CalculateSum_default)
    ultimately show ?thesis
      using new False seen by (intro exI [of _ "u # new"]) auto
  qed
qed simp

lemma setup_watches:
  assumes "inj_on (\<lambda>x. Base64URL L (Sha256 L x)) (sum_input L ` set (f_Objs c))"
  shows "\<exists>watched. SetupWithManager L c = Inr (ForKeda # WatchKedaDeletion # map WatchObject watched)
     \<and> subseq watched (f_Objs c) \<and> distinct (map (sum_input L) watched)
     \<and> sum_input L ` set watched = sum_input L ` set (f_Objs c)"
  using registerWatch_loop_default [OF assms order_refl, of "[]" "[]" "[]"]
  by (auto simp: SetupWithManager_def registerWatchDistinct_def)

text \<open>
  The controller registers one watch for each kind of object: of the objects with the same
  kind, group and version exactly one is watched, none is missed, and the watches come in the
  order of the objects.  The hash is taken to be free of collisions on the kinds at hand.
\<close>

theorem watches_distinct_kinds:
  assumes "inj_on (\<lambda>x. Base64URL L (Sha256 L x)) (sum_input L ` set (f_Objs c))"
  shows "\<exists>watched. SetupWithManager L c = Inr (ForKeda # WatchKedaDeletion # map WatchObject watched)
     \<and> subseq watched (f_Objs c) \<and> distinct (map (sum_input L) watched)
     \<and> sum_input L ` set watched = sum_input L ` set (f_Objs c)"
  using setup_watches [OF assms] .

theorem watches_distinct_kinds_witness:
  "\<exists>watched. SetupWithManager ref_lib (ref_fsm\<lparr>f_Objs := [ref_crd, ref_crd]\<rparr>)
       = Inr (ForKeda # WatchKedaDeletion # map WatchObject watched)
     \<and> distinct (map (sum_input ref_lib) watched)"
  using watches_distinct_kinds [of ref_lib "ref_fsm\<lparr>f_Objs := [ref_crd, ref_crd]\<rparr>"]
  by (auto simp: ref_lib_simps)

section \<open>The add-on objects\<close>

lemma Run_kept: "effect (\<lambda>q. True) r (fst (snd (Run L E r v)))"
proof (rule Run_rule [OF Run_collapse, where I = "\<lambda>f ra s. effect (\<lambda>q. True) r ra"])
  fix fn ra s y r1 s1
  assume r: "effect (\<lambda>q. True) r ra" and e: "exec L E fn ra s = (y, r1, s1)"
  have "effect (\<lambda>q. True) ra r1" using exec_effect [OF e] by (rule effect_mono) simp
  with r have "effect (\<lambda>q. True) r r1" by (rule effect_trans)
  then show "case y of Ret (f, x, None) \<Rightarrow> effect (\<lambda>q. True) r r1 | _ \<Rightarrow> effect (\<lambda>q. True) r r1"
    by (simp split: go.split prod.split option.split)
qed simp_all

text \<open>
  The reconciler never remembers add-on objects: it is made without any, and a reconciliation,
  whatever it does to its own machine, leaves the reconciler's list, finalizer and address as they
  were and its list of module objects of the same length.
\<close>

theorem reconciler_forgets_addon:
  "f_AddonObjs (NewKedaReconciler E objs) = []
   \<and> f_AddonObjs (snd (Reconcile L E c req)) = f_AddonObjs c
   \<and> f_Finalizer (snd (Reconcile L E c req)) = f_Finalizer c
   \<and> f_APIServerIP (snd (Reconcile L E c req)) = f_APIServerIP c
   \<and> length (f_Objs (snd (Reconcile L E c req))) = length (f_Objs c)"
proof -
  have "length (f_Objs c) \<le> length (f_Objs (fst (snd (Run L E (log_req q c) v))))" for q v
    using Run_kept [of "log_req q c" L E v] by (simp add: effect_def kept_def)
  then show ?thesis
    by (simp add: NewKedaReconciler_def Reconcile_def NewFsm_def after_run_def Let_def case_prod_unfold
        split: sum.split)
qed

section \<open>What a deletion covers\<close>

text \<open>
  The calls of a deletion by a machine without add-on objects: deletes of the module's objects, of
  the leases and of the Istio resource, lists of the instances of the module's CRDs.
\<close>

fun module_scope :: "k8s_lib \<Rightarrow> env \<Rightarrow> obj list \<Rightarrow> request \<Rightarrow> bool" where
  "module_scope L E objs (ReqDelete u) \<longleftrightarrow> u \<in> set (objs @ leases)
     \<or> (\<exists>ns\<in>set (e_map_order E [''kyma-system'']). u = PeerAuthentication ns)"
| "module_scope L E objs (ReqList g) \<longleftrightarrow>
     (\<exists>u\<in>set objs. isCRD L u \<and> buildResourceListFromCRD L u = Inr g)"
| "module_scope L E objs (ReqHTTPGet x) \<longleftrightarrow> False"
| "module_scope L E objs (ReqPatch x) \<longleftrightarrow> False"
| "module_scope L E objs (ReqCreateNamespace x) \<longleftrightarrow> False"
| "module_scope L E objs q \<longleftrightarrow> True"

lemma scope_deleteResources:
  "deleteResources E us [] e r = (x, r') \<Longrightarrow> effect (\<lambda>q. \<exists>u\<in>set us. q = ReqDelete u) r r'"
proof (induction us arbitrary: e r)
  case (Cons u us)
  then have "effect (\<lambda>q. \<exists>u\<in>set us. q = ReqDelete u) (log_req (ReqDelete u) r) r'"
    by (auto simp: client_Delete_def)
  then have "effect (\<lambda>q. \<exists>u\<in>set (u # us). q = ReqDelete u) (log_req (ReqDelete u) r) r'"
    by (rule effect_mono) auto
  then show ?case by (rule effect_log_trans [rotated]) simp
qed simp

lemma scope_deletePeers:
  "deletePeers_loop E nss e r = (x, r') \<Longrightarrow>
     effect (\<lambda>q. \<exists>ns\<in>set nss. q = ReqDelete (PeerAuthentication ns)) r r'"
proof (induction nss arbitrary: e r)
  case (Cons ns nss)
  obtain d r1 where d: "deletePeerAuthentication E ns r = (d, r1)" by fastforce
  then have r1: "r1 = log_req (ReqDelete (PeerAuthentication ns)) r"
    by (auto simp: deletePeerAuthentication_def client_Delete_def split: if_splits)
  have "effect (\<lambda>q. \<exists>ns\<in>set nss. q = ReqDelete (PeerAuthentication ns)) r1 r'"
    using Cons d by simp
  then have "effect (\<lambda>q. \<exists>ns\<in>set (ns # nss). q = ReqDelete (PeerAuthentication ns)) r1 r'"
    by (rule effect_mono) auto
  then show ?case unfolding r1 by (rule effect_log_trans [rotated]) simp
qed simp

lemma scope_checkCRDOrphan:
  "checkCRDOrphan_loop L E us r = (x, r') \<Longrightarrow>
     effect (\<lambda>q. \<exists>u\<in>set us. isCRD L u \<and> (\<exists>g. buildResourceListFromCRD L u = Inr g \<and> q = ReqList g)) r r'"
proof (induction us arbitrary: r)
  case (Cons u us)
  let ?P = "\<lambda>us q. \<exists>u\<in>set us. isCRD L u \<and> (\<exists>g. buildResourceListFromCRD L u = Inr g \<and> q = ReqList g)"
  have up: "effect (?P us) a b \<Longrightarrow> effect (?P (u # us)) a b" for a b by (erule effect_mono) auto
  show ?case
  proof (cases "isCRD L u \<and> (\<exists>g. buildResourceListFromCRD L u = Inr g)")
    case True
    then obtain g where g: "buildResourceListFromCRD L u = Inr g" by blast
    then have "r' = log_req (ReqList g) r \<or> checkCRDOrphan_loop L E us (log_req (ReqList g) r) = (x, r')"
      using True Cons.prems by (auto simp: client_List_def split: prod.splits if_splits)
    then have "effect (?P (u # us)) (log_req (ReqList g) r) r'"
    proof
      assume "checkCRDOrphan_loop L E us (log_req (ReqList g) r) = (x, r')"
      from up [OF Cons.IH [OF this]] show ?thesis .
    qed simp
    then show ?thesis
      by (rule effect_log_trans [rotated]) (rule bexI [where x = u], use True g in simp_all)
  next
    case False
    then have "r' = r \<or> checkCRDOrphan_loop L E us r = (x, r')"
      using Cons.prems by (cases "buildResourceListFromCRD L u") (auto split: if_splits)
    then show ?thesis
    proof
      assume "checkCRDOrphan_loop L E us r = (x, r')"
      from up [OF Cons.IH [OF this]] show ?thesis .
    qed simp
  qed
qed simp

lemma safe_scope:
  assumes "f_AddonObjs r = []" "sFnSafeDeletionState L E r s = (y, r', s')"
  shows "effect (module_scope L E (f_Objs r)) r r'"
proof -
  let ?M = "module_scope L E (f_Objs r)"
  obtain c r1 where c: "checkCRDOrphan_loop L E (f_Objs r) r = (c, r1)" by fastforce
  obtain a r2 where a: "deletePeers_loop E (e_map_order E [''kyma-system'']) None (AddLeaseObjs r1) = (a, r2)"
    by fastforce
  obtain d r3 where d: "deleteResources E (f_Objs r2) [] None r2 = (d, r3)" by fastforce
  have k: "f_Objs r1 = f_Objs r" "f_AddonObjs r1 = []" using checkCRDOrphan_keeps [OF c] assms(1) by auto
  have a': "deleteAddonObjs L E (AddLeaseObjs r1) = (a, r2)"
    using a k by (simp add: deleteAddonObjs_def AddLeaseObjs_def)
  have o: "set (f_Objs r2) = set (f_Objs r @ leases)"
    using deleteAddonObjs_Objs [OF a'] k by (auto simp: AddLeaseObjs_def leases_def)
  have e1: "effect ?M r r1" using scope_checkCRDOrphan [OF c] by (rule effect_mono) auto
  have "effect ?M (AddLeaseObjs r1) r2" using scope_deletePeers [OF a] by (rule effect_mono) auto
  then have e2: "effect ?M r r2"
    using e1 effect_AddLeaseObjs effect_trans by blast
  have "effect ?M r2 r3" using scope_deleteResources [OF d] by (rule effect_mono) (auto simp: o)
  with e2 have e3: "effect ?M r r3" by (rule effect_trans)
  have "r' = r1 \<or> r' = r2 \<or> r' = r3"
    using assms c a' d by (auto simp: sFnSafeDeletionState_def checkAddonOrphanResources_def
        checkCRDOrphanResources_def deleteResourcesWithFilter_def split: option.splits if_splits)
  with e1 e2 e3 show ?thesis by blast
qed

text \<open>
  C28: Deleting the Keda resource never checks for HTTPScaledObjects and never deletes the installed
  HTTP add-on: with a reconciler as the program makes it, a run on a resource that is being deleted
  deletes only the module's objects, the leases and the Istio resource in kyma-system, lists only
  the instances of the module's own CRDs and downloads no manifest.
\<close>

theorem deletion_ignores_addon:
  assumes "deleting v" "f_AddonObjs r = []"
  shows "hist_ext (module_scope L E (f_Objs r)) r (fst (snd (Run L E r v)))"
proof -
  let ?M = "module_scope L E (f_Objs r)"
  let ?I = "\<lambda>f ra. effect ?M r ra \<and> (\<forall>fn. f = Some fn \<longrightarrow> fn = SFnSafeDeletionState \<or> rank fn \<ge> 4 \<longrightarrow>
      f_Objs ra = f_Objs r \<and> f_AddonObjs ra = [])"
  have "effect ?M r (fst (snd (Run L E r v)))"
  proof (rule Run_rule [OF Run_collapse, where I = "\<lambda>f ra s. ?I f ra" and Q = "\<lambda>ra s. effect ?M r ra"])
    fix fn ra s y r1 s1
    assume I: "?I (Some fn) ra" and p: "phase L r v fn s" and e: "exec L E fn ra s = (y, r1, s1)"
    have ni: "\<not> installs fn" using p assms(1) by (cases fn) (auto simp: install_ok_def)
    have "effect ?M ra r1"
    proof (cases "fn = SFnSafeDeletionState")
      case True
      with I e show ?thesis using safe_scope [of ra L E s y r1 s1] by simp
    next
      case False
      have "?M q" if "allowed fn q" for q using that False ni p by (cases fn; cases q) auto
      then show ?thesis using exec_effect [OF e] by (blast intro: effect_mono)
    qed
    then have u: "effect ?M r r1" using I effect_trans by blast
    have "?I f r1" if "y = Ret (f, x, None)" for f x
      using u I p ni e that assms(1)
      by (cases fn)
         (auto simp: sFnServedFilter_def findServedKeda_def sFnTakeSnapshot_def sFnInitialize_def
            sFnBootstrapperValidation_def sFnDeleteResources_def sFnUpdateStatus_def stop_defs
            sFnSafeDeletionState_def deleteResourcesWithFilter_def sFnRemoveFinalizer_def
            sFnEmitEventfunc_def deleting_def Let_def split: step_splits)
    with u show "case y of Ret (f, x, None) \<Rightarrow> ?I f r1 | _ \<Rightarrow> effect ?M r r1"
      by (auto split: go.split prod.split option.split)
  qed (simp_all add: assms(2))
  then show ?thesis by (simp add: effect_def)
qed

theorem deletion_ignores_addon_witness:
  "hist_ext (module_scope ref_lib ref_env []) ref_fsm (fst (snd (Run ref_lib ref_env ref_fsm ref_deleting)))"
  using deletion_ignores_addon [of ref_deleting ref_fsm ref_lib ref_env]
  by (simp add: deleting_def IsZero_def ref_deleting_def ref_fsm_simps)

end
