(* ===== verification/Startup_Properties.thy ===== *)
theory Startup_Properties
  imports Startup Controller_Properties Manifest_Properties
begin

text \<open>
  Properties of the start-up: when the manager starts and how the process ends, the order of the
  calls, and which objects the controller watches.
\<close>

section \<open>When the manager starts\<close>

definition loaded :: "k8s_lib \<Rightarrow> env \<Rightarrow> goerror + obj list" where
  "loaded L E = LoadFromPaths L E [''keda-networkpolicies.yaml'', ''keda.yaml'']"

definition logging_ready :: "runtime \<Rightarrow> flags \<Rightarrow> bool" where
  "logging_ready R f \<longleftrightarrow> (\<exists>cfg level log. load_config R (configPath f) = Inr cfg
     \<and> ParseLevel R (LogLevel cfg) = Inr level
     \<and> ConfigureLogger R (LogLevel cfg) (LogFormat cfg) level = Inr log)"

definition controller_ready :: "k8s_lib \<Rightarrow> env \<Rightarrow> runtime \<Rightarrow> flags \<Rightarrow> watch list \<Rightarrow> bool" where
  "controller_ready L E R f ws \<longleftrightarrow>
     cluster_config R \<and> new_manager R (manager_options_of f) = None
     \<and> (\<exists>objs. loaded L E = Inr objs \<and> SetupWithManager L (NewKedaReconciler E objs) = Inr ws)
     \<and> builder_Complete R ws = None"

definition ready :: "k8s_lib \<Rightarrow> env \<Rightarrow> runtime \<Rightarrow> bool" where
  "ready L E R \<longleftrightarrow> isFIPS140Only R E
     \<and> (\<exists>f. flag_Parse R flag_defaults = Inr f \<and> logging_ready R f \<and> (\<exists>ws. controller_ready L E R f ws))
     \<and> add_readyz R = None"

lemmas startup_defs = main_def start_controller_def serve_def die_def ReconfigureOnConfigChange_def Let_def

lemma serve_started:
  "StartManager \<in> set (snd (serve R t)) \<longleftrightarrow> StartManager \<in> set t \<or> add_readyz R = None"
  "fst (serve R t) = (if add_readyz R = None \<and> start R = None then Returned else Exit 1)"
  by (auto simp: serve_def die_def Let_def split: option.split)

lemma start_controller_started:
  assumes "StartManager \<notin> set t"
  shows "StartManager \<in> set (snd (start_controller L E R f t)) \<longleftrightarrow>
      (\<exists>ws. controller_ready L E R f ws) \<and> add_readyz R = None"
    and "fst (start_controller L E R f t) =
      (if (\<exists>ws. controller_ready L E R f ws) \<and> add_readyz R = None \<and> start R = None then Returned else Exit 1)"
  using assms
  by (auto simp: start_controller_def die_def Let_def controller_ready_def loaded_def serve_started
      split: sum.split option.split)

lemma main_flags:
  assumes "isFIPS140Only R E" "flag_Parse R flag_defaults = Inr f"
  shows "StartManager \<in> set (snd (main L E R)) \<longleftrightarrow>
      logging_ready R f \<and> (\<exists>ws. controller_ready L E R f ws) \<and> add_readyz R = None"
    and "fst (main L E R) = (if logging_ready R f \<and> (\<exists>ws. controller_ready L E R f ws) \<and> add_readyz R = None
      \<and> start R = None then Returned else Exit 1)"
proof -
  have "(StartManager \<in> set (snd (main L E R)) \<longleftrightarrow>
      logging_ready R f \<and> (\<exists>ws. controller_ready L E R f ws) \<and> add_readyz R = None)
    \<and> fst (main L E R) = (if logging_ready R f \<and> (\<exists>ws. controller_ready L E R f ws) \<and> add_readyz R = None
      \<and> start R = None then Returned else Exit 1)"
  proof (cases "logging_ready R f")
    case True
    with assms have m: "main L E R = start_controller L E R f [GoReconfigure (configPath f), SetLogger]"
      by (auto simp: main_def ReconfigureOnConfigChange_def logging_ready_def)
    show ?thesis
      unfolding m using True start_controller_started [of "[GoReconfigure (configPath f), SetLogger]" L E R f] by simp
  next
    case False
    with assms show ?thesis by (auto simp: main_def die_def logging_ready_def split: sum.split)
  qed
  then show "StartManager \<in> set (snd (main L E R)) \<longleftrightarrow>
      logging_ready R f \<and> (\<exists>ws. controller_ready L E R f ws) \<and> add_readyz R = None"
    and "fst (main L E R) = (if logging_ready R f \<and> (\<exists>ws. controller_ready L E R f ws) \<and> add_readyz R = None
      \<and> start R = None then Returned else Exit 1)" by blast+
qed

lemma parse_codes: "parse_args R args f = Inl code \<Longrightarrow> code = 0 \<or> code = 2"
  by (induction R args f rule: parse_args.induct)
     (auto simp: Let_def split: if_splits prod.splits option.splits list.splits)

text \<open>
  C21: The manager is started exactly when the process runs in FIPS mode, the command line is
  understood, the logging configuration is valid, the manager is made, the two files of the module load, the controller
  is built and the readiness check is added; a failing health check does not matter.  The process
  panics exactly without FIPS mode; exits with code 0 when help was asked for and with code 2 when the
  command line is wrong; returns exactly when it was started and stopped without error; and ends with
  exit code 1 otherwise.
\<close>

theorem manager_started_iff_ready:
  "(StartManager \<in> set (snd (main L E R)) \<longleftrightarrow> ready L E R)
   \<and> fst (main L E R) =
       (if \<not> isFIPS140Only R E then Panicked fips_message
        else case parse_args R (os_Args R) flag_defaults of
               Inl code \<Rightarrow> Exit code
             | Inr f \<Rightarrow> if ready L E R \<and> start R = None then Returned else Exit 1)
   \<and> fst (main L E R) \<in> {Panicked fips_message, Exit 0, Exit 2, Exit 1, Returned}"
proof (cases "isFIPS140Only R E")
  case True
  show ?thesis
  proof (cases "flag_Parse R flag_defaults")
    case (Inl code)
    then show ?thesis
      using True parse_codes [of R "os_Args R" flag_defaults code] by (auto simp: main_def ready_def flag_Parse_def)
  next
    case (Inr f)
    then show ?thesis
      using main_flags [OF True Inr, of L] True by (auto simp: ready_def flag_Parse_def)
  qed
qed (simp add: main_def ready_def split: sum.split)

text \<open>Some command lines.\<close>

lemma command_lines:
  "parse_args R [''--leader-elect'', ''--config-path=/c'', ''-metrics-bind-address'', '':9090''] flag_defaults
     = Inr (flag_defaults\<lparr>enableLeaderElection := True, configPath := ''/c'', metricsAddr := '':9090''\<rparr>)"
  "parse_args R [''--leader-elect=maybe''] f = Inl 2" "parse_args R [''--config-path''] f = Inl 2"
  "other_flags R ''help'' = None \<Longrightarrow> parse_args R [''--leader-elect=F'', ''--help''] f = Inl 0"
  by (simp_all add: cut_value_def flag_lookup_def ParseBool_def)

section \<open>The order of the calls\<close>

fun is_Print :: "startup_call \<Rightarrow> bool" where
  "is_Print (Print s) = True"
| "is_Print _ = False"

abbreviation "calls_of t \<equiv> filter (\<lambda>c. \<not> is_Print c) t"

text \<open>
  The process makes its calls in one fixed order and stops at the first that fails: whatever
  fails, they are an initial part of: watch the logging configuration, set the logger, make the
  manager, complete the controller, add the health and the readiness check, start.
\<close>

theorem startup_order:
  "\<exists>f ws. flag_Parse R flag_defaults \<in> range Inl \<union> {Inr f} \<and> prefix (calls_of (snd (main L E R)))
     [GoReconfigure (configPath f), SetLogger, NewManager (manager_options_of f), CompleteController ws,
      AddHealthzCheck ''healthz'', AddReadyzCheck ''readyz'', StartManager]"
  by (cases "flag_Parse R flag_defaults") (auto simp: startup_defs split: sum.split option.split)

section \<open>The objects of the controller\<close>

lemma LoadFromPaths_two:
  "LoadFromPaths L E [p, q] = Inr objs \<longleftrightarrow>
     (\<exists>a b xs ys. e_open E p = Inr a \<and> LoadData L a = Inr xs \<and> e_open E q = Inr b \<and> LoadData L b = Inr ys
        \<and> objs = xs @ ys)"
  by (auto simp: LoadFromPaths_def split: sum.split)

lemma CompleteController_ready:
  "CompleteController ws \<in> set (snd (main L E R)) \<Longrightarrow>
     \<exists>objs. loaded L E = Inr objs \<and> SetupWithManager L (NewKedaReconciler E objs) = Inr ws"
  by (auto simp: startup_defs loaded_def split: sum.splits option.splits if_splits)

text \<open>
  C32: The controller that the process builds watches what the files hold: the network policies of
  the first file and the KEDA manifests of the second, in this order, one object for each kind that
  occurs in them.  The hash is taken to be free of collisions on these kinds.
\<close>

theorem files_watched:
  assumes "CompleteController ws \<in> set (snd (main L E R))"
    and "\<And>objs. loaded L E = Inr objs \<Longrightarrow>
      inj_on (\<lambda>x. Base64URL L (Sha256 L x)) (sum_input L ` set objs)"
  shows "\<exists>a b xs ys watched.
     e_open E ''keda-networkpolicies.yaml'' = Inr a \<and> LoadData L a = Inr xs
     \<and> e_open E ''keda.yaml'' = Inr b \<and> LoadData L b = Inr ys
     \<and> ws = ForKeda # WatchKedaDeletion # map WatchObject watched
     \<and> subseq watched (xs @ ys) \<and> distinct (map (sum_input L) watched)
     \<and> sum_input L ` set watched = sum_input L ` set (xs @ ys)"
proof -
  obtain objs where o: "loaded L E = Inr objs" "SetupWithManager L (NewKedaReconciler E objs) = Inr ws"
    using CompleteController_ready [OF assms(1)] by blast
  obtain a b xs ys where f: "e_open E ''keda-networkpolicies.yaml'' = Inr a" "LoadData L a = Inr xs"
    "e_open E ''keda.yaml'' = Inr b" "LoadData L b = Inr ys" "objs = xs @ ys"
    using o(1) by (auto simp: loaded_def LoadFromPaths_two)
  have "f_Objs (NewKedaReconciler E objs) = xs @ ys" by (simp add: NewKedaReconciler_def f(5))
  with setup_watches [of L "NewKedaReconciler E objs"] assms(2) [OF o(1)] o(2) f show ?thesis by auto
qed

section \<open>A concrete process\<close>

definition ref_runtime :: runtime where
  "ref_runtime = \<lparr>fips140_Enabled = True, os_Args = [], other_flags = (\<lambda>name. None),
     LoadConfig = (\<lambda>p. Inr \<lparr>LogLevel = ''info'', LogFormat = ''json''\<rparr>),
     GetConfig = (\<lambda>p. Inr \<lparr>LogLevel = ''info'', LogFormat = ''json''\<rparr>),
     ParseLevel = (\<lambda>s. Inr 0), MapLevel = Inr, MapFormat = Inr, NewWithAtomicLevel = (\<lambda>f l. None),
     InitKlog = (\<lambda>l. None), cluster_config = True, new_manager = (\<lambda>opts. None),
     builder_Complete = (\<lambda>ws. None), add_healthz = None, add_readyz = None, start = None\<rparr>"

definition ref_host :: env where
  "ref_host = ref_env\<lparr>e_getenv := (\<lambda>x. if x = ''GODEBUG'' then ''fips140=only,tlsmlkem=0'' else []),
     e_open := (\<lambda>p. Inr ''x'')\<rparr>"

definition ref_text :: obj where
  "ref_text = fmap_of_list [(''kind'', JStr ''Text''), (''text'', JStr ''x'')]"

lemma ref_LoadData: "LoadData ref_lib ''x'' = Inr [ref_text]"
proof -
  have "fmlookup ref_text ''kind'' \<noteq> fmlookup fmempty ''kind''" by (simp add: ref_text_def)
  then have n: "ref_text \<noteq> fmempty" by metis
  have u: "ref_unmarshal ''x'' = Inr ref_text" "ref_marshal ref_text = Inr ''x''" "ref_decode ''x'' = [Inr ref_text]"
    by (simp_all add: ref_unmarshal_def ref_marshal_def ref_decode_def ref_text_def fld_str_def)
  have "gvk_Kind (ref_gvk ref_text) = ''Text''" by (simp add: ref_gvk_def str_at_def ref_text_def)
  with n u show ?thesis by (simp add: LoadData_def ref_lib_simps normalizeToJSON_def)
qed

lemma ref_loaded: "loaded ref_lib ref_host = Inr [ref_text, ref_text]"
  by (simp add: loaded_def LoadFromPaths_two ref_host_def ref_LoadData)

lemma ref_inj: "inj_on (\<lambda>x. Base64URL ref_lib (Sha256 ref_lib x)) K"
  by (simp add: ref_lib_simps)

lemma ref_completes: "\<exists>ws. CompleteController ws \<in> set (snd (main ref_lib ref_host ref_runtime))"
  using setup_watches [OF ref_inj, of "NewKedaReconciler ref_host [ref_text, ref_text]"] ref_loaded
  by (auto simp: startup_defs flag_Parse_def ref_runtime_def isFIPS140Only_def ref_host_def load_config_def
      ConfigureLogger_def loaded_def)

theorem files_watched_witness:
  "\<exists>ws watched. CompleteController ws \<in> set (snd (main ref_lib ref_host ref_runtime))
     \<and> ws = ForKeda # WatchKedaDeletion # map WatchObject watched
     \<and> sum_input ref_lib ` set watched = sum_input ref_lib ` {ref_text}"
proof -
  obtain ws where ws: "CompleteController ws \<in> set (snd (main ref_lib ref_host ref_runtime))"
    using ref_completes by blast
  from files_watched [OF this ref_inj] obtain a b xs ys watched where
    w: "e_open ref_host ''keda-networkpolicies.yaml'' = Inr a" "LoadData ref_lib a = Inr xs"
      "e_open ref_host ''keda.yaml'' = Inr b" "LoadData ref_lib b = Inr ys"
      "ws = ForKeda # WatchKedaDeletion # map WatchObject watched"
      "sum_input ref_lib ` set watched = sum_input ref_lib ` set (xs @ ys)" by blast
  have "e_open ref_host p = Inr ''x''" for p by (simp add: ref_host_def)
  with w(1-4) have "set (xs @ ys) = {ref_text}" using ref_LoadData by auto
  with ws w(5,6) show ?thesis by auto
qed

end
