(* ===== verification/Addon_Properties.thy ===== *)
theory Addon_Properties
  imports Delete_Properties Apply_Properties
begin

text \<open>
  Properties of the HTTP add-on: the guard of the disable path, what enabling and disabling leave on
  the cluster and in the resource, and how the manifests are rewritten for a namespace.
\<close>

section \<open>The installation does not touch the metadata\<close>

text \<open>
  No update state of a chain changes the metadata of the instance, and no chain ends in a state of the
  add-on that acts on it.
\<close>

fun acts_on_addon :: "stateFn \<Rightarrow> bool" where
  "acts_on_addon SFnApplyAddon = True"
| "acts_on_addon SFnDeleteAddon = True"
| "acts_on_addon _ = False"

fun keeps_meta :: "stateFn \<Rightarrow> bool" where
  "keeps_meta (SFnUpdateObject u upd next) \<longleftrightarrow>
     (\<forall>k f ob e ob' k'. upd k = Some f \<longrightarrow> f ob = Ret (e, ob', k') \<longrightarrow> k_Meta k' = k_Meta k)
     \<and> keeps_meta next \<and> \<not> acts_on_addon next"
| "keeps_meta _ \<longleftrightarrow> True"

lemma share_meta [simp]:
  "k_Meta (share_operator c k) = k_Meta k" "k_Meta (share_metrics c k) = k_Meta k"
  "k_Meta (share_webhook c k) = k_Meta k" "k_Meta (unshared x k) = k_Meta k"
  by (simp_all add: share_operator_def share_metrics_def share_webhook_def unshared_def map_logging_def)

lemma keeps_meta_build:
  "(\<And>x k. k_Meta (share x k) = k_Meta k) \<Longrightarrow> keeps_meta next \<Longrightarrow> \<not> acts_on_addon next \<Longrightarrow>
   keeps_meta (buildSfnUpdateObject conv u update getData share next)"
  by (auto simp: buildSfnUpdateObject_def go_bind_Ret_iff split: option.splits)

lemma keeps_meta_chains:
  "keeps_meta (buildSfnUpdateOperatorLogging L u)" "keeps_meta (buildSfnUpdateMetricsSvrLogging L u)"
  "keeps_meta (buildSfnUpdateAdmissionWebhooksLogging L u)"
  unfolding chain_defs
  by (intro keeps_meta_build; simp add: buildSfnUpdateObject_def)+

lemma status_meta [simp]:
  "k_Meta (UpdateStateFromErr L now c r err k) = k_Meta k"
  "k_Meta (UpdateStateReplicaFailure L now c r msg k) = k_Meta k"
  "k_Meta (UpdateStateProcessing L now c r msg k) = k_Meta k"
  "k_Meta (UpdateStateReady L now c r msg k) = k_Meta k"
  "k_Meta (RemoveCondition L c k) = k_Meta k" "k_Meta (set_KedaVersion v k) = k_Meta k"
  by (simp_all add: status_defs set_KedaVersion_def)

abbreviation "meta_is m \<equiv> \<lambda>fn s. keeps_meta fn \<and> (installs fn \<longrightarrow> k_Meta (s_instance s) = m)"

lemma leads_meta:
  assumes "installs fn" "keeps_meta fn" "\<not> acts_on_addon fn"
  shows "leads (meta_is (k_Meta (s_instance s))) (exec L E fn r s)"
proof (cases "fn = SFnApply")
  case True
  then show ?thesis
    by (auto simp: sFnApply_def dest: apply_loop_instance split: prod.split go.split)
next
  case False
  with assms show ?thesis
    by (cases fn)
       (auto simp: sFnUpdateKedaDeployment_def sFnUpdateMetricsServerDeployment_def
          sFnUpdateAdmissionWebhooksDeployment_def sfnUpdateAdmissionWebhooksNetworkPolicy_def
          sFnUpdateObject_def sFnVerify_def sFnHandleAddon_def sFnGuardAddonInUse_def
          keeps_meta_chains keeps_meta_build Let_def split: step_splits)
qed

section \<open>The guard\<close>

text \<open>HTTPScaledObjects are in use, or their use cannot be established.\<close>

definition in_use :: "env \<Rightarrow> bool" where
  "in_use E \<longleftrightarrow> (\<forall>h. case e_list E h httpScaledObjectGVK of
      (None, us) \<Rightarrow> us \<noteq> []
    | (Some e, us) \<Rightarrow> err_class e \<noteq> NotFound \<and> err_class e \<noteq> NoMatch)"

lemma guard_in_use:
  assumes "in_use E"
  shows "leads (\<lambda>fn s. is_UpdateStatus fn) (sFnGuardAddonInUse L E r s)"
  using assms unfolding in_use_def
  by (elim allE [where x = "f_hist r"])
     (auto simp: sFnGuardAddonInUse_def httpScaledObjectsInUse_def client_List_def IsNotFound_def
        IsNoMatchError_def split: prod.splits option.splits sum.splits if_splits)

lemma leads_no_addon:
  assumes "installs fn" "keeps_meta fn" "\<not> acts_on_addon fn"
    and "in_use E" "\<not> addon_Enabled (ReadAddonCfg (s_instance s))"
  shows "leads (\<lambda>fn s. \<not> acts_on_addon fn) (exec L E fn r s)"
proof (cases "fn = SFnGuardAddonInUse")
  case True
  then show ?thesis
    using guard_in_use [OF assms(4), of L r s]
    by simp (erule leads_mono, metis acts_on_addon.simps(21) is_UpdateStatus.elims(2))
next
  case False
  with assms show ?thesis
    by (cases fn)
       (auto simp: sFnUpdateKedaDeployment_def sFnUpdateMetricsServerDeployment_def
          sFnUpdateAdmissionWebhooksDeployment_def sfnUpdateAdmissionWebhooksNetworkPolicy_def
          sFnUpdateObject_def sFnVerify_def sFnHandleAddon_def sFnApply_def build_defs
          Let_def split: step_splits)
qed

abbreviation "addon_untouched \<equiv> \<lambda>q. \<not> is_ReqDelete q \<and> \<not> is_ReqHTTPGet q"

lemma allowed_untouched:
  assumes "allowed fn q" "phase L r v fn s" "\<not> deleting v" "\<not> acts_on_addon fn"
  shows "addon_untouched q"
proof (cases q)
  case (ReqDelete u)
  with assms show ?thesis by (cases fn) (auto simp: delete_ok_def)
next
  case (ReqHTTPGet u)
  with assms show ?thesis by (cases fn) auto
qed simp_all

lemma leads_start:
  assumes "phase L r0 v fn s" "\<not> installs fn" "\<not> deleting v" "f_Finalizer r = f_Finalizer r0"
  shows "leads (\<lambda>fn s. \<not> acts_on_addon fn \<and> meta_is (k_Meta v) fn s) (exec L E fn r s)"
  using assms
  by (cases fn)
     (auto simp: sFnServedFilter_def sFnTakeSnapshot_def sFnInitialize_def
        sFnBootstrapperValidation_def sFnRemoveFinalizer_def sFnUpdateStatus_def delete_ok_def
        sFnEmitEventfunc_def deleting_def Let_def split: step_splits)

text \<open>
  C13: While HTTPScaledObjects exist on the cluster, or listing them fails for another reason than a
  missing type, a run on a resource whose add-on is disabled and that is not being deleted deletes
  nothing and does not fetch the manifests: the add-on stays.
\<close>

theorem guard_protects_addon:
  assumes "in_use E" "\<not> addon_Enabled (ReadAddonCfg v)" "\<not> deleting v"
  shows "hist_ext addon_untouched r (fst (snd (Run L E r v)))"
proof -
  let ?P = "\<lambda>fn s. \<not> acts_on_addon fn \<and> meta_is (k_Meta v) fn s"
  let ?I = "\<lambda>f ra s. effect addon_untouched r ra \<and> (\<forall>fn. f = Some fn \<longrightarrow> ?P fn s)"
  have "effect addon_untouched r (fst (snd (Run L E r v)))"
  proof (rule Run_rule [OF Run_collapse, where I = ?I and Q = "\<lambda>ra s. effect addon_untouched r ra"])
    fix fn ra s y r1 s1
    assume I: "?I (Some fn) ra s" and p: "phase L r v fn s" and f: "f_Finalizer ra = f_Finalizer r"
      and e: "exec L E fn ra s = (y, r1, s1)"
    from I have na: "\<not> acts_on_addon fn" by simp
    have "effect addon_untouched ra r1"
      by (rule effect_mono [OF exec_effect [OF e]]) (rule allowed_untouched [OF _ p assms(3) na])
    then have u: "effect addon_untouched r r1" using I by (elim conjE) (rule effect_trans)
    have "leads ?P (exec L E fn ra s)"
    proof (cases "installs fn")
      case True
      then have "\<not> addon_Enabled (ReadAddonCfg (s_instance s))"
        using I assms(2) by (simp add: ReadAddonCfg_def)
      then have "leads (\<lambda>fn s. \<not> acts_on_addon fn) (exec L E fn ra s)"
        using I leads_no_addon [OF True _ na assms(1)] by simp
      moreover have "leads (meta_is (k_Meta v)) (exec L E fn ra s)"
        using I True leads_meta [OF True _ na, of s L E ra] by simp
      ultimately show ?thesis
        by (auto simp: leads_def split: prod.splits go.splits option.splits)
    qed (rule leads_start [OF p _ assms(3) f])
    with e u show "case y of Ret (f, x, None) \<Rightarrow> ?I f r1 s1 | _ \<Rightarrow> effect addon_untouched r r1"
      by (auto split: go.split prod.split option.split)
  qed simp_all
  then show ?thesis by (simp add: effect_def)
qed

text \<open>A cluster on which one HTTPScaledObject exists.\<close>

definition used_env :: env where
  "used_env = ref_env\<lparr>e_list := (\<lambda>h g. (None, [fmempty]))\<rparr>"

theorem guard_protects_addon_witness:
  "hist_ext addon_untouched ref_fsm (fst (snd (Run ref_lib used_env ref_fsm ref_keda)))"
  using guard_protects_addon [of used_env ref_keda ref_fsm ref_lib]
  by (simp add: in_use_def used_env_def ReadAddonCfg_def deleting_def IsZero_def ref_keda_def ref_meta_def)

section \<open>Enabling\<close>

text \<open>
  What one call of \<open>applyObjects\<close> does: every object is patched, in order, whatever the previous ones
  answered; the history before each call determines its answer.
\<close>

fun patches :: "env \<Rightarrow> hist \<Rightarrow> obj list \<Rightarrow> (goerror option \<times> obj) list" where
  "patches E h [] = []"
| "patches E h (u # us) = e_patch E h u # patches E (h @ [ReqPatch u]) us"

lemma applyObjects_loop_eq:
  "applyObjects_loop E us e r =
     (fold (\<lambda>a acc. join_opt acc (fst a)) (patches E (f_hist r) us) e,
      map snd (patches E (f_hist r) us), r\<lparr>f_hist := f_hist r @ map ReqPatch us\<rparr>)"
  by (induction us arbitrary: e r)
     (auto simp: client_Patch_def log_req_def split: prod.split)

lemma fold_join_None:
  "fold (\<lambda>a acc. join_opt acc (fst a)) xs e = None \<longleftrightarrow> e = None \<and> (\<forall>a \<in> set xs. fst a = None)"
  by (induction xs arbitrary: e) auto

lemma applyObjects_eq:
  "applyObjects E us r =
     (fold (\<lambda>a acc. join_opt acc (fst a)) (patches E (f_hist r) us) None,
      map snd (patches E (f_hist r) us), r\<lparr>f_hist := f_hist r @ map ReqPatch us\<rparr>)"
  by (simp add: applyObjects_def applyObjects_loop_eq)

text \<open>The Istio resource was deleted, or is not there.\<close>

definition istio_gone :: "env \<Rightarrow> string \<Rightarrow> hist \<Rightarrow> bool" where
  "istio_gone E ns h \<longleftrightarrow>
     (let e = e_delete E h (PeerAuthentication ns) in IgnoreNotFound e = None \<or> IsNoMatchError e)"

lemma deletePeerAuthentication_cases:
  "deletePeerAuthentication E ns r = (e, r') \<Longrightarrow>
     r' = log_req (ReqDelete (PeerAuthentication ns)) r \<and> (e = None \<longleftrightarrow> istio_gone E ns (f_hist r))"
  by (auto simp: deletePeerAuthentication_def client_Delete_def istio_gone_def Let_def
      split: if_splits)

text \<open>
  All objects were patched successfully from the history \<open>h\<close> on, and without Istio injection the Istio
  resource was removed after them, which leads to the history \<open>h'\<close>.
\<close>

definition all_patched :: "env \<Rightarrow> hist \<Rightarrow> obj list \<Rightarrow> bool" where
  "all_patched E h objs \<longleftrightarrow> (\<forall>a\<in>set (patches E h objs). fst a = None)"

definition addon_applied :: "env \<Rightarrow> string \<Rightarrow> bool \<Rightarrow> obj list \<Rightarrow> hist \<Rightarrow> hist \<Rightarrow> bool" where
  "addon_applied E ns istio objs h h' \<longleftrightarrow>
     all_patched E h objs
   \<and> (if istio then h' = h @ map ReqPatch objs
      else istio_gone E ns (h @ map ReqPatch objs)
         \<and> h' = h @ map ReqPatch objs @ [ReqDelete (PeerAuthentication ns)])"

text \<open>
  The end of a change of the add-on: the resource \<open>k0\<close> with the condition is sent to the server after
  the history \<open>h\<close>, and its status is kept whatever the server answers.
\<close>

definition persisted ::
  "k8s_lib \<Rightarrow> Keda \<Rightarrow> string \<Rightarrow> string \<Rightarrow> string \<Rightarrow> hist \<Rightarrow> fsm \<Rightarrow> systemState \<Rightarrow> bool" where
  "persisted L k0 st reason msg h r' s' \<longleftrightarrow>
     (\<exists>k. f_hist r' = h @ [ReqUpdate k] \<and> k_Status (s_instance s') = k_Status k
        \<and> status_effect L k0 (st_State (k_Status k0)) conditionTypeAddon st reason msg k)"

definition failed ::
  "k8s_lib \<Rightarrow> string \<Rightarrow> goerror \<Rightarrow> fsm \<Rightarrow> systemState \<Rightarrow> fsm \<Rightarrow> systemState \<Rightarrow> bool" where
  "failed L reason err r s r' s' \<longleftrightarrow>
     status_effect L (s_instance s) (st_State (k_Status (s_instance s))) conditionTypeAddon ''False''
       reason (Error err) (s_instance s')
   \<and> hist_ext (\<lambda>q. \<not> is_ReqUpdate q) r r'"

lemma SetAddonCondition_effect:
  "conditions_doc L \<Longrightarrow> status_effect L k (st_State (k_Status k)) conditionTypeAddon st reason msg
     (SetAddonCondition L now st reason msg k)"
  using set_condition_effect [of L k "st_State (k_Status k)"]
  by (simp add: SetAddonCondition_def set_state_same)

lemma persist_persisted:
  assumes "conditions_doc L"
    and "persist_annotations E r (addon_condition L E r st reason msg (set_instance k0 s)) = (r', s')"
  shows "persisted L k0 st reason msg (f_hist r) r' s'"
  using assms(2) SetAddonCondition_effect [OF assms(1)]
  by (fastforce simp: persist_annotations_def client_Update_def addon_condition_def persisted_def Let_def
      split: prod.splits)

lemma failedI:
  "conditions_doc L \<Longrightarrow> hist_ext (\<lambda>q. \<not> is_ReqUpdate q) r r' \<Longrightarrow>
   failed L reason err r s r' (addon_condition L E r' ''False'' reason (Error err) s)"
  by (simp add: failed_def addon_condition_def SetAddonCondition_effect)

text \<open>The recorded version and namespace of the installation.\<close>

definition record_addon :: "string \<Rightarrow> string \<Rightarrow> Keda \<Rightarrow> Keda" where
  "record_addon version ns k =
     SetAnnotation AnnotationAddonInstalledNamespace ns (SetAnnotation AnnotationAddonInstalledVersion version k)"

lemma hist_ext_append: "f_hist r' = f_hist r @ qs \<Longrightarrow> list_all P qs \<Longrightarrow> hist_ext P r r'"
  by (auto simp: hist_ext_def)

lemma apply_fetched_patch_fails:
  assumes doc: "conditions_doc L" and np: "\<not> all_patched E (f_hist r) objs"
    and a: "apply_fetched L E cfg version ns objs r s = (y, r', s')"
  shows "y = Ret stopWithNoRequeue \<and> f_hist r' = f_hist r @ map ReqPatch objs
    \<and> (\<exists>err. failed L ConditionReasonAddonInstallErr err r s r' s')"
proof -
  have "fst (applyObjects E objs r) \<noteq> None"
    using np by (simp add: applyObjects_eq fold_join_None all_patched_def)
  then obtain e where e: "fst (applyObjects E objs r) = Some e" by blast
  have r: "y = Ret stopWithNoRequeue" "r' = r\<lparr>f_hist := f_hist r @ map ReqPatch objs\<rparr>"
    "s' = addon_condition L E r' ''False'' ConditionReasonAddonInstallErr (Error e) s"
    using a e by (auto simp: apply_fetched_def applyObjects_eq)
  have "hist_ext (\<lambda>q. \<not> is_ReqUpdate q) r r'"
    by (rule hist_ext_append [where qs = "map ReqPatch objs"]) (simp_all add: list_all_iff r)
  then have "failed L ConditionReasonAddonInstallErr e r s r' s'"
    unfolding r(3) by (rule failedI [OF doc])
  then show ?thesis using r(1,2) by auto
qed

lemma apply_fetched_cases:
  assumes doc: "conditions_doc L"
    and a: "apply_fetched L E cfg version ns objs r s = (y, r', s')"
  shows "y = Ret stopWithNoRequeue \<and>
    (if all_patched E (f_hist r) objs
        \<and> (addon_IstioInjection cfg \<or> istio_gone E ns (f_hist r @ map ReqPatch objs))
     then \<exists>h. addon_applied E ns (addon_IstioInjection cfg) objs (f_hist r) h
        \<and> persisted L (record_addon version ns (s_instance s)) ''True'' ConditionReasonAddonInstalled
             (installed_message version ns) h r' s'
     else prefix (f_hist r @ map ReqPatch objs) (f_hist r')
        \<and> (\<exists>err. failed L ConditionReasonAddonInstallErr err r s r' s'))"
proof (cases "all_patched E (f_hist r) objs")
  case False
  with apply_fetched_patch_fails [OF doc False a] show ?thesis by simp
next
  case True
  then have p: "fst (applyObjects E objs r) = None"
    by (simp add: applyObjects_eq fold_join_None all_patched_def)
  let ?r = "r\<lparr>f_hist := f_hist r @ map ReqPatch objs\<rparr>"
  let ?istio = "addon_IstioInjection cfg"
  obtain e r2 where d: "(if \<not> ?istio then deletePeerAuthentication E ns ?r else (None, ?r)) = (e, r2)"
    by (meson surj_pair)
  have e: "e = None \<longleftrightarrow> ?istio \<or> istio_gone E ns (f_hist ?r)" and
    h: "f_hist r2 = f_hist r @ map ReqPatch objs
          @ (if ?istio then [] else [ReqDelete (PeerAuthentication ns)])"
    using d by (auto dest: deletePeerAuthentication_cases split: if_splits)
  show ?thesis
  proof (cases e)
    case None
    then have "addon_applied E ns ?istio objs (f_hist r) (f_hist r2)"
      using e h True by (auto simp: addon_applied_def)
    moreover have "y = Ret stopWithNoRequeue \<and> persisted L (record_addon version ns (s_instance s))
        ''True'' ConditionReasonAddonInstalled (installed_message version ns) (f_hist r2) r' s'"
      using a None p d persist_persisted [OF doc, of E "r2\<lparr>f_AddonObjs := map snd (patches E (f_hist r) objs)\<rparr>"]
      by (auto simp: apply_fetched_def applyObjects_eq record_addon_def Let_def split: prod.splits)
    ultimately show ?thesis using e None True by auto
  next
    case (Some err)
    then have r: "y = Ret stopWithNoRequeue" "r' = r2"
      "s' = addon_condition L E r' ''False'' ConditionReasonAddonInstallErr (Error err) s"
      using a p d by (auto simp: apply_fetched_def applyObjects_eq split: prod.splits)
    have "hist_ext (\<lambda>q. \<not> is_ReqUpdate q) r r'"
      unfolding r(2) by (rule hist_ext_append [OF h]) (simp add: list_all_iff)
    then have "failed L ConditionReasonAddonInstallErr err r s r' s'"
      unfolding r(3) by (rule failedI [OF doc])
    then show ?thesis using e h Some r(1,2) by auto
  qed
qed

text \<open>
  The calls before the manifests are applied: the namespace and the cleanup of a previous
  installation.
\<close>

abbreviation "prepares \<equiv> \<lambda>ns q. q = ReqCreateNamespace ns \<or> is_ReqHTTPGet q \<or> is_ReqDelete q"

lemma prepares_no_update: "hist_ext (prepares ns) r r' \<Longrightarrow> hist_ext (\<lambda>q. \<not> is_ReqUpdate q) r r'"
  by (erule hist_ext_mono) (auto elim: is_ReqHTTPGet.elims is_ReqDelete.elims)

lemma apply_addon_prepared:
  assumes a: "sFnApplyAddon L E r s = (Ret y, r', s')" and n: "ensureNamespace E ns r = (None, r1)"
    and cfg: "cfg = ReadAddonCfg (s_instance s)" "ns = EffectiveNamespace cfg"
  shows "\<exists>ra rb x. hist_ext (prepares ns) r ra \<and> hist_ext (\<lambda>q. \<not> is_ReqUpdate q) r rb
    \<and> fetchAddonObjs L E DefaultAddonVersion ns (addon_IstioInjection cfg) ra = (Ret x, rb)
    \<and> (case x of
         Inl err \<Rightarrow> y = stopWithNoRequeue \<and> r' = rb
           \<and> s' = addon_condition L E rb ''False'' ConditionReasonAddonInstallErr (Error err) s
       | Inr objs \<Rightarrow> apply_fetched L E cfg DefaultAddonVersion ns objs rb s = (Ret y, r', s'))"
proof -
  let ?ann = "meta_Annotations (k_Meta (s_instance s))"
  obtain c ra where c: "cleanup_previous L E (map_get ?ann AnnotationAddonInstalledVersion)
      (map_get ?ann AnnotationAddonInstalledNamespace) DefaultAddonVersion ns r1 = (c, ra)" by fastforce
  obtain z rb where f: "fetchAddonObjs L E DefaultAddonVersion ns (addon_IstioInjection cfg) ra = (z, rb)"
    by fastforce
  have "hist_ext (prepares ns) r r1"
    using effect_ensureNamespace [OF n] by (auto simp: effect_def elim: hist_ext_mono)
  moreover have "hist_ext (prepares ns) r1 ra"
    using effect_cleanup_previous [OF c] by (auto simp: effect_def elim: hist_ext_mono)
  ultimately have ra: "hist_ext (prepares ns) r ra" using hist_ext_trans by blast
  have "hist_ext (prepares ns) ra rb"
    using effect_fetchAddonObjs [OF f] by (auto simp: effect_def elim: hist_ext_mono)
  then have rb: "hist_ext (\<lambda>q. \<not> is_ReqUpdate q) r rb"
    using ra hist_ext_trans prepares_no_update by blast
  obtain x where z: "z = Ret x"
    using a n cfg c f by (cases z) (auto simp: sFnApplyAddon_def Let_def split: go.splits)
  have "case x of
       Inl err \<Rightarrow> y = stopWithNoRequeue \<and> r' = rb
         \<and> s' = addon_condition L E rb ''False'' ConditionReasonAddonInstallErr (Error err) s
     | Inr objs \<Rightarrow> apply_fetched L E cfg DefaultAddonVersion ns objs rb s = (Ret y, r', s')"
    using a n cfg c f z by (auto simp: sFnApplyAddon_def Let_def split: go.splits sum.splits)
  with ra rb f z show ?thesis by blast
qed

text \<open>
  C15: When enabling the add-on returns, either the namespace exists, the manifests were fetched, every
  object was patched in order and acknowledged, and without Istio injection the Istio resource is gone;
  then the resource is updated with the installed version and namespace and the condition True, which
  stays in the status whatever the server answers.  Or one of these steps failed: then the condition is
  False with the error, the resource is not updated, its metadata and specification stay, and a failed
  object did not keep the others from being patched.  The overall state never changes.
\<close>

theorem apply_addon_outcome:
  assumes "conditions_doc L" "sFnApplyAddon L E r s = (Ret y, r', s')"
    and "cfg = ReadAddonCfg (s_instance s)" "ns = EffectiveNamespace cfg"
  shows "y = stopWithNoRequeue \<and>
    (if \<not> (e_create_ns E (f_hist r) ns = None \<or> IsAlreadyExists (e_create_ns E (f_hist r) ns))
     then \<exists>err. failed L ''HTTPAddonInstallErr'' err r s r' s'
     else \<exists>ra rb x. hist_ext (prepares ns) r ra
       \<and> fetchAddonObjs L E DefaultAddonVersion ns (addon_IstioInjection cfg) ra = (Ret x, rb)
       \<and> (case x of
            Inl err \<Rightarrow> failed L ''HTTPAddonInstallErr'' err r s r' s'
          | Inr objs \<Rightarrow>
              (if all_patched E (f_hist rb) objs
                  \<and> (addon_IstioInjection cfg \<or> istio_gone E ns (f_hist rb @ map ReqPatch objs))
               then \<exists>h. addon_applied E ns (addon_IstioInjection cfg) objs (f_hist rb) h
                  \<and> persisted L (record_addon DefaultAddonVersion ns (s_instance s)) ''True''
                       ''HTTPAddonInstalled'' (installed_message DefaultAddonVersion ns) h r' s'
               else prefix (f_hist rb @ map ReqPatch objs) (f_hist r')
                  \<and> (\<exists>err. failed L ''HTTPAddonInstallErr'' err r s r' s'))))"
proof -
  note doc = assms(1)
  obtain e r1 where n: "ensureNamespace E ns r = (e, r1)" by fastforce
  have e: "e = None \<longleftrightarrow> e_create_ns E (f_hist r) ns = None \<or> IsAlreadyExists (e_create_ns E (f_hist r) ns)"
    and n1: "hist_ext (prepares ns) r r1"
    using n effect_ensureNamespace [OF n]
    by (auto simp: ensureNamespace_def effect_def Let_def IsAlreadyExists_def
        split: option.splits if_splits elim: hist_ext_mono)
  show ?thesis
  proof (cases e)
    case (Some err)
    then show ?thesis
      using assms(2-4) n e failedI [OF doc prepares_no_update [OF n1]]
      by (fastforce simp: sFnApplyAddon_def Let_def)
  next
    case None
    obtain ra rb x where p: "hist_ext (prepares ns) r ra" "hist_ext (\<lambda>q. \<not> is_ReqUpdate q) r rb"
      "fetchAddonObjs L E DefaultAddonVersion ns (addon_IstioInjection cfg) ra = (Ret x, rb)"
      and x: "case x of
         Inl err \<Rightarrow> y = stopWithNoRequeue \<and> r' = rb
           \<and> s' = addon_condition L E rb ''False'' ConditionReasonAddonInstallErr (Error err) s
       | Inr objs \<Rightarrow> apply_fetched L E cfg DefaultAddonVersion ns objs rb s = (Ret y, r', s')"
      using apply_addon_prepared [OF assms(2) n [unfolded None] assms(3,4)] by blast
    have up: "failed L reason err rb s r' s' \<Longrightarrow> failed L reason err r s r' s'" for reason err
      using p(2) hist_ext_trans by (auto simp: failed_def)
    show ?thesis
    proof (cases x)
      case (Inl err)
      with x failedI [OF doc p(2)] p None e show ?thesis by auto
    next
      case (Inr objs)
      with x have "apply_fetched L E cfg DefaultAddonVersion ns objs rb s = (Ret y, r', s')" by simp
      note a = apply_fetched_cases [OF doc this]
      have c: "\<not> \<not> (e_create_ns E (f_hist r) ns = None \<or> IsAlreadyExists (e_create_ns E (f_hist r) ns))"
        using None e by simp
      show ?thesis
        unfolding if_not_P [OF c]
        by (intro conjI exI [of _ ra] exI [of _ rb] exI [of _ x])
           (use p a up Inr in \<open>auto split: if_splits\<close>)
    qed
  qed
qed

text \<open>A resource with the add-on enabled, in a namespace of its own.\<close>

definition ref_enabled :: Keda where
  "ref_enabled = ref_keda\<lparr>k_Meta := ref_meta\<lparr>meta_Annotations := Some (fmap_of_list
     [(AnnotationAddonEnabled, ''true''), (AnnotationAddonNamespace, ''http''),
      (AnnotationAddonIstioInjection, ''true'')])\<rparr>\<rparr>"

lemma ref_enabled_cfg: "ReadAddonCfg ref_enabled =
    \<lparr>addon_Enabled = True, addon_Namespace = ''http'', addon_IstioInjection = True\<rparr>"
  by (simp add: ReadAddonCfg_def ref_enabled_def map_get_def EqualFold_def)

section \<open>Disabling\<close>

text \<open>Every object was deleted or is gone, asked for in order from the history \<open>h\<close> on.\<close>

fun deletions :: "env \<Rightarrow> hist \<Rightarrow> obj list \<Rightarrow> goerror option list" where
  "deletions E h [] = []"
| "deletions E h (u # us) = IgnoreNotFound (e_delete E h u) # deletions E (h @ [ReqDelete u]) us"

lemma deleteObjects_loop_eq:
  "deleteObjects_loop E us e r =
     (fold (\<lambda>a acc. join_opt acc a) (deletions E (f_hist r) us) e,
      r\<lparr>f_hist := f_hist r @ map ReqDelete us\<rparr>)"
  by (induction us arbitrary: e r) (auto simp: client_Delete_def log_req_def)

lemma fold_join_opt_None:
  "fold (\<lambda>a acc. join_opt acc a) xs e = None \<longleftrightarrow> e = None \<and> (\<forall>a \<in> set xs. a = None)"
  by (induction xs arbitrary: e) auto

definition all_deleted :: "env \<Rightarrow> hist \<Rightarrow> obj list \<Rightarrow> bool" where
  "all_deleted E h objs \<longleftrightarrow> (\<forall>a\<in>set (deletions E h objs). a = None)"

lemma deleteObjects_cases:
  "deleteObjects E us r = (e, r') \<Longrightarrow>
     r' = r\<lparr>f_hist := f_hist r @ map ReqDelete us\<rparr> \<and> (e = None \<longleftrightarrow> all_deleted E (f_hist r) us)"
  by (auto simp: deleteObjects_def deleteObjects_loop_eq fold_join_opt_None all_deleted_def)

lemma delete_known_cases:
  assumes doc: "conditions_doc L"
    and a: "delete_known L E ns objs r s = (y, r', s')"
  shows "y = Ret stopWithNoRequeue \<and>
    (if all_deleted E (f_hist r) objs \<and> istio_gone E ns (f_hist r @ map ReqDelete objs)
     then persisted L (record_addon [] [] (s_instance s)) ''False'' ConditionReasonAddonDeleted
            ''HTTP add-on removed''
            (f_hist r @ map ReqDelete objs @ [ReqDelete (PeerAuthentication ns)]) r' s'
     else prefix (f_hist r @ map ReqDelete objs) (f_hist r')
        \<and> (\<exists>err. failed L ConditionReasonAddonInstallErr err r s r' s'))"
proof -
  obtain e r1 where d: "deleteObjects E objs r = (e, r1)" by fastforce
  obtain e2 r2 where p: "deletePeerAuthentication E ns r1 = (e2, r2)" by fastforce
  note dc = deleteObjects_cases [OF d] and pc = deletePeerAuthentication_cases [OF p]
  have u1: "hist_ext (\<lambda>q. \<not> is_ReqUpdate q) r r1"
    by (rule hist_ext_append [where qs = "map ReqDelete objs"]) (simp_all add: list_all_iff dc)
  have u2: "hist_ext (\<lambda>q. \<not> is_ReqUpdate q) r r2"
    using u1 by (rule hist_ext_trans) (simp add: pc)
  consider (one) err where "e = Some err" | (two) err where "e = None" "e2 = Some err"
    | (ok) "e = None" "e2 = None" by (cases e; cases e2) auto
  then show ?thesis
  proof cases
    case (one err)
    then have r: "y = Ret stopWithNoRequeue" "r' = r1"
      "s' = addon_condition L E r1 ''False'' ConditionReasonAddonInstallErr (Error err) s"
      using a d by (auto simp: delete_known_def)
    then have "failed L ConditionReasonAddonInstallErr err r s r' s'" using failedI [OF doc u1] by simp
    then show ?thesis using one dc r(1,2) by auto
  next
    case (two err)
    then have r: "y = Ret stopWithNoRequeue" "r' = r2"
      "s' = addon_condition L E r2 ''False'' ConditionReasonAddonInstallErr (Error err) s"
      using a d p by (auto simp: delete_known_def)
    then have "failed L ConditionReasonAddonInstallErr err r s r' s'" using failedI [OF doc u2] by simp
    then show ?thesis using two dc pc r(1,2) by auto
  next
    case ok
    then have "y = Ret stopWithNoRequeue \<and> persisted L (record_addon [] [] (s_instance s)) ''False''
        ConditionReasonAddonDeleted ''HTTP add-on removed'' (f_hist r2) r' s'"
      using a d p persist_persisted [OF doc, of E "r2\<lparr>f_AddonObjs := []\<rparr>"]
      by (auto simp: delete_known_def record_addon_def Let_def split: prod.splits)
    then show ?thesis using ok dc pc by auto
  qed
qed

text \<open>
  C16: When disabling the add-on returns and no installed version is recorded, nothing is called and the
  condition says that the add-on is disabled.  Otherwise the manifests of the recorded version are
  fetched again, every object in the recorded namespace is deleted, then the Istio resource; only if all
  of them are gone the recorded version and namespace are removed from the resource, which is sent
  with the condition that the add-on is removed.  After a failure the resource is not updated, so
  the next reconciliation tries again; the overall state never changes.
\<close>

theorem delete_addon_outcome:
  assumes "conditions_doc L" "sFnDeleteAddon L E r s = (Ret y, r', s')" "f_AddonObjs r = []"
    and "ann = meta_Annotations (k_Meta (s_instance s))"
    and "version = map_get ann AnnotationAddonInstalledVersion"
    and "ns = (if map_get ann AnnotationAddonInstalledNamespace = [] then DefaultAddonNamespace
               else map_get ann AnnotationAddonInstalledNamespace)"
  shows "y = stopWithNoRequeue \<and>
    (if version = []
     then r' = r \<and> status_effect L (s_instance s) (st_State (k_Status (s_instance s)))
            ''AddonInstalled'' ''False'' ''HTTPAddonDisabled'' ''HTTP add-on is disabled'' (s_instance s')
     else \<exists>x rb. fetchAddonObjs L E version ns False r = (Ret x, rb) \<and>
       (case x of
          Inl err \<Rightarrow> failed L ''HTTPAddonDeleted'' err r s r' s'
        | Inr objs \<Rightarrow>
            (if all_deleted E (f_hist rb) objs \<and> istio_gone E ns (f_hist rb @ map ReqDelete objs)
             then persisted L (record_addon [] [] (s_instance s)) ''False'' ''HTTPAddonDeleted''
                    ''HTTP add-on removed''
                    (f_hist rb @ map ReqDelete objs @ [ReqDelete (PeerAuthentication ns)]) r' s'
             else prefix (f_hist rb @ map ReqDelete objs) (f_hist r')
                \<and> (\<exists>err. failed L ''HTTPAddonInstallErr'' err r s r' s'))))"
proof (cases "version = []")
  case True
  then show ?thesis
    using assms(2-6) SetAddonCondition_effect [OF assms(1)]
    by (auto simp: sFnDeleteAddon_def addon_condition_def Let_def)
next
  case False
  obtain z rb where f: "fetchAddonObjs L E version ns False r = (z, rb)" by fastforce
  have rb: "hist_ext (\<lambda>q. \<not> is_ReqUpdate q) r rb"
    using effect_fetchAddonObjs [OF f]
    by (intro prepares_no_update [where ns = ns]) (auto simp: effect_def elim: hist_ext_mono)
  have d: "(case z of Panic p \<Rightarrow> (Panic p, rb, s)
      | Ret (Inl err) \<Rightarrow> (Ret stopWithNoRequeue, rb,
          addon_condition L E rb ''False'' ConditionReasonAddonDeleted (Error err) s)
      | Ret (Inr objs) \<Rightarrow> delete_known L E ns objs rb s) = (Ret y, r', s')"
    using assms(2-6) False f
    by (auto simp: sFnDeleteAddon_def Let_def split: go.splits sum.splits if_splits)
  then obtain x where z: "z = Ret x" by (cases z) auto
  show ?thesis
  proof (cases x)
    case (Inl err)
    then show ?thesis using d z False f failedI [OF assms(1) rb] by auto
  next
    case (Inr objs)
    then have "delete_known L E ns objs rb s = (Ret y, r', s')" using d z by simp
    note a = delete_known_cases [OF assms(1) this]
    have "failed L reason err rb s r' s' \<Longrightarrow> failed L reason err r s r' s'" for reason err
      using rb hist_ext_trans by (auto simp: failed_def)
    then show ?thesis using a Inr z f False by (simp split: if_splits) blast+
  qed
qed

section \<open>The instances at work\<close>

lemma ref_version: "ValidateVersion DefaultAddonVersion = Inr DefaultAddonVersion"
  by (simp add: ValidateVersion_def TrimPrefix_def HasPrefix_def versionRe_MatchString_def
      digits_dot_def is_digit_def Let_def)

lemma ref_fetch:
  "fetchAddonObjs ref_lib ref_env DefaultAddonVersion ns istio r =
     (Ret (Inr (if istio then [PeerAuthentication ns] else [])),
      log_req (ReqHTTPGet (releaseURL DefaultAddonVersion))
        (log_req (ReqHTTPGet (crdURL DefaultAddonVersion)) r))"
  by (simp add: fetchAddonObjs_def FetchResources_def ref_version fetchURL_def http_Get_def
      ref_env_simps ref_lib_simps LoadData_def ref_decode_def NetworkPolicies_def
      attachIstioAddonResources_def)

lemma ref_enabled_apply:
  "\<exists>r' s'. sFnApplyAddon ref_lib ref_env ref_fsm (init_state ref_enabled) = (Ret stopWithNoRequeue, r', s')"
  unfolding sFnApplyAddon_def init_state_simps ref_enabled_cfg Let_def
  by (simp add: ensureNamespace_def cleanup_previous_def ref_enabled_def map_get_def ref_env_simps
      ref_fetch EffectiveNamespace_def Let_def apply_fetched_def applyObjects_eq persist_annotations_def
      client_Update_def)

theorem apply_addon_outcome_witness:
  "\<exists>r' s' h. persisted ref_lib (record_addon DefaultAddonVersion ''http'' ref_enabled) ''True''
      ''HTTPAddonInstalled'' (installed_message DefaultAddonVersion ''http'') h r' s'"
proof -
  obtain r' s' where
    "sFnApplyAddon ref_lib ref_env ref_fsm (init_state ref_enabled) = (Ret stopWithNoRequeue, r', s')"
    using ref_enabled_apply by blast
  from apply_addon_outcome [OF ref_conditions_doc this refl refl] show ?thesis
    by (auto simp: ref_enabled_cfg EffectiveNamespace_def ref_env_simps ref_fetch all_patched_def)
qed

definition ref_installed :: Keda where
  "ref_installed = ref_keda\<lparr>k_Meta := ref_meta\<lparr>meta_Annotations := Some (fmap_of_list
     [(AnnotationAddonInstalledVersion, DefaultAddonVersion),
      (AnnotationAddonInstalledNamespace, ''http'')])\<rparr>\<rparr>"

lemma ref_installed_delete:
  "\<exists>r' s'. sFnDeleteAddon ref_lib ref_env ref_fsm (init_state ref_installed) = (Ret stopWithNoRequeue, r', s')"
  unfolding sFnDeleteAddon_def init_state_simps Let_def
  by (simp add: ref_installed_def map_get_def ref_env_simps ref_fsm_simps ref_fetch Let_def
      delete_known_def deleteObjects_def deletePeerAuthentication_def client_Delete_def
      persist_annotations_def client_Update_def)

theorem delete_addon_outcome_witness:
  "\<exists>r' s' h. persisted ref_lib (record_addon [] [] ref_installed) ''False'' ''HTTPAddonDeleted''
      ''HTTP add-on removed'' h r' s'"
proof -
  obtain r' s' where
    "sFnDeleteAddon ref_lib ref_env ref_fsm (init_state ref_installed) = (Ret stopWithNoRequeue, r', s')"
    using ref_installed_delete by blast
  from delete_addon_outcome [OF ref_conditions_doc this _ refl refl refl] show ?thesis
    by (auto simp: ref_fsm_simps ref_installed_def map_get_def ref_env_simps ref_fetch all_deleted_def
        istio_gone_def)
qed

end
