(* ===== verification/Cleanup_Properties.thy ===== *)
theory Cleanup_Properties
  imports Addon_Properties
begin

text \<open>
  Moving the HTTP add-on to another namespace: what is deleted, and without which check.
\<close>

lemma deletePeerAuthentication_hist:
  "f_hist (snd (deletePeerAuthentication E ns r)) = f_hist r @ [ReqDelete (PeerAuthentication ns)]"
  by (simp add: deletePeerAuthentication_def client_Delete_def)

text \<open>What follows the cleanup in the state only extends the history.\<close>

lemma apply_after_cleanup:
  assumes "fetchAddonObjs L E v ns i r = (x, r3)"
  shows "hist_ext (\<lambda>q. True) r (fst (snd (case x of
      Panic p \<Rightarrow> (Panic p, r3, s)
    | Ret (Inl err) \<Rightarrow> (Ret stopWithNoRequeue, r3, f err)
    | Ret (Inr objs) \<Rightarrow> apply_fetched L E cfg w ns objs r3 s)))"
proof -
  have 1: "hist_ext (\<lambda>q. True) r r3"
    using effect_fetchAddonObjs [OF assms] by (auto simp: effect_def intro: hist_ext_mono)
  have "hist_ext (\<lambda>q. True) r3 (fst (snd (apply_fetched L E cfg w ns objs r3 s)))" for objs
    using ends_apply_fetched [of r3 L E cfg w ns objs s] by (auto simp: ends_def effect_def intro: hist_ext_mono)
  with 1 have "hist_ext (\<lambda>q. True) r (fst (snd (apply_fetched L E cfg w ns objs r3 s)))" for objs
    using hist_ext_trans by blast
  with 1 show ?thesis by (simp split: go.split sum.split)
qed

text \<open>
  C25: Moving the add-on to another namespace deletes everything of the old one, without looking for
  HTTPScaledObjects: once the namespace is ensured and the manifests of the recorded version are
  fetched for the recorded namespace, every object in them is deleted, the definitions of custom
  resources and cluster-wide objects included, and the state never lists an object.
\<close>

theorem moving_deletes_unguarded:
  assumes "prevV = map_get (meta_Annotations (k_Meta (s_instance s))) ''keda.kyma-project.io/addon-installed-version''"
    and "prevNS = map_get (meta_Annotations (k_Meta (s_instance s))) ''keda.kyma-project.io/addon-installed-namespace''"
    and "ns = EffectiveNamespace (ReadAddonCfg (s_instance s))"
    and "prevV \<noteq> []" "prevNS \<noteq> []" "prevNS \<noteq> ns"
    and "ensureNamespace E ns r = (None, r1)"
    and "fetchAddonObjs L E prevV prevNS False r1 = (Ret (Inr objs), r2)"
  shows "prefix (f_hist r2 @ map ReqDelete objs @ [ReqDelete (PeerAuthentication prevNS)])
       (f_hist (fst (snd (sFnApplyAddon L E r s))))
     \<and> hist_ext (\<lambda>q. \<forall>g. q \<noteq> ReqList g) r (fst (snd (sFnApplyAddon L E r s)))"
proof -
  let ?cfg = "ReadAddonCfg (s_instance s)"
  obtain e r3 where d: "deleteObjects E objs r2 = (e, r3)" by fastforce
  then have h3: "f_hist r3 = f_hist r2 @ map ReqDelete objs" using deleteObjects_cases by force
  let ?r4 = "snd (deletePeerAuthentication E prevNS r3)"
  have c: "cleanup_previous L E prevV prevNS DefaultAddonVersion ns r1 = (Ret (), ?r4)"
    using assms(4-6,8) d by (simp add: cleanup_previous_def cleanupOldAddon_def)
  have h4: "f_hist ?r4 = f_hist r2 @ map ReqDelete objs @ [ReqDelete (PeerAuthentication prevNS)]"
    by (simp add: deletePeerAuthentication_hist h3)
  obtain x r5 where f: "fetchAddonObjs L E DefaultAddonVersion ns (addon_IstioInjection ?cfg) ?r4 = (x, r5)"
    by fastforce
  have "hist_ext (\<lambda>q. True) ?r4 (fst (snd (sFnApplyAddon L E r s)))"
    using apply_after_cleanup [OF f, where s = s and cfg = ?cfg and w = DefaultAddonVersion and
        f = "\<lambda>err. addon_condition L E r5 ''False'' ConditionReasonAddonInstallErr (Error err) s"]
      c f assms(7)
    by (simp add: sFnApplyAddon_def Let_def flip: assms(1-3) split: go.splits sum.splits)
  then have "prefix (f_hist ?r4) (f_hist (fst (snd (sFnApplyAddon L E r s))))"
    by (auto simp: hist_ext_def)
  moreover have "hist_ext (\<lambda>q. \<forall>g. q \<noteq> ReqList g) r (fst (snd (sFnApplyAddon L E r s)))"
    using does_ApplyAddon [of r L E s]
    by (auto simp: does_def effect_def elim!: hist_ext_mono split: request.splits)
  ultimately show ?thesis unfolding h4 by blast
qed

definition ref_moved :: Keda where
  "ref_moved = ref_keda\<lparr>k_Meta := ref_meta\<lparr>meta_Annotations := Some (fmap_of_list
     [(AnnotationAddonEnabled, ''true''), (AnnotationAddonInstalledVersion, DefaultAddonVersion),
      (AnnotationAddonInstalledNamespace, ''old'')])\<rparr>\<rparr>"

theorem moving_deletes_unguarded_witness:
  "ReqDelete (PeerAuthentication ''old'')
     \<in> set (f_hist (fst (snd (sFnApplyAddon ref_lib ref_env ref_fsm (init_state ref_moved)))))"
proof -
  let ?m = "meta_Annotations (k_Meta (s_instance (init_state ref_moved)))"
  have v: "DefaultAddonVersion = map_get ?m ''keda.kyma-project.io/addon-installed-version''"
    and o: "''old'' = map_get ?m ''keda.kyma-project.io/addon-installed-namespace''"
    by (simp_all add: ref_moved_def map_get_def)
  have ns: "''kyma-system'' = EffectiveNamespace (ReadAddonCfg (s_instance (init_state ref_moved)))"
    by (simp add: ReadAddonCfg_def ref_moved_def map_get_def EffectiveNamespace_def Let_def)
  have e: "ensureNamespace ref_env ''kyma-system'' ref_fsm
      = (None, log_req (ReqCreateNamespace ''kyma-system'') ref_fsm)"
    by (simp add: ensureNamespace_def ref_env_simps Let_def)
  note f = ref_fetch [of "''old''" False "log_req (ReqCreateNamespace ''kyma-system'') ref_fsm", simplified if_False]
  have "DefaultAddonVersion \<noteq> []" "''old'' \<noteq> []" "''old'' \<noteq> ''kyma-system''" by simp_all
  from moving_deletes_unguarded [OF v o ns this e f] show ?thesis
    by (auto simp: prefix_def simp del: log_req_simps)
qed

end
