(* ===== verification/Instance_Invariants.thy ===== *)
theory Instance_Invariants
  imports State_Properties
begin

text \<open>
  Invariants of the resource a run works on.  The locale \<open>instance_invariant\<close> asks of a predicate that
  every way the program changes its resource keeps it; then the run reports only resources that
  satisfy it.  Its interpretations follow in the theories that use it.
\<close>

text \<open>The conditions the program sets: type, status and reason.\<close>

definition condition_table :: "(string \<times> string \<times> string) list" where
  "condition_table =
     [(ConditionTypeInstalled, ''True'', ConditionReasonVerified),
      (ConditionTypeInstalled, ''Unknown'', ConditionReasonInitialized),
      (ConditionTypeInstalled, ''Unknown'', ConditionReasonVerification),
      (ConditionTypeInstalled, ''False'', ConditionReasonApplyObjError),
      (ConditionTypeInstalled, ''False'', ConditionReasonDeploymentUpdateErr),
      (ConditionTypeInstalled, ''False'', ConditionReasonNetworkPolicyUpdateErr),
      (ConditionTypeInstalled, ''False'', ConditionReasonVerificationErr),
      (ConditionTypeInstalled, ''False'', ConditionReasonKedaDuplicated),
      (ConditionTypeInstalled, ''False'', ConditionReasonValidationErr),
      (ConditionTypeDeploymentFailure, ''True'', ConditionReasonDeploymentReplicaFailure),
      (ConditionTypeDeleted, ''Unknown'', ConditionReasonDeletion),
      (ConditionTypeDeleted, ''True'', ConditionReasonDeleted),
      (ConditionTypeDeleted, ''False'', ConditionReasonDeletionErr),
      (ConditionTypeDeleted, ''False'', ConditionReasonAddonInUse),
      (conditionTypeAddon, ''True'', ConditionReasonAddonInstalled),
      (conditionTypeAddon, ''False'', ConditionReasonAddonInstallErr),
      (conditionTypeAddon, ''False'', ConditionReasonAddonDeleted),
      (conditionTypeAddon, ''False'', ConditionReasonAddonDisabled),
      (conditionTypeAddon, ''False'', ConditionReasonAddonInUse)]"

definition keda_states :: "string list" where
  "keda_states = [[], StateReady, StateError, StateWarning, StateProcessing, StateDeleting]"

section \<open>The update states\<close>

fun preserving :: "(Keda \<Rightarrow> bool) \<Rightarrow> stateFn \<Rightarrow> bool" where
  "preserving I (SFnUpdateObject u upd next) \<longleftrightarrow>
     (\<forall>k f ob e ob' k'. upd k = Some f \<longrightarrow> f ob = Ret (e, ob', k') \<longrightarrow> I k \<longrightarrow> I k') \<and> preserving I next"
| "preserving I SFnServedFilter \<longleftrightarrow> False"
| "preserving I _ \<longleftrightarrow> True"

lemma preserving_build:
  assumes "\<And>x k. I k \<Longrightarrow> I (share x k)" "preserving I next"
  shows "preserving I (buildSfnUpdateObject conv u update getData share next)"
  using assms by (auto simp: buildSfnUpdateObject_def go_bind_Ret_iff split: option.splits)

section \<open>The contract\<close>

locale instance_invariant =
  fixes L :: k8s_lib and E :: env and I :: "Keda \<Rightarrow> bool"
  assumes condition: "I k \<Longrightarrow> (t, st, reason) \<in> set condition_table \<Longrightarrow>
      I (set_condition L (mk_condition t st now reason msg) k)"
    and state: "I k \<Longrightarrow> x \<in> set keda_states \<Longrightarrow> I (set_state x k)"
    and remove: "I k \<Longrightarrow> I (RemoveCondition L t k)"
    and version: "I k \<Longrightarrow> I (set_KedaVersion x k)"
    and finalizers: "I k \<Longrightarrow> I (set_finalizers fs k)"
    and annotation: "I k \<Longrightarrow> I (SetAnnotation a x k)"
    and logging: "I k \<Longrightarrow> I (map_logging f k)"
    and update: "I k \<Longrightarrow> I (snd (e_update E h k))"
    and status_back: "I k \<Longrightarrow> I k' \<Longrightarrow> I (k'\<lparr>k_Status := k_Status k\<rparr>)"
begin

lemma status:
  "I k \<Longrightarrow> (t, ''True'', r) \<in> set condition_table \<Longrightarrow> I (UpdateStateReplicaFailure L now t r msg k)"
  "I k \<Longrightarrow> (t, ''False'', r) \<in> set condition_table \<Longrightarrow> I (UpdateStateFromErr L now t r e k)"
  "I k \<Longrightarrow> (t, ''False'', r) \<in> set condition_table \<Longrightarrow> I (UpdateStateFromWarning L now t r e k)"
  "I k \<Longrightarrow> (t, ''True'', r) \<in> set condition_table \<Longrightarrow> I (UpdateStateReady L now t r msg k)"
  "I k \<Longrightarrow> (t, ''Unknown'', r) \<in> set condition_table \<Longrightarrow> I (UpdateStateProcessing L now t r msg k)"
  "I k \<Longrightarrow> (t, ''Unknown'', r) \<in> set condition_table \<Longrightarrow> I (UpdateStateDeletion L now t r msg k)"
  "I k \<Longrightarrow> (t, ''True'', r) \<in> set condition_table \<Longrightarrow> I (UpdateStateDeletionTrue L now t r msg k)"
  "I k \<Longrightarrow> (conditionTypeAddon, st, r) \<in> set condition_table \<Longrightarrow> I (SetAddonCondition L now st r msg k)"
  by (simp_all add: UpdateStateReplicaFailure_def UpdateStateFromErr_def UpdateStateFromWarning_def
      UpdateStateReady_def UpdateStateProcessing_def UpdateStateDeletion_def UpdateStateDeletionTrue_def
      SetAddonCondition_def condition state keda_states_def)

lemma share:
  "I k \<Longrightarrow> I (share_operator c k)" "I k \<Longrightarrow> I (share_metrics c k)" "I k \<Longrightarrow> I (share_webhook c k)"
  "I k \<Longrightarrow> I (unshared x k)"
  by (simp_all add: share_operator_def share_metrics_def share_webhook_def unshared_def logging)

lemma preserving_chains:
  "preserving I (buildSfnUpdateOperatorLogging L u)" "preserving I (buildSfnUpdateMetricsSvrLogging L u)"
  "preserving I (buildSfnUpdateAdmissionWebhooksLogging L u)"
  unfolding chain_defs by (intro preserving_build share; simp)+

definition stays :: "stateFn \<Rightarrow> systemState \<Rightarrow> bool" where
  "stays fn s \<longleftrightarrow> preserving I fn \<and> (\<not> is_Emit fn \<longrightarrow> I (s_instance s))"

lemma stays_switch [simp]:
  "stays (SFnUpdateStatus x e) s \<longleftrightarrow> I (s_instance s)" "stays (SFnEmitEventfunc n x e) s"
  by (simp_all add: stays_def)

lemma client_Update_I:
  "client_Update E r s = (e, r', s') \<Longrightarrow> I (s_instance s) \<Longrightarrow> I (s_instance s')"
  using update [of "s_instance s" "f_hist r"] by (auto simp: client_Update_def split: prod.splits)

lemma persist_I: "I (s_instance s) \<Longrightarrow> I (s_instance (snd (persist_annotations E r s)))"
proof -
  assume "I (s_instance s)"
  moreover obtain e r1 s1 where c: "client_Update E r s = (e, r1, s1)" by (metis prod_cases3)
  ultimately show ?thesis
    using client_Update_I [OF c] by (simp add: persist_annotations_def status_back)
qed

lemmas kept_rules = status remove version finalizers annotation persist_I condition_table_def keda_states_def

lemma stays_updates:
  "I (s_instance s) \<Longrightarrow> leads stays (sFnUpdateKedaDeployment L E r s)"
  "I (s_instance s) \<Longrightarrow> leads stays (sFnUpdateMetricsServerDeployment L E r s)"
  "I (s_instance s) \<Longrightarrow> leads stays (sFnUpdateAdmissionWebhooksDeployment L E r s)"
  "I (s_instance s) \<Longrightarrow> leads stays (sfnUpdateAdmissionWebhooksNetworkPolicy L E r s)"
  by (auto simp: sFnUpdateKedaDeployment_def sFnUpdateMetricsServerDeployment_def
      sFnUpdateAdmissionWebhooksDeployment_def sfnUpdateAdmissionWebhooksNetworkPolicy_def
      preserving_chains preserving_build share Let_def stays_def kept_rules split: step_splits)

lemma stays_update_object:
  "preserving I (SFnUpdateObject u upd next) \<Longrightarrow> I (s_instance s) \<Longrightarrow>
   leads stays (sFnUpdateObject u upd next L E r s)"
  by (fastforce simp: sFnUpdateObject_def Let_def stays_def kept_rules split: step_splits)

lemma stays_apply: "I (s_instance s) \<Longrightarrow> leads stays (sFnApply L E r s)"
  by (auto simp: sFnApply_def stays_def kept_rules split: step_splits dest: apply_loop_instance)

lemma stays_fetched:
  "I (s_instance s) \<Longrightarrow> leads stays (apply_fetched L E cfg x ns objs r s)"
  by (simp add: apply_fetched_def Let_def addon_condition_def kept_rules case_prod_unfold
      split: option.split)

lemma stays_known: "I (s_instance s) \<Longrightarrow> leads stays (delete_known L E ns objs r s)"
  by (simp add: delete_known_def Let_def addon_condition_def kept_rules case_prod_unfold
      split: option.split)

lemma stays_addon:
  "I (s_instance s) \<Longrightarrow> leads stays (sFnHandleAddon r s)"
  "I (s_instance s) \<Longrightarrow> leads stays (sFnGuardAddonInUse L E r s)"
  "I (s_instance s) \<Longrightarrow> leads stays (sFnApplyAddon L E r s)"
  "I (s_instance s) \<Longrightarrow> leads stays (sFnDeleteAddon L E r s)"
  by (simp_all add: sFnHandleAddon_def sFnGuardAddonInUse_def sFnApplyAddon_def sFnDeleteAddon_def
      addon_condition_def addon_warning_def stays_fetched stays_known Let_def stays_def kept_rules state
      split: prod.split option.split go.split sum.split)

lemma stays_basic:
  "I (s_instance s) \<Longrightarrow> leads stays (sFnTakeSnapshot r s)"
  "I (s_instance s) \<Longrightarrow> leads stays (sFnBootstrapperValidation L E r s)"
  "I (s_instance s) \<Longrightarrow> leads stays (sFnVerify L E r s)"
  "leads stays (sFnUpdateStatus x e E r s)"
  "I (s_instance s) \<Longrightarrow> leads stays (sFnInitialize L E r s)"
  "I (s_instance s) \<Longrightarrow> leads stays (sFnRemoveFinalizer L E r s)"
  by (auto simp: sFnTakeSnapshot_def saveKedaStatus_def sFnBootstrapperValidation_def sFnVerify_def
      sFnUpdateStatus_def sFnInitialize_def sFnRemoveFinalizer_def Let_def stays_def kept_rules
      split: step_splits dest: client_Update_I)

lemma stays_deletion:
  "I (s_instance s) \<Longrightarrow> leads stays (sFnDeleteResources L E r s)"
  "I (s_instance s) \<Longrightarrow> leads stays (sFnSafeDeletionState L E r s)"
  "I (s_instance s) \<Longrightarrow> leads stays (sFnCascadeDeletionState L E r s)"
  "I (s_instance s) \<Longrightarrow> leads stays (sFnUpstreamDeletionState L E r s)"
  by (auto simp: sFnDeleteResources_def defaultDeletionStrategy_def sFnSafeDeletionState_def
      sFnCascadeDeletionState_def sFnUpstreamDeletionState_def deleteResourcesWithFilter_def
      stays_def kept_rules split: step_splits)

lemma exec_stays:
  assumes "preserving I fn" "\<not> is_Emit fn" "I (s_instance s)"
  shows "leads stays (exec L E fn r s)"
  using assms
  by (cases fn) (simp_all add: stays_updates stays_update_object stays_apply stays_addon stays_basic
      stays_deletion del: preserving.simps(1))

definition reports :: "request \<Rightarrow> bool" where
  "reports q \<longleftrightarrow> (\<forall>k. q = ReqStatusUpdate k \<longrightarrow> I k)"

definition reports_inv :: "fsm \<Rightarrow> Keda \<Rightarrow> stateFn option \<Rightarrow> fsm \<Rightarrow> systemState \<Rightarrow> bool" where
  "reports_inv r v f ra s \<longleftrightarrow> hist_ext reports r ra
     \<and> (\<forall>fn. f = Some fn \<longrightarrow>
          (if fn = SFnServedFilter then ra = r \<and> s = init_state v else stays fn s))"

lemma filter_stays:
  assumes "served v \<Longrightarrow> I v" "\<not> served v \<Longrightarrow> I (unserved_report L E (f_hist r) v)"
  shows "leads stays (sFnServedFilter L E r (init_state v))"
proof (cases "served v")
  case True
  with assms(1) show ?thesis by (simp add: sFnServedFilter_def served_def stays_def)
next
  case False
  with assms(2) show ?thesis unfolding unserved_filter [OF False] by (simp split: sum.split)
qed

lemma hist_report:
  assumes inv: "reports_inv r v (Some fn) ra s" and e: "exec L E fn ra s = (y, r1, s1)"
  shows "hist_ext reports r r1"
proof -
  have "hist_ext reports ra r1"
  proof (cases "is_UpdateStatus fn")
    case True
    then obtain x er where fn: "fn = SFnUpdateStatus x er" by (cases fn) auto
    then have "f_hist r1 = f_hist ra @ [ReqStatusUpdate (s_instance s)]"
      using e by (auto simp: sFnUpdateStatus_def Let_def split: prod.splits option.splits)
    with inv fn show ?thesis by (simp add: hist_ext_def reports_inv_def reports_def)
  next
    case False
    have "hist_ext (allowed fn) ra r1" using exec_effect [OF e] by (simp add: effect_def)
    then show ?thesis
      by (rule hist_ext_mono)
         (use False in \<open>auto simp: reports_def elim: allowed.elims split: request.splits\<close>)
  qed
  with inv show ?thesis unfolding reports_inv_def using hist_ext_trans by blast
qed

lemma next_stays:
  assumes inv: "reports_inv r v (Some fn) ra s" and ph: "phase L r v fn s"
    and start: "served v \<Longrightarrow> I v" "\<not> served v \<Longrightarrow> I (unserved_report L E (f_hist r) v)"
    and e: "exec L E fn ra s = (Ret (Some fn', x, er), r1, s1)"
  shows "stays fn' s1 \<and> fn' \<noteq> SFnServedFilter"
proof -
  have "stays fn' s1"
  proof (cases "fn = SFnServedFilter")
    case True
    with inv have "ra = r" "s = init_state v" by (simp_all add: reports_inv_def)
    with True e filter_stays [of v r, OF start] show ?thesis by simp
  next
    case False
    with inv have g: "stays fn s" by (simp add: reports_inv_def)
    show ?thesis
    proof (cases "is_Emit fn")
      case True
      then show ?thesis using ph e by (cases fn) (auto simp: sFnEmitEventfunc_def)
    next
      case False
      with exec_stays [of fn s ra] e g show ?thesis by (simp add: stays_def)
    qed
  qed
  then show ?thesis by (auto simp: stays_def)
qed

theorem reports_only:
  assumes start: "served v \<Longrightarrow> I v" "\<not> served v \<Longrightarrow> I (unserved_report L E (f_hist r) v)"
  shows "hist_ext reports r (fst (snd (Run L E r v)))"
proof (rule Run_rule [OF Run_collapse, where I = "reports_inv r v" and Q = "\<lambda>ra s. hist_ext reports r ra"])
  show "reports_inv r v (Some SFnServedFilter) r (init_state v)" by (simp add: reports_inv_def)
next
  fix f ra s
  show "reports_inv r v f ra s \<Longrightarrow> hist_ext reports r ra" by (simp add: reports_inv_def)
next
  fix fn ra s y r1 s1
  assume inv: "reports_inv r v (Some fn) ra s" and ph: "phase L r v fn s"
    and e: "exec L E fn ra s = (y, r1, s1)"
  have h: "hist_ext reports r r1" by (rule hist_report [OF inv e])
  have "reports_inv r v f r1 s1" if "y = Ret (f, x, None)" for f x
    using h next_stays [OF inv ph start] e that by (auto simp: reports_inv_def)
  with h show "case y of Ret (f, x, None) \<Rightarrow> reports_inv r v f r1 s1 | _ \<Rightarrow> hist_ext reports r r1"
    by (auto split: go.split prod.split option.split)
qed

end

section \<open>The fields of a reported status\<close>

text \<open>
  A status is well-formed if its fields \<open>State\<close> and \<open>Served\<close> have one of the documented values and
  the type, the status and the reason of every condition found in it are a row of \<open>condition_table\<close>.
\<close>

definition status_ok :: "Status \<Rightarrow> bool" where
  "status_ok st \<longleftrightarrow> st_State st \<in> set keda_states \<and> st_Served st \<in> {[], ''True'', ''False''}
     \<and> (\<forall>t c. find (\<lambda>c. cond_Type c = t) (st_Conditions st) = Some c \<longrightarrow>
          (t, cond_Status c, cond_Reason c) \<in> set condition_table)"

text \<open>The server answers an update with the stored status, which passed the schema of the resource.\<close>

definition update_typed :: "env \<Rightarrow> bool" where
  "update_typed E \<longleftrightarrow> (\<forall>h k. status_ok (k_Status k) \<longrightarrow> status_ok (k_Status (snd (e_update E h k))))"

definition typed :: "k8s_lib \<Rightarrow> env \<Rightarrow> Keda \<Rightarrow> bool" where
  "typed L E k \<longleftrightarrow> (conditions_doc L \<and> update_typed E \<longrightarrow> status_ok (k_Status k))"

lemma find_filter:
  "u \<noteq> t \<Longrightarrow> find (\<lambda>c. cond_Type c = u) (filter (\<lambda>d. cond_Type d \<noteq> t) xs) = find (\<lambda>c. cond_Type c = u) xs"
  "find (\<lambda>c. cond_Type c = t) (filter (\<lambda>d. cond_Type d \<noteq> t) xs) = None"
  by (induction xs) auto

lemma find_other:
  assumes "filter (\<lambda>d. cond_Type d \<noteq> t) cs = filter (\<lambda>d. cond_Type d \<noteq> t) ds" "u \<noteq> t"
  shows "find (\<lambda>c. cond_Type c = u) cs = find (\<lambda>c. cond_Type c = u) ds"
  using find_filter(1) [OF assms(2), of cs] find_filter(1) [OF assms(2), of ds] assms(1) by simp

lemma status_ok_condition:
  assumes doc: "conditions_doc L" and ok: "status_ok st"
    and t: "(cond_Type c, cond_Status c, cond_Reason c) \<in> set condition_table"
  shows "status_ok (st\<lparr>st_Conditions := SetStatusCondition L (st_Conditions st) c\<rparr>)"
proof -
  let ?cs = "SetStatusCondition L (st_Conditions st) c"
  have "(u, cond_Status d, cond_Reason d) \<in> set condition_table"
    if f: "find (\<lambda>c. cond_Type c = u) ?cs = Some d" for u d
  proof (cases "u = cond_Type c")
    case True
    obtain c' where "find (\<lambda>d. cond_Type d = cond_Type c) ?cs = Some c'" "same_content c' c"
      using doc unfolding conditions_doc_def by blast
    with f t True show ?thesis by (simp add: same_content_def)
  next
    case False
    have "filter (\<lambda>d. cond_Type d \<noteq> cond_Type c) ?cs = filter (\<lambda>d. cond_Type d \<noteq> cond_Type c) (st_Conditions st)"
      using doc unfolding conditions_doc_def by blast
    from find_other [OF this False] f have "find (\<lambda>c. cond_Type c = u) (st_Conditions st) = Some d" by simp
    with ok show ?thesis unfolding status_ok_def by blast
  qed
  with ok show ?thesis by (simp add: status_ok_def)
qed

lemma status_ok_remove:
  assumes doc: "conditions_doc L" and ok: "status_ok st"
  shows "status_ok (st\<lparr>st_Conditions := RemoveStatusCondition L (st_Conditions st) t\<rparr>)"
proof -
  have r: "RemoveStatusCondition L cs t = filter (\<lambda>d. cond_Type d \<noteq> t) cs" for cs
    using doc by (simp add: conditions_doc_def)
  have "(u, cond_Status d, cond_Reason d) \<in> set condition_table"
    if f: "find (\<lambda>c. cond_Type c = u) (filter (\<lambda>d. cond_Type d \<noteq> t) (st_Conditions st)) = Some d" for u d
  proof (cases "u = t")
    case True
    with f find_filter(2) [of t "st_Conditions st"] show ?thesis by simp
  next
    case False
    from f find_filter(1) [OF this, of "st_Conditions st"] have "find (\<lambda>c. cond_Type c = u) (st_Conditions st) = Some d" by simp
    with ok show ?thesis unfolding status_ok_def by blast
  qed
  with ok show ?thesis by (simp add: status_ok_def r)
qed

interpretation typed: instance_invariant L E "typed L E" for L E
proof unfold_locales
  fix k t st now reason msg
  show "typed L E k \<Longrightarrow> (t, st, reason) \<in> set condition_table \<Longrightarrow>
      typed L E (set_condition L (mk_condition t st now reason msg) k)"
    using status_ok_condition by (simp add: typed_def set_condition_def mk_condition_def)
next
  fix k t
  show "typed L E k \<Longrightarrow> typed L E (RemoveCondition L t k)"
    using status_ok_remove by (simp add: typed_def RemoveCondition_def)
next
  fix k h
  show "typed L E k \<Longrightarrow> typed L E (snd (e_update E h k))"
    by (simp add: typed_def update_typed_def)
qed (simp_all add: typed_def status_ok_def set_state_def set_KedaVersion_def set_finalizers_def
    SetAnnotation_def map_logging_def Let_def)

lemma unserved_typed: "typed L E v \<Longrightarrow> typed L E (unserved_report L E h v)"
proof -
  assume "typed L E v"
  moreover from this have "typed L E (UpdateServed ''True'' v)" "typed L E (UpdateServed ''False'' v)"
    by (simp_all add: typed_def status_ok_def UpdateServed_def)
  ultimately show ?thesis
    unfolding unserved_report_def
    by (auto intro: typed.status(2) simp: condition_table_def split: sum.split option.split)
qed



end
