(* ===== verification/Served_Instance.thy ===== *)
theory Served_Instance
  imports Controller Instance_Invariants
begin

text \<open>
  Which of several Keda resources is served.  A run keeps the name and the field \<open>Served\<close> of its
  resource, except that a resource that is not served takes over when the list shows none that is.
\<close>

section \<open>What a run keeps of its resource\<close>

definition key :: "Keda \<Rightarrow> string \<times> string" where
  "key k = (meta_Namespace (k_Meta k), meta_Name (k_Meta k))"

definition ident :: "Keda \<Rightarrow> (string \<times> string) \<times> string" where
  "ident k = (key k, st_Served (k_Status k))"

text \<open>
  The update of a resource with a status subresource ignores the status it is given, so what it
  leaves in its argument is the resource of that name with the stored status.
\<close>

definition update_doc :: "env \<Rightarrow> bool" where
  "update_doc E \<longleftrightarrow> (\<forall>h k. ident (snd (e_update E h k)) = ident k)"

lemma ident_status [simp]:
  "ident (set_condition L c k) = ident k" "ident (set_state st k) = ident k"
  "ident (RemoveCondition L t k) = ident k" "ident (set_KedaVersion x k) = ident k"
  "ident (UpdateStateReplicaFailure L now t r msg k) = ident k"
  "ident (UpdateStateFromErr L now t r e k) = ident k"
  "ident (UpdateStateFromWarning L now t r e k) = ident k"
  "ident (UpdateStateReady L now t r msg k) = ident k"
  "ident (UpdateStateProcessing L now t r msg k) = ident k"
  "ident (UpdateStateDeletion L now t r msg k) = ident k"
  "ident (UpdateStateDeletionTrue L now t r msg k) = ident k"
  "ident (SetAddonCondition L now st r msg k) = ident k"
  "ident (set_finalizers fs k) = ident k" "ident (SetAnnotation a x k) = ident k"
  "ident (map_logging f k) = ident k"
  by (simp_all add: ident_def key_def status_defs set_KedaVersion_def set_finalizers_def
      SetAnnotation_def map_logging_def Let_def)

lemma ident_UpdateServed: "ident (UpdateServed x k) = (key k, x)"
  by (simp add: ident_def key_def UpdateServed_def)

text \<open>What a run may report of the resource \<open>v\<close>, when the list is that after the history \<open>h\<close>.\<close>

definition reportable :: "env \<Rightarrow> hist \<Rightarrow> Keda \<Rightarrow> Keda \<Rightarrow> bool" where
  "reportable E h v k \<longleftrightarrow> ident k = ident v \<or> \<not> served v \<and> key k = key v \<and>
     (st_Served (k_Status k) = ''False'' \<or> st_Served (k_Status k) = ''True'' \<and>
        (\<exists>ks. e_list_kedas E h = Inr ks \<and> (\<forall>x\<in>set ks. st_Served (k_Status x) \<noteq> ''True'')))"

lemma reportable_ident: "ident k' = ident k \<Longrightarrow> reportable E h v k \<Longrightarrow> reportable E h v k'"
  by (auto simp: reportable_def ident_def)

lemmas reportable_keeps = ident_status [THEN reportable_ident]

lemma unserved_reportable:
  assumes "\<not> served v"
  shows "reportable E h v (unserved_report L E h v)"
proof (cases "e_list_kedas E h")
  case (Inr ks)
  show ?thesis
  proof (cases "find (\<lambda>k. st_Served (k_Status k) = ''True'') ks")
    case None
    then have "\<forall>x\<in>set ks. st_Served (k_Status x) \<noteq> ''True''" by (auto simp: find_None_iff)
    moreover have "unserved_report L E h v = UpdateServed ''True'' v"
      using Inr None by (simp add: unserved_report_def)
    ultimately show ?thesis
      using Inr assms ident_UpdateServed [of "''True''" v] by (simp add: reportable_def ident_def)
  next
    case (Some sk)
    let ?k = "unserved_report L E h v"
    have "ident ?k = (key v, ''False'')"
      using Inr Some by (simp add: unserved_report_def ident_UpdateServed)
    with assms show ?thesis by (simp add: reportable_def ident_def)
  qed
qed (simp add: reportable_def unserved_report_def)

lemma reportable_updated: "reportable E h v k \<Longrightarrow> key k' = key k \<Longrightarrow>
    st_Served (k_Status k') = st_Served (k_Status k) \<Longrightarrow> reportable E h v k'"
  by (rule reportable_ident) (simp add: ident_def)

text \<open>The contract of the run, for the resource and the history it starts with.\<close>

definition keeps_served :: "env \<Rightarrow> hist \<Rightarrow> Keda \<Rightarrow> Keda \<Rightarrow> bool" where
  "keeps_served E h v k \<longleftrightarrow> (update_doc E \<longrightarrow> reportable E h v k)"

interpretation served: instance_invariant L E "keeps_served E h v" for L E h v
proof unfold_locales
  fix k h'
  show "keeps_served E h v k \<Longrightarrow> keeps_served E h v (snd (e_update E h' k))"
    using reportable_ident [of "snd (e_update E h' k)" k] by (simp add: keeps_served_def update_doc_def)
next
  fix k k'
  assume k: "keeps_served E h v k" "keeps_served E h v k'"
  have "key k = key v" if "reportable E h v k" for k using that by (auto simp: reportable_def ident_def)
  with k show "keeps_served E h v (k'\<lparr>k_Status := k_Status k\<rparr>)"
    by (auto simp: keeps_served_def key_def intro: reportable_updated)
qed (auto simp: keeps_served_def intro: reportable_keeps)

lemma run_reports:
  assumes "update_doc E"
  shows "hist_ext (\<lambda>q. \<forall>k. q = ReqStatusUpdate k \<longrightarrow> reportable E (f_hist r) v k) r (fst (snd (Run L E r v)))"
proof -
  have "keeps_served E (f_hist r) v v" by (simp add: keeps_served_def reportable_def)
  moreover have "\<not> served v \<Longrightarrow> keeps_served E (f_hist r) v (unserved_report L E (f_hist r) v)"
    by (simp add: keeps_served_def unserved_reportable)
  ultimately have "hist_ext (served.reports E (f_hist r) v) r (fst (snd (Run L E r v)))"
    by (rule served.reports_only)
  then show ?thesis
    by (rule hist_ext_mono) (simp add: served.reports_def keeps_served_def assms)
qed

end
