(* ===== verification/Keda_Store.thy ===== *)
theory Keda_Store
  imports Served_Instance
begin

text \<open>
  The Keda resources of a cluster as a state machine.  Users create, edit and remove resources, the
  cache of the manager follows the store, and the controller reconciles the resources, reading from the
  cache and writing to the store.  At most one resource is served as long as no reconciliation finds a
  cache that has missed the served one; with a cache that has, two can be.
\<close>

section \<open>The store\<close>

type_synonym store = "string \<times> string \<Rightarrow> Keda option"

text \<open>
  What the calls of a reconciliation do to the store, when they succeed: a status update replaces the
  status, an update everything but the status.
\<close>

definition store_status :: "Keda \<Rightarrow> store \<Rightarrow> store" where
  "store_status k st =
     (case st (key k) of None \<Rightarrow> st | Some old \<Rightarrow> st(key k \<mapsto> old\<lparr>k_Status := k_Status k\<rparr>))"

definition store_object :: "Keda \<Rightarrow> store \<Rightarrow> store" where
  "store_object k st =
     (case st (key k) of None \<Rightarrow> st | Some old \<Rightarrow> st(key k \<mapsto> k\<lparr>k_Status := k_Status old\<rparr>))"

fun written :: "env \<Rightarrow> hist \<Rightarrow> request list \<Rightarrow> store \<Rightarrow> store" where
  "written E h [] st = st"
| "written E h (ReqStatusUpdate k # qs) st =
     written E (h @ [ReqStatusUpdate k]) qs
       (if fst (e_status_update E h k) = None then store_status k st else st)"
| "written E h (ReqUpdate k # qs) st =
     written E (h @ [ReqUpdate k]) qs (if fst (e_update E h k) = None then store_object k st else st)"
| "written E h (q # qs) st = written E (h @ [q]) qs st"

text \<open>
  Reads are answered from a view of the resources, which is the cache or, where a theorem takes the cache
  to be up to date, the store.  They may fail, but a resource that is returned is the one of the view and a
  list is the list of all in it.
\<close>

definition answers :: "env \<Rightarrow> hist \<Rightarrow> string \<times> string \<Rightarrow> store \<Rightarrow> bool" where
  "answers E h q st \<longleftrightarrow>
     (\<forall>k. e_get E h (fst q) (snd q) = Inr k \<longrightarrow> st q = Some k)
     \<and> (\<forall>ks. e_list_kedas E (h @ [ReqGet (fst q) (snd q)]) = Inr ks \<longrightarrow> set ks = ran st)"

text \<open>
  Updates carry the version of the resource that was read: if the cache is behind in this resource, the
  API refuses every update.
\<close>

definition locked :: "env \<Rightarrow> string \<times> string \<Rightarrow> store \<Rightarrow> store \<Rightarrow> bool" where
  "locked E q st ca \<longleftrightarrow> st q = ca q
     \<or> (\<forall>h k. fst (e_update E h k) \<noteq> None \<and> fst (e_status_update E h k) \<noteq> None)"

text \<open>
  The store, the cache of the manager (\<open>mgr.GetClient\<close>) and the reconciler.  Users cannot write the
  status; a new resource has none.  The cache catches up for any of the resources at any time.
  \<open>R\<close> is what the reconciliations require of the cache; nothing in the program requires anything.
\<close>

type_synonym system = "store \<times> store \<times> kedaReconciler"

inductive sys_step :: "k8s_lib \<Rightarrow> (store \<Rightarrow> store \<Rightarrow> bool) \<Rightarrow> system \<Rightarrow> system \<Rightarrow> bool" for L R where
  created: "st (key k) = None \<Longrightarrow> k_Status k = zero_Status \<Longrightarrow> sys_step L R (st, ca, c) (st(key k \<mapsto> k), ca, c)"
| edited: "st (key k) = Some old \<Longrightarrow> k_Status k = k_Status old \<Longrightarrow>
     sys_step L R (st, ca, c) (st(key k \<mapsto> k), ca, c)"
| removed: "sys_step L R (st, ca, c) (st(q := None), ca, c)"
| caught_up: "(\<And>q. ca' q = ca q \<or> ca' q = st q) \<Longrightarrow> sys_step L R (st, ca, c) (st, ca', c)"
| reconciled: "update_doc E \<Longrightarrow> answers E (f_hist c) q ca \<Longrightarrow> locked E q st ca \<Longrightarrow> R st ca \<Longrightarrow>
     Reconcile L E c q = (out, c') \<Longrightarrow> f_hist c' = f_hist c @ qs \<Longrightarrow>
     sys_step L R (st, ca, c) (written E (f_hist c) qs st, ca, c')"

section \<open>At most one is served\<close>

definition is_served :: "store \<Rightarrow> string \<times> string \<Rightarrow> bool" where
  "is_served st q \<longleftrightarrow> (\<exists>k. st q = Some k \<and> st_Served (k_Status k) = ''True'')"

text \<open>If a resource is served, the cache knows of one that is.\<close>

definition served_seen :: "store \<Rightarrow> store \<Rightarrow> bool" where
  "served_seen st ca \<longleftrightarrow> (\<exists>a. is_served st a) \<longrightarrow> (\<exists>a. is_served ca a)"

lemma served_seen_same [simp]: "served_seen st st"
  by (simp add: served_seen_def)

definition keyed :: "store \<Rightarrow> bool" where
  "keyed st \<longleftrightarrow> (\<forall>q k. st q = Some k \<longrightarrow> key k = q)"

definition store_inv :: "store \<Rightarrow> bool" where
  "store_inv st \<longleftrightarrow> keyed st \<and> (\<forall>a b. is_served st a \<longrightarrow> is_served st b \<longrightarrow> a = b)"

definition srv :: "store \<Rightarrow> string \<times> string \<Rightarrow> string option" where
  "srv st q = map_option (\<lambda>k. st_Served (k_Status k)) (st q)"

lemma is_served_srv: "is_served st q \<longleftrightarrow> srv st q = Some ''True''"
  by (auto simp: is_served_def srv_def)

lemma key_set_status [simp]: "key (k\<lparr>k_Status := x\<rparr>) = key k"
  by (simp add: key_def)

lemma keyed_put: "keyed st \<Longrightarrow> keyed (store_status k st)" "keyed st \<Longrightarrow> keyed (store_object k st)"
  unfolding keyed_def store_status_def store_object_def
  by (auto split: option.split simp del: split_paired_All split_paired_Ex) 

lemma keyed_written: "keyed st \<Longrightarrow> keyed (written E h qs st)"
  by (induction E h qs st rule: written.induct) (simp_all add: keyed_put)

lemma srv_put:
  "srv (store_object k st) q = srv st q"
  "srv (store_status k st) q = (if q = key k \<and> st q \<noteq> None then Some (st_Served (k_Status k)) else srv st q)"
  by (auto simp: srv_def store_object_def store_status_def split: option.split)

text \<open>Only reported values of \<open>Served\<close> get into the store.\<close>

lemma srv_written:
  "\<forall>k. ReqStatusUpdate k \<in> set qs \<longrightarrow> key k = v \<and> P (st_Served (k_Status k)) \<Longrightarrow>
   srv (written E h qs st) q = srv st q \<or> q = v \<and> (\<exists>x. P x \<and> srv (written E h qs st) q = Some x)"
proof (induction E h qs st rule: written.induct)
  case (2 E h k qs st)
  then have k: "key k = v" "P (st_Served (k_Status k))" by auto
  from 2 show ?case by (auto simp: srv_put k split: if_splits)
qed (auto simp: srv_put split: if_splits)

lemma srv_upd: "srv (st(q := x)) a = (if a = q then map_option (\<lambda>k. st_Served (k_Status k)) x else srv st a)"
  by (simp add: srv_def)

lemma written_refused:
  "\<forall>h k. fst (e_update E h k) \<noteq> None \<and> fst (e_status_update E h k) \<noteq> None \<Longrightarrow> written E h qs st = st"
  by (induction E h qs st rule: written.induct) (auto simp del: not_None_eq)

lemma Reconcile_hist:
  assumes "Reconcile L E c q = (out, c')" "f_hist c' = f_hist c @ qs"
  shows "qs = [ReqGet (fst q) (snd q)] \<or>
    (\<exists>v rs. e_get E (f_hist c) (fst q) (snd q) = Inr v \<and> qs = ReqGet (fst q) (snd q) # rs
      \<and> f_hist (fst (snd (Run L E (log_req (ReqGet (fst q) (snd q)) c) v))) = f_hist c @ qs)"
proof (cases "e_get E (f_hist c) (fst q) (snd q)")
  case (Inl e)
  with assms show ?thesis by (auto simp: Reconcile_def Let_def)
next
  case (Inr v)
  let ?c1 = "log_req (ReqGet (fst q) (snd q)) c"
  have h: "f_hist c' = f_hist (fst (snd (Run L E ?c1 v)))"
    using assms(1) Inr by (auto simp: Reconcile_def Let_def NewFsm_def after_run_def split: prod.splits)
  have "hist_ext (\<lambda>q. True) ?c1 (fst (snd (Run L E ?c1 v)))"
    by (rule hist_ext_mono [OF run_permitted]) simp
  then obtain rs where "f_hist (fst (snd (Run L E ?c1 v))) = f_hist ?c1 @ rs"
    by (auto simp: hist_ext_def)
  with h Inr assms(2) show ?thesis by auto
qed

lemma reconciled_inv:
  assumes doc: "update_doc E" and ans: "answers E (f_hist c) q ca" and re: "Reconcile L E c q = (out, c')"
    and qs: "f_hist c' = f_hist c @ qs" and inv: "store_inv st"
    and cache: "st q = ca q" "served_seen st ca"
  shows "store_inv (written E (f_hist c) qs st)"
proof -
  let ?st = "written E (f_hist c) qs st" and ?g = "ReqGet (fst q) (snd q)"
  have one: "is_served st a \<Longrightarrow> is_served st b \<Longrightarrow> a = b" and k: "keyed st" for a b
    using inv unfolding store_inv_def by blast+
  consider (none) "qs = [?g]" | (run) v rs where "e_get E (f_hist c) (fst q) (snd q) = Inr v" "qs = ?g # rs"
    "f_hist (fst (snd (Run L E (log_req ?g c) v))) = f_hist c @ qs"
    using Reconcile_hist [OF re qs] by blast
  then show ?thesis
  proof cases
    case none
    with inv show ?thesis by simp
  next
    case run
    have v: "st q = Some v" "key v = q"
      using ans run(1) k cache(1) unfolding answers_def keyed_def by metis+
    let ?P = "\<lambda>x. x = st_Served (k_Status v) \<or> x = ''False'' \<or> x = ''True'' \<and> (\<forall>a. \<not> is_served st a)"
    have "\<forall>k. ReqStatusUpdate k \<in> set qs \<longrightarrow> reportable E (f_hist (log_req ?g c)) v k"
      using run_reports [OF doc, of "log_req ?g c" v L] run(2,3) by (auto simp: hist_ext_def list_all_iff)
    moreover have "\<forall>a. \<not> is_served st a"
      if "e_list_kedas E (f_hist c @ [?g]) = Inr ks" "\<forall>x\<in>set ks. st_Served (k_Status x) \<noteq> ''True''" for ks
      using that ans cache(2) by (auto simp: answers_def served_seen_def is_served_def ran_def)
    ultimately have "\<forall>k. ReqStatusUpdate k \<in> set qs \<longrightarrow> key k = q \<and> ?P (st_Served (k_Status k))"
      using v(2) by (auto simp: reportable_def ident_def)
    from srv_written [OF this] have w: "srv ?st a = srv st a \<or> a = q \<and> (\<exists>x. ?P x \<and> srv ?st a = Some x)" for a
      by blast
    have s: "srv st q = Some (st_Served (k_Status v))" using v(1) by (simp add: srv_def)
    have other: "is_served st a" if "is_served ?st a" "a \<noteq> q" for a
      using that w [of a] unfolding is_served_srv by auto
    have self: "is_served st q \<or> (\<forall>a. \<not> is_served st a)" if "is_served ?st q"
      using that w [of q] s unfolding is_served_srv by auto
    have "\<forall>a b. is_served ?st a \<longrightarrow> is_served ?st b \<longrightarrow> a = b"
      using other self one by metis
    with keyed_written [OF k] show ?thesis unfolding store_inv_def by blast
  qed
qed

lemma store_inv_fewer:
  "store_inv st \<Longrightarrow> keyed st' \<Longrightarrow> (\<And>a. is_served st' a \<Longrightarrow> is_served st a) \<Longrightarrow> store_inv st'"
  unfolding store_inv_def by blast

lemma keyed_upd: "keyed st \<Longrightarrow> keyed (st(key k \<mapsto> k))" "keyed st \<Longrightarrow> keyed (st(q := None))"
  by (simp_all add: keyed_def)

lemma is_served_upd:
  "is_served (st(q \<mapsto> k)) a \<longleftrightarrow> (if a = q then st_Served (k_Status k) = ''True'' else is_served st a)"
  "is_served (st(q := None)) a \<longleftrightarrow> a \<noteq> q \<and> is_served st a"
  by (simp_all add: is_served_def)

definition sys_inv :: "system \<Rightarrow> bool" where
  "sys_inv x \<longleftrightarrow> store_inv (fst x)"

lemma sys_step_inv: "sys_step L served_seen x y \<Longrightarrow> sys_inv x \<Longrightarrow> sys_inv y"
  unfolding sys_inv_def
proof (induction rule: sys_step.induct)
  case (reconciled E c q ca st out c' qs)
  then show ?case
    using reconciled_inv [of E c q ca L out c' qs st] written_refused [of E "f_hist c" qs st]
    by (auto simp: locked_def)
next
  case (created st k ca c)
  then have "keyed (st(key k \<mapsto> k))" using keyed_upd(1) unfolding store_inv_def by simp
  moreover have "is_served (st(key k \<mapsto> k)) a \<Longrightarrow> is_served st a" for a
    using created by (simp add: is_served_upd zero_Status_def split: if_splits)
  ultimately show ?case using store_inv_fewer [of st] created.prems unfolding fst_conv by blast
next
  case (edited st k old ca c)
  then have "keyed (st(key k \<mapsto> k))" using keyed_upd(1) unfolding store_inv_def by simp
  moreover have "is_served (st(key k \<mapsto> k)) a \<Longrightarrow> is_served st a" for a
    using edited by (simp add: is_served_upd is_served_def split: if_splits)
  ultimately show ?case using store_inv_fewer [of st] edited.prems unfolding fst_conv by blast
next
  case (removed st ca c q)
  then have "keyed (st(q := None))" using keyed_upd(2) unfolding store_inv_def by simp
  moreover have "is_served (st(q := None)) a \<Longrightarrow> is_served st a" for a
    by (simp add: is_served_upd)
  ultimately show ?case using store_inv_fewer [of st] removed.prems unfolding fst_conv by blast
qed simp

text \<open>
  C3: At most one Keda resource is served, as long as the cache of the manager does not miss the served
  one: in every state that users, the cache and the controller can reach from a cluster without
  Keda resources, by reconciliations that each find a served resource in the cache if there is one in the
  store, two resources with Served True are the same.  In all else the cache may be behind;
  the API refuses updates of a resource in an old version, and an update does not change the status.
\<close>

theorem one_served:
  assumes "(sys_step L served_seen)\<^sup>*\<^sup>* ((\<lambda>q. None), (\<lambda>q. None), c0) (st, ca, c)"
    and "st a = Some k" "st_Served (k_Status k) = ''True''"
    and "st b = Some k'" "st_Served (k_Status k') = ''True''"
  shows "a = b"
proof -
  have "sys_inv (st, ca, c)"
    using assms(1)
  proof (induction rule: rtranclp_induct)
    case base
    show ?case by (simp add: sys_inv_def store_inv_def keyed_def is_served_def)
  qed (rule sys_step_inv)
  moreover have "is_served st a" "is_served st b" using assms(2-5) by (simp_all add: is_served_def)
  ultimately show ?thesis by (simp add: sys_inv_def store_inv_def del: split_paired_All)
qed

section \<open>The next one takes over\<close>

lemma Reconcile_unserved:
  assumes v: "e_get E (f_hist c) (fst q) (snd q) = Inr v" "\<not> served v"
    and doc: "conditions_doc L" "\<And>n h. e_ctx_err E n h = None"
    and free: "e_list_kedas E (f_hist c @ [ReqGet (fst q) (snd q)]) = Inr ks"
      "\<And>x. x \<in> set ks \<Longrightarrow> st_Served (k_Status x) \<noteq> ''True''"
    and ok: "\<And>h. e_status_update E h (UpdateServed ''True'' v) = (None, UpdateServed ''True'' v)"
  shows "\<exists>evs. f_hist (snd (Reconcile L E c q)) = f_hist c @ ReqGet (fst q) (snd q) # ReqListKedas
      # ReqStatusUpdate (UpdateServed ''True'' v) # map event_of evs"
proof -
  let ?c1 = "log_req (ReqGet (fst q) (snd q)) c"
  have "find (\<lambda>k. st_Served (k_Status k) = ''True'') ks = None"
    using free(2) by (auto simp: find_None_iff)
  then have u: "unserved_report L E (f_hist ?c1) v = UpdateServed ''True'' v"
    using free(1) by (simp add: unserved_report_def)
  obtain out r' s' where r: "Run L E ?c1 v = (out, r', s')" by (metis prod_cases3)
  have "f_hist r' = f_hist ?c1 @ ReqListKedas # ReqStatusUpdate (UpdateServed ''True'' v)
      # map event_of (st_Conditions (k_Status (UpdateServed ''True'' v)))"
    using unserved_run_effect [OF v(2) doc, of ?c1 "UpdateServed ''True'' v"] ok u r by simp
  then show ?thesis
    using v(1) r by (auto simp: Reconcile_def Let_def NewFsm_def after_run_def)
qed

lemma written_events: "written E h (map event_of cs) st = st"
  by (induction cs arbitrary: h) (simp_all add: event_of_def)

text \<open>What such a reconciliation does to the store.\<close>

lemma takes_over:
  assumes "st q = Some v" "key v = q" "\<not> served v" "conditions_doc L" "\<And>n h. e_ctx_err E n h = None"
    and "e_get E (f_hist c) (fst q) (snd q) = Inr v"
      "e_list_kedas E (f_hist c @ [ReqGet (fst q) (snd q)]) = Inr ks"
      "\<And>x. x \<in> set ks \<Longrightarrow> st_Served (k_Status x) \<noteq> ''True''"
      "\<And>h. e_status_update E h (UpdateServed ''True'' v) = (None, UpdateServed ''True'' v)"
    and "f_hist (snd (Reconcile L E c q)) = f_hist c @ qs"
  shows "written E (f_hist c) qs st = st(q \<mapsto> UpdateServed ''True'' v)"
proof -
  obtain evs where "qs = ReqGet (fst q) (snd q) # ReqListKedas
      # ReqStatusUpdate (UpdateServed ''True'' v) # map event_of evs"
    using Reconcile_unserved [OF assms(6,3,4,5,7,8,9)] assms(10) by auto
  moreover have "key (UpdateServed ''True'' v) = q" "v\<lparr>k_Status := k_Status (UpdateServed ''True'' v)\<rparr> = UpdateServed ''True'' v"
    using assms(2) by (simp_all add: key_def UpdateServed_def)
  ultimately show ?thesis using assms(1,9) by (simp add: written_events store_status_def)
qed

lemma is_served_taken: "is_served (st(q \<mapsto> UpdateServed ''True'' v)) q"
  by (simp add: is_served_def UpdateServed_def)

text \<open>
  C18: A resource that is not served takes over when no other is: if the API answers from the store, no
  stored resource is served and the status update succeeds, one reconciliation of the resource makes
  it the served one.  The deletion of a resource requests a reconciliation of every resource left, so
  when the served one is deleted, another takes over.
\<close>

theorem unserved_takes_over:
  assumes "st q = Some v" "key v = q" "\<not> served v" "\<And>a. \<not> is_served st a"
    and "answers E (f_hist c) q st" "conditions_doc L" "\<And>n h. e_ctx_err E n h = None"
    and "e_get E (f_hist c) (fst q) (snd q) = Inr v"
      "e_list_kedas E (f_hist c @ [ReqGet (fst q) (snd q)]) = Inr ks"
      "\<And>h. e_status_update E h (UpdateServed ''True'' v) = (None, UpdateServed ''True'' v)"
    and "f_hist (snd (Reconcile L E c q)) = f_hist c @ qs"
  shows "is_served (written E (f_hist c) qs st) q
    \<and> (e_list_kedas E (f_hist c') = Inr ks \<longrightarrow> q \<in> set (fst (retriggerAllKedaCRs E c')))"
proof -
  have ks: "set ks = ran st" using assms(5,9) unfolding answers_def by blast
  then have free: "st_Served (k_Status x) \<noteq> ''True''" if "x \<in> set ks" for x
    using that assms(4) unfolding is_served_def ran_def by blast
  have "is_served (written E (f_hist c) qs st) q"
    using takes_over [of st q v L E c ks qs] free assms(1-3,6-11) is_served_taken by simp
  moreover have "v \<in> set ks" using ks assms(1) by (simp add: ranI)
  then have "q \<in> set (fst (retriggerAllKedaCRs E c'))" if "e_list_kedas E (f_hist c') = Inr ks"
    using that assms(2) by (auto simp: retriggerAllKedaCRs_def key_def Let_def)
  ultimately show ?thesis by blast
qed

section \<open>A concrete cluster\<close>

definition ref_api :: env where
  "ref_api = ref_env\<lparr>e_list_kedas := \<lambda>h. Inr [ref_keda]\<rparr>"

definition ref_store :: store where
  "ref_store = (\<lambda>q. None)(key ref_keda \<mapsto> ref_keda)"

lemma ref_key: "key ref_keda = (''kyma-system'', ''default'')"
  by (simp add: key_def ref_keda_def ref_meta_def)

lemma ref_unserved: "\<not> served ref_keda" "\<not> is_served ref_store a"
  by (simp_all add: served_def IsServedEmpty_def ref_keda_def zero_Status_def ref_store_def is_served_def)

lemma ref_not_true: "st_Served (k_Status ref_keda) \<noteq> ''True''"
  by (simp add: ref_keda_def zero_Status_def)

lemma ref_answers: "answers ref_api (f_hist ref_fsm) (key ref_keda) ref_store" "update_doc ref_api"
  by (simp_all add: answers_def update_doc_def ref_api_def ref_env_simps ref_store_def)

lemma ref_reconciled:
  "\<exists>evs. f_hist (snd (Reconcile ref_lib ref_api ref_fsm (key ref_keda))) =
     f_hist ref_fsm @ ReqGet ''kyma-system'' ''default'' # ReqListKedas
       # ReqStatusUpdate (UpdateServed ''True'' ref_keda) # map event_of evs"
  using Reconcile_unserved [of ref_api ref_fsm "key ref_keda" ref_keda ref_lib "[ref_keda]"]
    ref_unserved(1) ref_not_true
  by (simp add: ref_key ref_api_def ref_env_simps)

theorem unserved_takes_over_witness:
  "\<exists>qs. is_served (written ref_api (f_hist ref_fsm) qs ref_store) (''kyma-system'', ''default'')"
proof -
  obtain qs where qs: "f_hist (snd (Reconcile ref_lib ref_api ref_fsm (key ref_keda))) = f_hist ref_fsm @ qs"
    using ref_reconciled by blast
  have "is_served (written ref_api (f_hist ref_fsm) qs ref_store) (key ref_keda)"
    using unserved_takes_over [OF _ refl ref_unserved ref_answers(1) ref_conditions_doc _ _ _ _ qs]
    by (simp add: ref_store_def ref_api_def ref_env_simps)
  then show ?thesis by (auto simp: ref_key)
qed

theorem one_served_witness:
  "\<exists>st ca c. (sys_step ref_lib served_seen)\<^sup>*\<^sup>* ((\<lambda>q. None), (\<lambda>q. None), ref_fsm) (st, ca, c)
     \<and> is_served st (''kyma-system'', ''default'') \<and> (\<forall>b. is_served st b \<longrightarrow> b = (''kyma-system'', ''default''))"
proof -
  obtain evs where qs: "f_hist (snd (Reconcile ref_lib ref_api ref_fsm (key ref_keda))) = f_hist ref_fsm @ 
      ReqGet ''kyma-system'' ''default'' # ReqListKedas
       # ReqStatusUpdate (UpdateServed ''True'' ref_keda) # map event_of evs"
    using ref_reconciled by blast
  let ?st = "written ref_api (f_hist ref_fsm) (ReqGet ''kyma-system'' ''default'' # ReqListKedas
       # ReqStatusUpdate (UpdateServed ''True'' ref_keda) # map event_of evs) ref_store"
    and ?c = "snd (Reconcile ref_lib ref_api ref_fsm (key ref_keda))"
  have "sys_step ref_lib served_seen ((\<lambda>q. None), (\<lambda>q. None), ref_fsm) (ref_store, (\<lambda>q. None), ref_fsm)"
    unfolding ref_store_def by (rule sys_step.created) (simp_all add: ref_keda_def)
  moreover have "sys_step ref_lib served_seen (ref_store, (\<lambda>q. None), ref_fsm) (ref_store, ref_store, ref_fsm)"
    by (rule sys_step.caught_up) simp
  moreover have "sys_step ref_lib served_seen (ref_store, ref_store, ref_fsm) (?st, ref_store, ?c)"
    by (rule sys_step.reconciled [OF ref_answers(2,1) _ _ prod.collapse [symmetric] qs]) (simp_all add: locked_def)
  ultimately have r: "(sys_step ref_lib served_seen)\<^sup>*\<^sup>* ((\<lambda>q. None), (\<lambda>q. None), ref_fsm) (?st, ref_store, ?c)" by simp
  have "is_served ?st (''kyma-system'', ''default'')"
    by (simp add: written_events store_status_def is_served_def UpdateServed_def ref_store_def
        ref_api_def ref_env_simps key_def ref_keda_def ref_meta_def)
  with r one_served [OF r] show ?thesis unfolding is_served_def by blast
qed

section \<open>With a cache that is behind\<close>

text \<open>An API whose reads come from a cache that holds two new resources.\<close>

definition two_cached :: "Keda \<Rightarrow> Keda \<Rightarrow> env" where
  "two_cached a b = ref_env\<lparr>e_get := (\<lambda>h ns n. Inr (if (ns, n) = key a then a else b)), e_list_kedas := (\<lambda>h. Inr [a, b])\<rparr>"

lemma two_cached_takes_over:
  assumes "conditions_doc L" "key a \<noteq> key b" "k_Status a = zero_Status" "k_Status b = zero_Status"
    and "v \<in> {a, b}" "st (key v) = Some v"
  shows "\<exists>c'. sys_step L (\<lambda>st ca. True) (st, [key a \<mapsto> a, key b \<mapsto> b], c)
    (st(key v \<mapsto> UpdateServed ''True'' v), [key a \<mapsto> a, key b \<mapsto> b], c')"
proof -
  let ?E = "two_cached a b" and ?ca = "[key a \<mapsto> a, key b \<mapsto> b]"
  have v: "?ca (key v) = Some v" "e_get ?E h (fst (key v)) (snd (key v)) = Inr v" for h
    using assms(2,5) by (auto simp: two_cached_def)
  have ans: "answers ?E (f_hist c) (key v) ?ca"
    using v assms(2) by (auto simp: answers_def two_cached_def)
  have u: "\<not> served v" using assms(3-5) by (auto simp: served_def IsServedEmpty_def zero_Status_def)
  have free: "st_Served (k_Status x) \<noteq> ''True''" if "x \<in> set [a, b]" for x
    using that assms(3,4) by (auto simp: zero_Status_def)
  obtain out c' where r: "Reconcile L ?E c (key v) = (out, c')" by (metis surj_pair)
  have ok: "e_ctx_err ?E n h = None" "e_list_kedas ?E h = Inr [a, b]" "e_status_update ?E h k = (None, k)" for n h k
    by (simp_all add: two_cached_def ref_env_simps)
  obtain evs where qs: "f_hist c' = f_hist c @ ReqGet (fst (key v)) (snd (key v)) # ReqListKedas
      # ReqStatusUpdate (UpdateServed ''True'' v) # map event_of evs"
    using Reconcile_unserved [OF v(2) u assms(1) ok(1) ok(2) free ok(3), of c] r by auto
  have "written ?E (f_hist c) (drop (length (f_hist c)) (f_hist c')) st = st(key v \<mapsto> UpdateServed ''True'' v)"
    using takes_over [of st "key v" v L ?E c "[a, b]", OF assms(6) refl u assms(1) ok(1) v(2) ok(2) free ok(3)] r qs
    by simp
  moreover have "update_doc ?E" by (simp add: update_doc_def two_cached_def ref_env_simps)
  moreover have "locked ?E (key v) st ?ca" using v(1) assms(6) by (simp add: locked_def)
  ultimately show ?thesis
    using sys_step.reconciled [OF _ ans _ _ r, of st "\<lambda>st ca. True" "drop (length (f_hist c)) (f_hist c')"] qs by auto
qed



end
