(* ===== verification/Event_Properties.thy ===== *)
theory Event_Properties
  imports Keda_Store
begin

text \<open>
  Properties of events: which changes of a Keda resource are reconciled, and what a change of an
  object of the module leads to.
\<close>

text \<open>The predicates of controller-runtime, as documented, on resources without labels.\<close>

definition predicates_doc :: "Keda predicates \<Rightarrow> bool" where
  "predicates_doc P \<longleftrightarrow>
     (\<forall>e. (\<nexists>x y. e = UpdateEvent x y) \<longrightarrow> LabelChanged P e \<and> AnnotationChanged P e \<and> GenerationChanged P e)
     \<and> (\<forall>x y. \<not> LabelChanged P (UpdateEvent x y))
     \<and> (\<forall>x y. AnnotationChanged P (UpdateEvent x y) \<longleftrightarrow>
            meta_Annotations (k_Meta x) \<noteq> meta_Annotations (k_Meta y))
     \<and> (\<forall>x y. GenerationChanged P (UpdateEvent x y) \<longleftrightarrow>
            meta_Generation (k_Meta x) \<noteq> meta_Generation (k_Meta y))"

text \<open>
  Writing the status does not trigger the controller: an update that changes neither the annotations
  nor the generation of a Keda resource, as a status update does, leads to no request; every other
  change, the creation and the deletion lead to one for the resource, and the deletion in addition
  to one for every resource in the list.
\<close>

theorem keda_event_requests:
  assumes "predicates_doc P"
  shows "fst (keda_event E P (UpdateEvent k k') c) =
       (if meta_Annotations (k_Meta k) = meta_Annotations (k_Meta k')
           \<and> meta_Generation (k_Meta k) = meta_Generation (k_Meta k') then [] else [key k'])
     \<and> fst (keda_event E P (CreateEvent k) c) = [key k]
     \<and> fst (keda_event E P (DeleteEvent k) c) =
         key k # (case e_list_kedas E (f_hist c) of Inl e \<Rightarrow> [] | Inr ks \<Rightarrow> map key ks)"
  using assms
  by (auto simp: predicates_doc_def keda_event_def ommitStatusChanged_def key_def retriggerAllKedaCRs_def
      Let_def split: sum.split)

definition ref_predicates :: "Keda predicates" where
  "ref_predicates = \<lparr>
     LabelChanged = (\<lambda>e. case e of UpdateEvent x y \<Rightarrow> False | _ \<Rightarrow> True),
     AnnotationChanged = (\<lambda>e. case e of
        UpdateEvent x y \<Rightarrow> meta_Annotations (k_Meta x) \<noteq> meta_Annotations (k_Meta y) | _ \<Rightarrow> True),
     GenerationChanged = (\<lambda>e. case e of
        UpdateEvent x y \<Rightarrow> meta_Generation (k_Meta x) \<noteq> meta_Generation (k_Meta y) | _ \<Rightarrow> True),
     LabelSelector = (\<lambda>ls e. True)\<rparr>"

lemma ref_predicates_doc: "predicates_doc ref_predicates"
  by (auto simp: predicates_doc_def ref_predicates_def split: event.split)

theorem keda_event_requests_witness:
  "fst (keda_event ref_env ref_predicates (UpdateEvent ref_keda (UpdateServed ''True'' ref_keda)) ref_fsm) = []"
  using keda_event_requests [OF ref_predicates_doc, of ref_env ref_keda "UpdateServed ''True'' ref_keda"]
  by (simp add: UpdateServed_def)

text \<open>A call that changes nothing but the status of the resource \<open>k\<close>.\<close>

fun only_reports :: "Keda \<Rightarrow> request \<Rightarrow> bool" where
  "only_reports k (ReqCreateNamespace n) = False"
| "only_reports k (ReqPatch u) = False"
| "only_reports k (ReqDelete u) = False"
| "only_reports k (ReqUpdate k') = False"
| "only_reports k (ReqStatusUpdate k') = (key k' = key k)"
| "only_reports k _ = True"

lemma unserved_only_reports:
  assumes "\<not> served k" "update_doc E"
  shows "hist_ext (only_reports k) r (fst (snd (Run L E r k)))"
proof -
  have "only_reports k q" if "permitted L r k q" "\<forall>k'. q = ReqStatusUpdate k' \<longrightarrow> reportable E (f_hist r) k k'" for q
    using that assms(1) by (cases q) (auto simp: install_ok_def delete_ok_def reportable_def ident_def)
  with run_permitted [of L r k E] run_reports [OF assms(2), of r k L] show ?thesis
    by (auto simp: hist_ext_def list_all_iff)
qed


definition ref_all :: "obj predicates" where
  "ref_all = \<lparr>LabelChanged = (\<lambda>e. True), AnnotationChanged = (\<lambda>e. True), GenerationChanged = (\<lambda>e. True),
     LabelSelector = (\<lambda>ls e. True)\<rparr>"


end
