(* ===== verification/Permissions.thy ===== *)
theory Permissions
  imports Served_Instance Delete_Properties
begin

text \<open>
  The permissions of the controller: the markers of \<open>controllers/keda_controller_rbacs.go\<close>, from which
  the cluster role of the manager is generated, and which of the program's calls they cover.
\<close>

section \<open>The rules\<close>

record PolicyRule =
  APIGroups :: "string list"
  Resources :: "string list"
  Verbs :: "string list"

definition rule :: "string list \<Rightarrow> string list \<Rightarrow> string list \<Rightarrow> PolicyRule" where
  "rule gs rs vs = \<lparr>APIGroups = gs, Resources = rs, Verbs = vs\<rparr>"

abbreviation managed_verbs :: "string list" where
  "managed_verbs \<equiv> [''create'', ''delete'', ''list'', ''patch'', ''update'', ''watch'']"

definition rbac_rules :: "PolicyRule list" where
  "rbac_rules =
    [rule [[]] [''configmaps'', ''configmaps/status''] managed_verbs,
     rule [''events.k8s.io''] [''events''] [''create'', ''patch''],
     rule [[]] [''services''] managed_verbs,
     rule [[]] [''external'', ''pods'', ''secrets'', ''serviceaccounts''] managed_verbs,
     rule [[]] [''namespaces''] [''create'', ''delete'', ''get'', ''list'', ''patch'', ''update'',
      ''watch''],
     rule [[]] [''limitranges''] [''list'', ''watch''],
     rule [''apiregistration.k8s.io''] [''apiservices''] managed_verbs,
     rule [''rbac.authorization.k8s.io''] [''clusterrolebindings'', ''clusterroles'', ''rolebindings'',
      ''roles''] managed_verbs,
     rule [''authorization.k8s.io''] [''subjectaccessreviews''] [''create''],
     rule [''authentication.k8s.io''] [''tokenreviews''] [''create''],
     rule [''apiextensions.k8s.io''] [''customresourcedefinitions''] managed_verbs,
     rule [''*''] [''*/scale''] [''get'', ''list'', ''patch'', ''update'', ''watch''],
     rule [''*''] [''*''] [''get''],
     rule [''apps''] [''deployments''] managed_verbs,
     rule [''apps''] [''statefulsets'', ''replicasets''] [''list'', ''watch''],
     rule [''batch''] [''jobs''] managed_verbs,
     rule [''coordination.k8s.io''] [''leases''] managed_verbs,
     rule [''keda.sh''] [''clustertriggerauthentications'', ''clustertriggerauthentications/status'',
      ''scaledjobs'', ''scaledjobs/finalizers'', ''scaledjobs/status'', ''scaledobjects'',
      ''scaledobjects/finalizers'', ''scaledobjects/status'', ''triggerauthentications'',
      ''triggerauthentications/status''] managed_verbs,
     rule [''eventing.keda.sh''] [''cloudeventsources'', ''cloudeventsources/status'',
      ''clustercloudeventsources'', ''clustercloudeventsources/status''] [''list'', ''patch'',
      ''update'', ''watch''],
     rule [''discovery.k8s.io''] [''endpointslices''] [''list'', ''watch''],
     rule [''http.keda.sh''] [''httpscaledobjects'', ''httpscaledobjects/status'',
      ''httpscaledobjects/finalizers''] managed_verbs,
     rule [''external.metrics.k8s.io''] [''externalmetrics''] [''list'', ''watch''],
     rule [''autoscaling''] [''horizontalpodautoscalers''] managed_verbs,
     rule [''admissionregistration.k8s.io''] [''validatingwebhookconfigurations''] managed_verbs,
     rule [''operator.kyma-project.io''] [''kedas''] managed_verbs,
     rule [''operator.kyma-project.io''] [''kedas/status''] [''patch'', ''update''],
     rule [''operator.kyma-project.io''] [''kedas/finalizers''] [''patch'', ''update''],
     rule [''networking.k8s.io''] [''networkpolicies''] managed_verbs,
     rule [''security.istio.io''] [''peerauthentications''] managed_verbs]"

text \<open>
  How a rule matches: a star stands for every group, resource or verb, and a star before a slash for
  every resource with that subresource.
\<close>

definition matches :: "string list \<Rightarrow> string \<Rightarrow> bool" where
  "matches xs x \<longleftrightarrow> ''*'' \<in> set xs \<or> x \<in> set xs"

fun subresource :: "string \<Rightarrow> string option" where
  "subresource [] = None"
| "subresource (c # cs) = (if c = CHR ''/'' then Some cs else subresource cs)"

definition matches_resource :: "string list \<Rightarrow> string \<Rightarrow> bool" where
  "matches_resource rs x \<longleftrightarrow> matches rs x
     \<or> (case subresource x of None \<Rightarrow> False | Some sub \<Rightarrow> ''*/'' @ sub \<in> set rs)"

definition rule_allows :: "PolicyRule \<Rightarrow> string \<Rightarrow> string \<Rightarrow> string \<Rightarrow> bool" where
  "rule_allows p verb grp res \<longleftrightarrow>
     matches (Verbs p) verb \<and> matches (APIGroups p) grp \<and> matches_resource (Resources p) res"

definition authorised :: "string \<Rightarrow> string \<Rightarrow> string \<Rightarrow> bool" where
  "authorised verb grp res \<longleftrightarrow> list_ex (\<lambda>p. rule_allows p verb grp res) rbac_rules"

section \<open>What the calls need\<close>

text \<open>
  The verbs, the group and the resource a call needs; \<open>plural\<close> is the mapping of a kind to its resource,
  which the API server knows.  A server-side apply may create its object.  The recorder of
  \<open>GetEventRecorderFor\<close> creates and patches events of the core group.
\<close>

fun access :: "k8s_lib \<Rightarrow> (GVK \<Rightarrow> string) \<Rightarrow> request \<Rightarrow> (string list \<times> string \<times> string) option" where
  "access L plural (ReqGet ns n) = Some ([''get'', ''list'', ''watch''], ''operator.kyma-project.io'', ''kedas'')"
| "access L plural ReqListKedas = Some ([''list'', ''watch''], ''operator.kyma-project.io'', ''kedas'')"
| "access L plural (ReqList g) = Some ([''list''], gvk_Group g, plural g)"
| "access L plural (ReqCreateNamespace n) = Some ([''create''], [], ''namespaces'')"
| "access L plural (ReqPatch u) = Some ([''patch'', ''create''],
     gvk_Group (GroupVersionKind L u), plural (GroupVersionKind L u))"
| "access L plural (ReqDelete u) = Some ([''delete''],
     gvk_Group (GroupVersionKind L u), plural (GroupVersionKind L u))"
| "access L plural (ReqUpdate k) = Some ([''update''], ''operator.kyma-project.io'', ''kedas'')"
| "access L plural (ReqStatusUpdate k) = Some ([''update''], ''operator.kyma-project.io'', ''kedas/status'')"
| "access L plural (ReqEvent t r m) = Some ([''create'', ''patch''], [], ''events'')"
| "access L plural (ReqHTTPGet u) = None"

text \<open>
  The kinds of the objects in \<open>keda.yaml\<close> and \<open>keda-networkpolicies.yaml\<close>, with the leases and the
  Istio resource the program adds, and the kinds of the custom resources they define.
\<close>

definition module_kinds :: "(string \<times> string) list" where
  "module_kinds =
    [([], ''serviceaccounts''), ([], ''services''), (''apps'', ''deployments''),
     (''apiextensions.k8s.io'', ''customresourcedefinitions''), (''apiregistration.k8s.io'', ''apiservices''),
     (''admissionregistration.k8s.io'', ''validatingwebhookconfigurations''),
     (''rbac.authorization.k8s.io'', ''clusterroles''), (''rbac.authorization.k8s.io'', ''clusterrolebindings''),
     (''rbac.authorization.k8s.io'', ''roles''), (''rbac.authorization.k8s.io'', ''rolebindings''),
     (''networking.k8s.io'', ''networkpolicies''), (''coordination.k8s.io'', ''leases''),
     (''security.istio.io'', ''peerauthentications'')]"

definition instance_kinds :: "(string \<times> string) list" where
  "instance_kinds =
    [(''keda.sh'', ''clustertriggerauthentications''), (''keda.sh'', ''scaledjobs''),
     (''keda.sh'', ''scaledobjects''), (''keda.sh'', ''triggerauthentications''),
     (''eventing.keda.sh'', ''cloudeventsources''), (''eventing.keda.sh'', ''clustercloudeventsources''),
     (''http.keda.sh'', ''httpscaledobjects'')]"

lemmas permission_defs = authorised_def rbac_rules_def rule_def rule_allows_def matches_def
  matches_resource_def

lemma module_kinds_managed:
  "list_all (\<lambda>(g, res). authorised ''create'' g res \<and> authorised ''patch'' g res \<and> authorised ''delete'' g res)
     module_kinds"
  by code_simp

text \<open>The controller watches the kinds of the module's objects.\<close>

lemma module_kinds_watched:
  "list_all (\<lambda>(g, res). authorised ''list'' g res \<and> authorised ''watch'' g res) module_kinds"
  by code_simp

lemma instance_kinds_listed: "list_all (\<lambda>(g, res). authorised ''list'' g res) instance_kinds"
  by code_simp

lemma own_calls:
  "authorised ''get'' ''operator.kyma-project.io'' ''kedas''"
  "authorised ''list'' ''operator.kyma-project.io'' ''kedas''"
  "authorised ''watch'' ''operator.kyma-project.io'' ''kedas''"
  "authorised ''update'' ''operator.kyma-project.io'' ''kedas''"
  "authorised ''update'' ''operator.kyma-project.io'' ''kedas/status''"
  "authorised ''create'' [] ''namespaces''"
  by code_simp+

text \<open>
  The markers grant events of the group \<open>events.k8s.io\<close> only, not those the recorder writes: none of the
  two accesses of an event is covered.  (The role for the leader election, which is no marker, grants them, but is bound
  in the namespace \<open>kyma-system\<close> alone.)
\<close>

theorem events_not_authorised:
  "access L plural (ReqEvent t r m) = Some (verbs, g, res) \<Longrightarrow> verb \<in> set verbs \<Longrightarrow> \<not> authorised verb g res"
proof -
  have "\<not> authorised ''create'' [] ''events''" "\<not> authorised ''patch'' [] ''events''" by code_simp+
  then show "access L plural (ReqEvent t r m) = Some (verbs, g, res) \<Longrightarrow> verb \<in> set verbs \<Longrightarrow> \<not> authorised verb g res"
    by auto
qed

text \<open>
  The role of the controller covers its other calls: every access that a call of the program needs, but for events, is
  allowed by a marker, for calls on Keda resources and namespaces without condition, for applied
  and deleted objects if they are of the kinds of the module, and for listed objects if they are
  instances of the module's or the add-on's custom resources.
\<close>

theorem calls_authorised:
  assumes "access L plural q = Some (verbs, g, res)" "\<And>t r m. q \<noteq> ReqEvent t r m"
    and "is_ReqPatch q \<or> is_ReqDelete q \<Longrightarrow> (g, res) \<in> set module_kinds"
    and "\<And>x. q = ReqList x \<Longrightarrow> (g, res) \<in> set instance_kinds"
    and "verb \<in> set verbs"
  shows "authorised verb g res"
  using assms own_calls module_kinds_managed instance_kinds_listed
  by (cases q) (auto simp: list_all_iff)

theorem calls_authorised_witness:
  "authorised ''list'' ''http.keda.sh'' ''httpscaledobjects'' \<and> authorised ''delete'' ''coordination.k8s.io'' ''leases''"
proof
  let ?plural = "\<lambda>g. if gvk_Group g = ''http.keda.sh'' then ''httpscaledobjects'' else ''leases''"
  show "authorised ''list'' ''http.keda.sh'' ''httpscaledobjects''"
    using calls_authorised [of ref_lib ?plural "ReqList httpScaledObjectGVK" "[''list'']" "''http.keda.sh''"
        "''httpscaledobjects''" "''list''"]
    by (simp add: httpScaledObjectGVK_def instance_kinds_def)
  show "authorised ''delete'' ''coordination.k8s.io'' ''leases''"
    using calls_authorised [of ref_lib ?plural "ReqDelete (fixLeaseObject ''x'')" "[''delete'']"
        "''coordination.k8s.io''" "''leases''" "''delete''"]
    by (simp add: module_kinds_def ref_lib_simps ref_gvk_def fixLeaseObject_def str_at_def)
qed

end
