(* ===== verification/Go_Heap.thy ===== *)
theory Go_Heap
  imports Keda_Types "HOL-Library.Sublist" "HOL-Library.List_Lexorder" "HOL-Library.Char_ord"
begin

text \<open>
  The memory behind the values of \<open>Keda_Types\<close>: structs hold pointers to cells, and slices and maps are
  references.  A deep copy allocates a new cell for each cell that can be reached.  The locale
  \<open>deep_copy\<close> says what this means: the copy has the same value, and no write to a cell that was there
  before changes it.  Pointers, pairs, lists and structs of deep copies are deep copies.
\<close>

section \<open>Cells\<close>

type_synonym addr = nat

record CommonCfgP =
  cp_Level :: "addr option"
  cp_Format :: "addr option"
  cp_TimeEncoding :: "addr option"

record IstioP =
  ip_Operator :: "addr option"
  ip_MetricServer :: "addr option"

record LoggingP =
  lp_Operator :: "addr option"
  lp_MetricsServer :: "addr option"
  lp_AdmissionWebhook :: "addr option"

record ResourcesP =
  rp_Operator :: "addr option"
  rp_MetricsServer :: "addr option"
  rp_AdmissionWebhook :: "addr option"

record AnnotationsP =
  ap_Operator :: "addr option"
  ap_MetricsServer :: "addr option"
  ap_AdmissionWebhook :: "addr option"

record SpecP =
  sp_Istio :: "addr option"
  sp_Logging :: "addr option"
  sp_Resources :: "addr option"
  sp_Env :: "addr option"
  sp_PodAnnotations :: "addr option"

record StatusP =
  tp_State :: string
  tp_Served :: string
  tp_KedaVersion :: string
  tp_Conditions :: "addr option"

record KedaP =
  kp_Meta :: ObjectMeta
  kp_Spec :: SpecP
  kp_Status :: StatusP

record KedaListP =
  lp_ListMeta :: json
  lp_Items :: "addr option"

datatype cell =
    CText (text_of: string)
  | CLoggingCommon (common_of: CommonCfgP)
  | CLogging (logging_of: LoggingP)
  | CIstioCfg (istio_cfg_of: IstioCfg)
  | CIstio (istio_of: IstioP)
  | CReqs (reqs_of: json)
  | CResources (resources_of: ResourcesP)
  | CMap (smap_of: smap)
  | CAnnotations (annotations_of: AnnotationsP)
  | CEnvVars (envs_of: EnvVars)
  | CConditions (conditions_of: "Condition list")
  | CSpec (spec_of: SpecP)
  | CStatus (status_of: StatusP)
  | CKeda (keda_of: KedaP)
  | CItems (items_of: "KedaP list")
  | CKedaList (keda_list_of: KedaListP)
  | CAddonCfg (addon_cfg_of: AddonCfg)

type_synonym heap = "cell list"

text \<open>A heap \<open>g\<close> in which what was allocated between \<open>h\<close> and \<open>h'\<close> is unchanged.\<close>

definition keeps_new :: "heap \<Rightarrow> heap \<Rightarrow> heap \<Rightarrow> bool" where
  "keeps_new h h' g \<longleftrightarrow> length h' \<le> length g \<and> (\<forall>a. length h \<le> a \<and> a < length h' \<longrightarrow> g ! a = h' ! a)"

lemma keeps_new_split:
  assumes "prefix h h1" "prefix h1 h2" "keeps_new h h2 g"
  shows "keeps_new h h1 g" "keeps_new h1 h2 g"
  using assms by (auto simp: keeps_new_def prefix_def nth_append)

text \<open>A sequence of assignments to cells.\<close>

definition writes :: "(addr \<times> cell) list \<Rightarrow> heap \<Rightarrow> heap" where
  "writes ws h = fold (\<lambda>(a, c) h. h[a := c]) ws h"

lemma writes_old: "fst ` set ws \<subseteq> {..< length h} \<Longrightarrow> keeps_new h h' (writes ws h')"
proof -
  have "length (writes ws g) = length g \<and> (\<forall>a. length h \<le> a \<longrightarrow> writes ws g ! a = g ! a)"
    if "fst ` set ws \<subseteq> {..< length h}" for g
    using that by (induction ws arbitrary: g) (force simp: writes_def)+
  then show "fst ` set ws \<subseteq> {..< length h} \<Longrightarrow> keeps_new h h' (writes ws h')"
    by (simp add: keeps_new_def)
qed

lemma writes_new: "prefix h h' \<Longrightarrow> fst ` set ws \<subseteq> {length h ..} \<Longrightarrow> prefix h (writes ws h')"
proof (induction ws arbitrary: h')
  case (Cons w ws)
  obtain a c where w: "w = (a, c)" by (cases w)
  obtain new where "h' = h @ new" using Cons.prems(1) by (auto simp: prefix_def)
  then have "prefix h (h'[a := c])" using Cons.prems(2) w by (simp add: list_update_append)
  from Cons.IH [OF this] Cons.prems(2) w show ?case by (simp add: writes_def)
qed (simp add: writes_def)

section \<open>The contract\<close>

locale deep_copy =
  fixes copy :: "heap \<Rightarrow> 'p \<Rightarrow> 'p \<times> heap"
    and val :: "heap \<Rightarrow> 'p \<Rightarrow> 'v option"
  assumes copies: "val h x = Some v \<Longrightarrow> copy h x = (x', h') \<Longrightarrow>
      prefix h h' \<and> (\<forall>g. keeps_new h h' g \<longrightarrow> val g x' = Some v)"
    and grows: "val h x = Some v \<Longrightarrow> prefix h g \<Longrightarrow> val g x = Some v"
begin

lemma copy_grows: "val h x = Some v \<Longrightarrow> copy h x = (x', h') \<Longrightarrow> prefix h h'"
  using copies [of h x v x' h'] by simp

lemma copy_value: "val h x = Some v \<Longrightarrow> copy h x = (x', h') \<Longrightarrow> val h' x' = Some v"
  using copies [of h x v x' h'] by (simp add: keeps_new_def)

lemma original_value: "val h x = Some v \<Longrightarrow> copy h x = (x', h') \<Longrightarrow> val h' x = Some v"
  using grows [of h x v h'] copy_grows by blast

lemma copy_unaffected:
  assumes "val h x = Some v" "copy h x = (x', h')" "fst ` set ws \<subseteq> {..< length h}"
  shows "val (writes ws h') x' = Some v"
  using copies [OF assms(1,2)] writes_old [OF assms(3)] by blast

lemma original_unaffected:
  assumes "val h x = Some v" "copy h x = (x', h')" "fst ` set ws \<subseteq> {length h ..}"
  shows "val (writes ws h') x = Some v"
  using grows [OF assms(1)] writes_new [OF copy_grows [OF assms(1,2)] assms(3)] by blast

end

section \<open>Plain values and pairs\<close>

definition plain_copy :: "heap \<Rightarrow> 'p \<Rightarrow> 'p \<times> heap" where
  "plain_copy h x = (x, h)"

definition plain_val :: "heap \<Rightarrow> 'p \<Rightarrow> 'p option" where
  "plain_val h x = Some x"

interpretation plain: deep_copy plain_copy plain_val
  by unfold_locales (simp_all add: plain_copy_def plain_val_def)

fun copy_pair :: "(heap \<Rightarrow> 'p \<Rightarrow> 'p \<times> heap) \<Rightarrow> (heap \<Rightarrow> 'q \<Rightarrow> 'q \<times> heap) \<Rightarrow> heap \<Rightarrow> 'p \<times> 'q
    \<Rightarrow> ('p \<times> 'q) \<times> heap" where
  "copy_pair c d h (x, y) =
     (let (x', h1) = c h x; (y', h2) = d h1 y in ((x', y'), h2))"

fun val_pair :: "(heap \<Rightarrow> 'p \<Rightarrow> 'v option) \<Rightarrow> (heap \<Rightarrow> 'q \<Rightarrow> 'w option) \<Rightarrow> heap \<Rightarrow> 'p \<times> 'q
    \<Rightarrow> ('v \<times> 'w) option" where
  "val_pair f g h (x, y) =
     (case f h x of None \<Rightarrow> None | Some v \<Rightarrow> (case g h y of None \<Rightarrow> None | Some w \<Rightarrow> Some (v, w)))"

lemma val_pair_Some: "val_pair f g h p = Some z \<longleftrightarrow>
    f h (fst p) = Some (fst z) \<and> g h (snd p) = Some (snd z)"
  by (cases p; cases z) (auto split: option.split)

lemma deep_copy_pair:
  assumes c: "deep_copy c f" and d: "deep_copy d g"
  shows "deep_copy (copy_pair c d) (val_pair f g)"
proof
  fix h :: heap and p v x' h'
  assume v: "val_pair f g h p = Some v" and cp: "copy_pair c d h p = (x', h')"
  obtain x y where p: "p = (x, y)" by (cases p) auto
  obtain x1 h1 where x1: "c h x = (x1, h1)" by (cases "c h x") auto
  obtain y1 h2 where y1: "d h1 y = (y1, h2)" by (cases "d h1 y") auto
  have r: "x' = (x1, y1)" "h' = h2" using cp p x1 y1 by auto
  have fv: "f h x = Some (fst v)" and gv: "g h y = Some (snd v)" using v unfolding val_pair_Some p by simp_all
  note 1 = deep_copy.copies [OF c fv x1]
  have "g h1 y = Some (snd v)" using deep_copy.grows [OF d gv] 1 by blast
  note 2 = deep_copy.copies [OF d this y1]
  have "prefix h h2" using 1 2 prefix_order.trans by blast
  moreover have "val_pair f g k x' = Some v" if "keeps_new h h2 k" for k
    using 1 2 keeps_new_split [OF _ _ that, of h1] by (simp add: val_pair_Some r(1))
  ultimately show "prefix h h' \<and> (\<forall>k. keeps_new h h' k \<longrightarrow> val_pair f g k x' = Some v)"
    by (simp add: r(2))
next
  fix h p v k
  show "val_pair f g h p = Some v \<Longrightarrow> prefix h k \<Longrightarrow> val_pair f g k p = Some v"
    using deep_copy.grows [OF c] deep_copy.grows [OF d] unfolding val_pair_Some by blast
qed

declare val_pair.simps [simp del]

section \<open>Pointers\<close>

text \<open>
  A pointer to a type points to a cell of its constructor \<open>mk\<close>, which \<open>sel\<close> reads.  A nil pointer is
  copied to a nil pointer; otherwise the copy of the content goes into a new cell.
\<close>

definition deref :: "('p \<Rightarrow> cell) \<Rightarrow> (cell \<Rightarrow> 'p) \<Rightarrow> heap \<Rightarrow> addr \<Rightarrow> 'p option" where
  "deref mk sel h a =
     (if a < length h \<and> mk (sel (h ! a)) = h ! a then Some (sel (h ! a)) else None)"

definition new_cell :: "('p \<Rightarrow> cell) \<Rightarrow> 'p \<times> heap \<Rightarrow> addr option \<times> heap" where
  "new_cell mk r = (case r of (x, h) \<Rightarrow> (Some (length h), h @ [mk x]))"

definition copy_ptr ::
  "(heap \<Rightarrow> 'p \<Rightarrow> 'p \<times> heap) \<Rightarrow> ('p \<Rightarrow> cell) \<Rightarrow> (cell \<Rightarrow> 'p) \<Rightarrow> heap \<Rightarrow> addr option
    \<Rightarrow> addr option \<times> heap" where
  "copy_ptr copy mk sel h p =
     (case p of
        None \<Rightarrow> (None, h)
      | Some a \<Rightarrow>
          (case deref mk sel h a of
             None \<Rightarrow> (Some a, h)
           | Some x \<Rightarrow> new_cell mk (copy h x)))"

definition val_ptr ::
  "(heap \<Rightarrow> 'p \<Rightarrow> 'v option) \<Rightarrow> ('p \<Rightarrow> cell) \<Rightarrow> (cell \<Rightarrow> 'p) \<Rightarrow> heap \<Rightarrow> addr option
    \<Rightarrow> 'v option option" where
  "val_ptr val mk sel h p =
     (case p of
        None \<Rightarrow> Some None
      | Some a \<Rightarrow>
          (case deref mk sel h a of
             None \<Rightarrow> None
           | Some x \<Rightarrow> map_option Some (val h x)))"

lemma val_ptr_Some: "val_ptr val mk sel h p = Some v \<longleftrightarrow>
    p = None \<and> v = None \<or>
    (\<exists>a x w. p = Some a \<and> deref mk sel h a = Some x \<and> val h x = Some w \<and> v = Some w)"
  by (cases p) (auto simp: val_ptr_def split: option.splits)

lemma deref_prefix: "deref mk sel h a = Some x \<Longrightarrow> prefix h g \<Longrightarrow> deref mk sel g a = Some x"
  by (auto simp: deref_def prefix_def nth_append split: if_splits)

lemma deep_copy_new_cell:
  assumes c: "deep_copy copy val" and sel: "\<And>x. sel (mk x) = x"
    and x: "val h x = Some w" "new_cell mk (copy h x) = (p, h')"
  shows "prefix h h' \<and> (\<forall>g. keeps_new h h' g \<longrightarrow> val_ptr val mk sel g p = Some (Some w))"
proof -
  obtain x' h1 where c1: "copy h x = (x', h1)" by (cases "copy h x") auto
  note 1 = deep_copy.copies [OF c x(1) c1]
  have r: "p = Some (length h1)" "h' = h1 @ [mk x']" using x(2) c1 by (auto simp: new_cell_def)
  have "val_ptr val mk sel g p = Some (Some w)" if g: "keeps_new h h' g" for g
  proof -
    have "length h \<le> length h1" using 1 prefix_length_le by blast
    then have "g ! length h1 = mk x'" "length h1 < length g"
      using g by (auto simp: keeps_new_def r(2) nth_append)
    then have "deref mk sel g (length h1) = Some x'" by (simp add: deref_def sel)
    moreover have "keeps_new h h1 g" by (rule keeps_new_split(1) [OF _ _ g]) (use 1 r(2) in auto)
    ultimately show ?thesis using 1 r(1) by (simp add: val_ptr_def)
  qed
  with 1 r(2) show ?thesis by simp
qed

lemma deep_copy_ptr:
  assumes c: "deep_copy copy val" and sel: "\<And>x. sel (mk x) = x"
  shows "deep_copy (copy_ptr copy mk sel) (val_ptr val mk sel)"
proof
  fix h :: heap and p v p' h'
  assume v: "val_ptr val mk sel h p = Some v" and cp: "copy_ptr copy mk sel h p = (p', h')"
  show "prefix h h' \<and> (\<forall>g. keeps_new h h' g \<longrightarrow> val_ptr val mk sel g p' = Some v)"
  proof (cases p)
    case None
    with v cp show ?thesis by (auto simp: copy_ptr_def val_ptr_def)
  next
    case (Some a)
    then obtain x w where x: "deref mk sel h a = Some x" "val h x = Some w" "v = Some w"
      using v by (auto simp: val_ptr_def split: option.splits)
    with cp Some have "new_cell mk (copy h x) = (p', h')" by (simp add: copy_ptr_def)
    from deep_copy_new_cell [OF c sel x(2) this] x(3) show ?thesis by simp
  qed
next
  fix h p v g
  show "val_ptr val mk sel h p = Some v \<Longrightarrow> prefix h g \<Longrightarrow> val_ptr val mk sel g p = Some v"
    using deep_copy.grows [OF c] deref_prefix [of mk sel h] unfolding val_ptr_Some by blast
qed

section \<open>Structs and lists\<close>

text \<open>A struct is copied field by field; \<open>rd\<close> reads the copied fields and \<open>wr\<close> replaces them.\<close>

lemma deep_copy_struct:
  assumes c: "deep_copy copy0 val0"
    and copy: "\<And>h s. copy h s = (wr s (fst (copy0 h (rd s))), snd (copy0 h (rd s)))"
    and val: "\<And>h s. val h s = map_option (bd s) (val0 h (rd s))"
    and wr: "\<And>s t. rd (wr s t) = t" "\<And>s t. bd (wr s t) = bd s"
  shows "deep_copy copy val"
proof
  fix h s v s' h'
  assume v: "val h s = Some v" and cp: "copy h s = (s', h')"
  obtain w where w: "val0 h (rd s) = Some w" "v = bd s w" using v by (auto simp: val)
  obtain t where t: "copy0 h (rd s) = (t, h')" "s' = wr s t"
    using cp by (cases "copy0 h (rd s)") (auto simp: copy)
  from deep_copy.copies [OF c w(1) t(1)] show "prefix h h' \<and> (\<forall>g. keeps_new h h' g \<longrightarrow> val g s' = Some v)"
    by (simp add: val t(2) wr w(2))
next
  fix h s v g
  show "val h s = Some v \<Longrightarrow> prefix h g \<Longrightarrow> val g s = Some v"
    using deep_copy.grows [OF c] unfolding val map_option_eq_Some by blast
qed

fun copy_list :: "(heap \<Rightarrow> 'p \<Rightarrow> 'p \<times> heap) \<Rightarrow> heap \<Rightarrow> 'p list \<Rightarrow> 'p list \<times> heap" where
  "copy_list c h [] = ([], h)"
| "copy_list c h (x # xs) = (let (x', h1) = c h x; (xs', h2) = copy_list c h1 xs in (x' # xs', h2))"

fun val_list :: "(heap \<Rightarrow> 'p \<Rightarrow> 'v option) \<Rightarrow> heap \<Rightarrow> 'p list \<Rightarrow> 'v list option" where
  "val_list f h [] = Some []"
| "val_list f h (x # xs) =
     (case f h x of None \<Rightarrow> None | Some v \<Rightarrow> map_option ((#) v) (val_list f h xs))"

lemma val_list_Cons: "val_list f h (x # xs) = Some vs \<longleftrightarrow>
    (\<exists>v ws. f h x = Some v \<and> val_list f h xs = Some ws \<and> vs = v # ws)"
  by (auto split: option.split)

lemma deep_copy_list:
  assumes c: "deep_copy c f"
  shows "deep_copy (copy_list c) (val_list f)"
proof
  fix h xs vs xs' h'
  have g: "val_list f h xs = Some vs \<Longrightarrow> prefix h k \<Longrightarrow> val_list f k xs = Some vs" for h xs vs k
    by (induction xs arbitrary: vs) (auto simp: val_list_Cons simp del: val_list.simps(2)
        dest: deep_copy.grows [OF c])
  show "val_list f h xs = Some vs \<Longrightarrow> copy_list c h xs = (xs', h') \<Longrightarrow>
      prefix h h' \<and> (\<forall>k. keeps_new h h' k \<longrightarrow> val_list f k xs' = Some vs)"
  proof (induction xs arbitrary: h vs xs' h')
    case (Cons x xs)
    obtain v ws where v: "f h x = Some v" "val_list f h xs = Some ws" "vs = v # ws"
      using Cons.prems(1) unfolding val_list_Cons by blast
    obtain x1 h1 where x1: "c h x = (x1, h1)" by (cases "c h x") auto
    obtain ys h2 where ys: "copy_list c h1 xs = (ys, h2)" by (cases "copy_list c h1 xs") auto
    have r: "xs' = x1 # ys" "h' = h2" using Cons.prems(2) x1 ys by auto
    note 1 = deep_copy.copies [OF c v(1) x1]
    have "val_list f h1 xs = Some ws" using g v(2) 1 by blast
    note 2 = Cons.IH [OF this ys]
    have "prefix h h2" using 1 2 prefix_order.trans by blast
    moreover have "val_list f k xs' = Some vs" if "keeps_new h h2 k" for k
      using 1 2 keeps_new_split [OF _ _ that, of h1] by (simp add: r(1) v(3))
    ultimately show ?case by (simp add: r(2))
  qed simp
  show "val_list f h xs = Some vs \<Longrightarrow> prefix h k \<Longrightarrow> val_list f k xs = Some vs" for k by (rule g)
qed

end
