(* ===== verification/Deep_Copy.thy ===== *)
theory Deep_Copy
  imports Go_Heap
begin

text \<open>
  The copy functions of \<open>src/api/v1alpha1/zz_generated.deepcopy.go\<close>, one group per type: what
  \<open>DeepCopyInto\<close> writes into \<open>out\<close>, the value of \<open>Keda_Types\<close> the struct stands for, and \<open>DeepCopy\<close>, which
  takes a pointer.  \<open>*out = *in\<close> copies the struct with its references; the fields that follow are
  replaced by copies.  Library types (\<open>ObjectMeta\<close>, \<open>Condition\<close>, \<open>EnvVar\<close>, \<open>ResourceRequirements\<close>) are values of
  the model, so their own copy functions give the value back.  Each group ends with the
  interpretation of the contract \<open>deep_copy\<close>.
\<close>

section \<open>Strings, slices and maps\<close>

definition copy_text :: "heap \<Rightarrow> addr option \<Rightarrow> addr option \<times> heap" where
  "copy_text = copy_ptr plain_copy CText text_of"

definition val_text :: "heap \<Rightarrow> addr option \<Rightarrow> string option option" where
  "val_text = val_ptr plain_val CText text_of"

interpretation dc_text: deep_copy copy_text val_text
  unfolding copy_text_def val_text_def by (rule deep_copy_ptr [OF plain.deep_copy_axioms]) simp

text \<open>The loop over a map stores each entry in a new map; the order of the entries does not matter.\<close>

definition copy_entries :: "(string \<times> string) list \<Rightarrow> smap" where
  "copy_entries kvs = fold (\<lambda>(k, v) m. fmupd k v m) kvs fmempty"

definition copy_map :: "heap \<Rightarrow> smap \<Rightarrow> smap \<times> heap" where
  "copy_map h m = (copy_entries (sorted_list_of_fmap m), h)"

lemma copy_entries_any_order:
  assumes "distinct (map fst kvs)" "map_of kvs = fmlookup m"
  shows "copy_entries kvs = m"
proof -
  have "fmlookup (fold (\<lambda>(k, v) m. fmupd k v m) kvs m0) k =
      (case map_of kvs k of None \<Rightarrow> fmlookup m0 k | Some v \<Rightarrow> Some v)"
    if "distinct (map fst kvs)" for kvs :: "(string \<times> string) list" and m0 :: smap and k
    using that by (induction kvs arbitrary: m0) (force simp: map_of_eq_None_iff split: option.split)+
  with assms show ?thesis by (intro fmap_ext) (simp add: copy_entries_def split: option.split)
qed

lemma copy_map_plain: "copy_map = plain_copy"
proof (intro ext)
  fix h :: heap and m :: smap
  have "copy_entries (sorted_list_of_fmap m) = m"
    by (rule copy_entries_any_order)
      (auto simp: sorted_list_of_fmap_def comp_def sorted_list_of_fset.rep_eq map_of_map_keys fun_eq_iff
        fmdom'_alt_def [symmetric] restrict_map_def fmlookup_dom'_iff)
  then show "copy_map h m = plain_copy h m" by (simp add: copy_map_def plain_copy_def)
qed

text \<open>A nil slice and an empty one are both the empty list of the model's values.\<close>

definition val_slice ::
  "(heap \<Rightarrow> 'p \<Rightarrow> 'v option) \<Rightarrow> ('p list \<Rightarrow> cell) \<Rightarrow> (cell \<Rightarrow> 'p list) \<Rightarrow> heap \<Rightarrow> addr option
    \<Rightarrow> 'v list option" where
  "val_slice val mk sel h p = map_option (case_option [] id) (val_ptr (val_list val) mk sel h p)"

definition copy_slice ::
  "(heap \<Rightarrow> 'p \<Rightarrow> 'p \<times> heap) \<Rightarrow> ('p list \<Rightarrow> cell) \<Rightarrow> (cell \<Rightarrow> 'p list) \<Rightarrow> heap \<Rightarrow> addr option
    \<Rightarrow> addr option \<times> heap" where
  "copy_slice copy mk sel = copy_ptr (copy_list copy) mk sel"

lemma deep_copy_slice:
  assumes "deep_copy copy val" "\<And>xs. sel (mk xs) = xs"
  shows "deep_copy (copy_slice copy mk sel) (val_slice val mk sel)"
  by (rule deep_copy_struct [where rd = "\<lambda>p. p" and wr = "\<lambda>_ p. p" and bd = "\<lambda>_. case_option [] id",
        OF deep_copy_ptr [OF deep_copy_list [OF assms(1)], of sel mk]])
    (simp_all add: assms(2) copy_slice_def val_slice_def)

section \<open>\<open>LoggingCommonCfg\<close>\<close>

definition LoggingCommonCfg_DeepCopyInto :: "heap \<Rightarrow> CommonCfgP \<Rightarrow> CommonCfgP \<times> heap" where
  "LoggingCommonCfg_DeepCopyInto h s =
     (let (a, h) = copy_text h (cp_Level s);
          (b, h) = copy_text h (cp_Format s);
          (c, h) = copy_text h (cp_TimeEncoding s)
      in (s\<lparr>cp_Level := a, cp_Format := b, cp_TimeEncoding := c\<rparr>, h))"

definition LoggingCommonCfg_val :: "heap \<Rightarrow> CommonCfgP \<Rightarrow> LoggingCommonCfg option" where
  "LoggingCommonCfg_val h s =
     map_option (\<lambda>(a, b, c). \<lparr>log_Level = a, log_Format = b, log_TimeEncoding = c\<rparr>)
       (val_pair (val_text) (val_pair (val_text) (val_text)) h (cp_Level s, cp_Format s, cp_TimeEncoding s))"

interpretation dc_common: deep_copy LoggingCommonCfg_DeepCopyInto LoggingCommonCfg_val
  by (rule deep_copy_struct
      [where rd = "\<lambda>s. (cp_Level s, cp_Format s, cp_TimeEncoding s)"
        and wr = "\<lambda>s (a, b, c). s\<lparr>cp_Level := a, cp_Format := b, cp_TimeEncoding := c\<rparr>"
        and bd = "\<lambda>s (a, b, c). \<lparr>log_Level = a, log_Format = b, log_TimeEncoding = c\<rparr>",
        OF deep_copy_pair [OF dc_text.deep_copy_axioms deep_copy_pair [OF dc_text.deep_copy_axioms dc_text.deep_copy_axioms]]])
    (auto simp: LoggingCommonCfg_DeepCopyInto_def LoggingCommonCfg_val_def split: prod.split)

definition LoggingCommonCfg_DeepCopy :: "heap \<Rightarrow> addr option \<Rightarrow> addr option \<times> heap" where
  "LoggingCommonCfg_DeepCopy = copy_ptr LoggingCommonCfg_DeepCopyInto CLoggingCommon common_of"

definition LoggingCommonCfg_ptr_val :: "heap \<Rightarrow> addr option \<Rightarrow> LoggingCommonCfg option option" where
  "LoggingCommonCfg_ptr_val = val_ptr LoggingCommonCfg_val CLoggingCommon common_of"

interpretation dp_common: deep_copy LoggingCommonCfg_DeepCopy LoggingCommonCfg_ptr_val
  unfolding LoggingCommonCfg_DeepCopy_def LoggingCommonCfg_ptr_val_def by (rule deep_copy_ptr [OF dc_common.deep_copy_axioms]) simp

section \<open>\<open>LoggingCfg\<close>\<close>

definition LoggingCfg_DeepCopyInto :: "heap \<Rightarrow> LoggingP \<Rightarrow> LoggingP \<times> heap" where
  "LoggingCfg_DeepCopyInto h s =
     (let (a, h) = LoggingCommonCfg_DeepCopy h (lp_Operator s);
          (b, h) = LoggingCommonCfg_DeepCopy h (lp_MetricsServer s);
          (c, h) = LoggingCommonCfg_DeepCopy h (lp_AdmissionWebhook s)
      in (s\<lparr>lp_Operator := a, lp_MetricsServer := b, lp_AdmissionWebhook := c\<rparr>, h))"

definition LoggingCfg_val :: "heap \<Rightarrow> LoggingP \<Rightarrow> LoggingCfg option" where
  "LoggingCfg_val h s =
     map_option (\<lambda>(a, b, c). \<lparr>lc_Operator = a, lc_MetricsServer = b, lc_AdmissionWebhook = c\<rparr>)
       (val_pair (LoggingCommonCfg_ptr_val) (val_pair (LoggingCommonCfg_ptr_val) (LoggingCommonCfg_ptr_val)) h (lp_Operator s, lp_MetricsServer s, lp_AdmissionWebhook s))"

interpretation dc_logging: deep_copy LoggingCfg_DeepCopyInto LoggingCfg_val
  by (rule deep_copy_struct
      [where rd = "\<lambda>s. (lp_Operator s, lp_MetricsServer s, lp_AdmissionWebhook s)"
        and wr = "\<lambda>s (a, b, c). s\<lparr>lp_Operator := a, lp_MetricsServer := b, lp_AdmissionWebhook := c\<rparr>"
        and bd = "\<lambda>s (a, b, c). \<lparr>lc_Operator = a, lc_MetricsServer = b, lc_AdmissionWebhook = c\<rparr>",
        OF deep_copy_pair [OF dp_common.deep_copy_axioms deep_copy_pair [OF dp_common.deep_copy_axioms dp_common.deep_copy_axioms]]])
    (auto simp: LoggingCfg_DeepCopyInto_def LoggingCfg_val_def split: prod.split)

definition LoggingCfg_DeepCopy :: "heap \<Rightarrow> addr option \<Rightarrow> addr option \<times> heap" where
  "LoggingCfg_DeepCopy = copy_ptr LoggingCfg_DeepCopyInto CLogging logging_of"

definition LoggingCfg_ptr_val :: "heap \<Rightarrow> addr option \<Rightarrow> LoggingCfg option option" where
  "LoggingCfg_ptr_val = val_ptr LoggingCfg_val CLogging logging_of"

interpretation dp_logging: deep_copy LoggingCfg_DeepCopy LoggingCfg_ptr_val
  unfolding LoggingCfg_DeepCopy_def LoggingCfg_ptr_val_def by (rule deep_copy_ptr [OF dc_logging.deep_copy_axioms]) simp

section \<open>\<open>IstioCfg\<close>\<close>

definition IstioCfg_DeepCopyInto :: "heap \<Rightarrow> IstioCfg \<Rightarrow> IstioCfg \<times> heap" where
  "IstioCfg_DeepCopyInto h s = (s, h)"

definition IstioCfg_DeepCopy :: "heap \<Rightarrow> addr option \<Rightarrow> addr option \<times> heap" where
  "IstioCfg_DeepCopy = copy_ptr IstioCfg_DeepCopyInto CIstioCfg istio_cfg_of"

definition IstioCfg_ptr_val :: "heap \<Rightarrow> addr option \<Rightarrow> IstioCfg option option" where
  "IstioCfg_ptr_val = val_ptr plain_val CIstioCfg istio_cfg_of"

lemma IstioCfg_DeepCopyInto_plain: "IstioCfg_DeepCopyInto = plain_copy"
  by (simp add: IstioCfg_DeepCopyInto_def plain_copy_def fun_eq_iff)

interpretation dp_istio_cfg: deep_copy IstioCfg_DeepCopy IstioCfg_ptr_val
  unfolding IstioCfg_DeepCopy_def IstioCfg_ptr_val_def IstioCfg_DeepCopyInto_plain
  by (rule deep_copy_ptr [OF plain.deep_copy_axioms]) simp

section \<open>\<open>Istio\<close>\<close>

definition Istio_DeepCopyInto :: "heap \<Rightarrow> IstioP \<Rightarrow> IstioP \<times> heap" where
  "Istio_DeepCopyInto h s =
     (let (a, h) = IstioCfg_DeepCopy h (ip_Operator s);
          (b, h) = IstioCfg_DeepCopy h (ip_MetricServer s)
      in (s\<lparr>ip_Operator := a, ip_MetricServer := b\<rparr>, h))"

definition Istio_val :: "heap \<Rightarrow> IstioP \<Rightarrow> Istio option" where
  "Istio_val h s =
     map_option (\<lambda>(a, b). \<lparr>istio_Operator = a, istio_MetricServer = b\<rparr>)
       (val_pair (IstioCfg_ptr_val) (IstioCfg_ptr_val) h (ip_Operator s, ip_MetricServer s))"

interpretation dc_istio: deep_copy Istio_DeepCopyInto Istio_val
  by (rule deep_copy_struct
      [where rd = "\<lambda>s. (ip_Operator s, ip_MetricServer s)"
        and wr = "\<lambda>s (a, b). s\<lparr>ip_Operator := a, ip_MetricServer := b\<rparr>"
        and bd = "\<lambda>s (a, b). \<lparr>istio_Operator = a, istio_MetricServer = b\<rparr>",
        OF deep_copy_pair [OF dp_istio_cfg.deep_copy_axioms dp_istio_cfg.deep_copy_axioms]])
    (auto simp: Istio_DeepCopyInto_def Istio_val_def split: prod.split)

definition Istio_DeepCopy :: "heap \<Rightarrow> addr option \<Rightarrow> addr option \<times> heap" where
  "Istio_DeepCopy = copy_ptr Istio_DeepCopyInto CIstio istio_of"

definition Istio_ptr_val :: "heap \<Rightarrow> addr option \<Rightarrow> Istio option option" where
  "Istio_ptr_val = val_ptr Istio_val CIstio istio_of"

interpretation dp_istio: deep_copy Istio_DeepCopy Istio_ptr_val
  unfolding Istio_DeepCopy_def Istio_ptr_val_def by (rule deep_copy_ptr [OF dc_istio.deep_copy_axioms]) simp

section \<open>\<open>Resources\<close>\<close>

definition copy_reqs :: "heap \<Rightarrow> addr option \<Rightarrow> addr option \<times> heap" where
  "copy_reqs = copy_ptr plain_copy CReqs reqs_of"

definition val_reqs :: "heap \<Rightarrow> addr option \<Rightarrow> json option option" where
  "val_reqs = val_ptr plain_val CReqs reqs_of"

interpretation dc_reqs: deep_copy copy_reqs val_reqs
  unfolding copy_reqs_def val_reqs_def by (rule deep_copy_ptr [OF plain.deep_copy_axioms]) simp

definition Resources_DeepCopyInto :: "heap \<Rightarrow> ResourcesP \<Rightarrow> ResourcesP \<times> heap" where
  "Resources_DeepCopyInto h s =
     (let (a, h) = copy_reqs h (rp_Operator s);
          (b, h) = copy_reqs h (rp_MetricsServer s);
          (c, h) = copy_reqs h (rp_AdmissionWebhook s)
      in (s\<lparr>rp_Operator := a, rp_MetricsServer := b, rp_AdmissionWebhook := c\<rparr>, h))"

definition Resources_val :: "heap \<Rightarrow> ResourcesP \<Rightarrow> Resources option" where
  "Resources_val h s =
     map_option (\<lambda>(a, b, c). \<lparr>res_Operator = a, res_MetricsServer = b, res_AdmissionWebhook = c\<rparr>)
       (val_pair (val_reqs) (val_pair (val_reqs) (val_reqs)) h (rp_Operator s, rp_MetricsServer s, rp_AdmissionWebhook s))"

interpretation dc_resources: deep_copy Resources_DeepCopyInto Resources_val
  by (rule deep_copy_struct
      [where rd = "\<lambda>s. (rp_Operator s, rp_MetricsServer s, rp_AdmissionWebhook s)"
        and wr = "\<lambda>s (a, b, c). s\<lparr>rp_Operator := a, rp_MetricsServer := b, rp_AdmissionWebhook := c\<rparr>"
        and bd = "\<lambda>s (a, b, c). \<lparr>res_Operator = a, res_MetricsServer = b, res_AdmissionWebhook = c\<rparr>",
        OF deep_copy_pair [OF dc_reqs.deep_copy_axioms deep_copy_pair [OF dc_reqs.deep_copy_axioms dc_reqs.deep_copy_axioms]]])
    (auto simp: Resources_DeepCopyInto_def Resources_val_def split: prod.split)

definition Resources_DeepCopy :: "heap \<Rightarrow> addr option \<Rightarrow> addr option \<times> heap" where
  "Resources_DeepCopy = copy_ptr Resources_DeepCopyInto CResources resources_of"

definition Resources_ptr_val :: "heap \<Rightarrow> addr option \<Rightarrow> Resources option option" where
  "Resources_ptr_val = val_ptr Resources_val CResources resources_of"

interpretation dp_resources: deep_copy Resources_DeepCopy Resources_ptr_val
  unfolding Resources_DeepCopy_def Resources_ptr_val_def by (rule deep_copy_ptr [OF dc_resources.deep_copy_axioms]) simp

section \<open>\<open>PodAnnotations\<close>\<close>

definition copy_annotations :: "heap \<Rightarrow> addr option \<Rightarrow> addr option \<times> heap" where
  "copy_annotations = copy_ptr copy_map CMap smap_of"

definition val_annotations :: "heap \<Rightarrow> addr option \<Rightarrow> smap option option" where
  "val_annotations = val_ptr plain_val CMap smap_of"

interpretation dc_map: deep_copy copy_annotations val_annotations
  unfolding copy_annotations_def val_annotations_def copy_map_plain
  by (rule deep_copy_ptr [OF plain.deep_copy_axioms]) simp

definition PodAnnotations_DeepCopyInto :: "heap \<Rightarrow> AnnotationsP \<Rightarrow> AnnotationsP \<times> heap" where
  "PodAnnotations_DeepCopyInto h s =
     (let (a, h) = copy_annotations h (ap_Operator s);
          (b, h) = copy_annotations h (ap_MetricsServer s);
          (c, h) = copy_annotations h (ap_AdmissionWebhook s)
      in (s\<lparr>ap_Operator := a, ap_MetricsServer := b, ap_AdmissionWebhook := c\<rparr>, h))"

definition PodAnnotations_val :: "heap \<Rightarrow> AnnotationsP \<Rightarrow> PodAnnotations option" where
  "PodAnnotations_val h s =
     map_option (\<lambda>(a, b, c). \<lparr>ann_Operator = a, ann_MetricsServer = b, ann_AdmissionWebhook = c\<rparr>)
       (val_pair (val_annotations) (val_pair (val_annotations) (val_annotations)) h (ap_Operator s, ap_MetricsServer s, ap_AdmissionWebhook s))"

interpretation dc_annotations: deep_copy PodAnnotations_DeepCopyInto PodAnnotations_val
  by (rule deep_copy_struct
      [where rd = "\<lambda>s. (ap_Operator s, ap_MetricsServer s, ap_AdmissionWebhook s)"
        and wr = "\<lambda>s (a, b, c). s\<lparr>ap_Operator := a, ap_MetricsServer := b, ap_AdmissionWebhook := c\<rparr>"
        and bd = "\<lambda>s (a, b, c). \<lparr>ann_Operator = a, ann_MetricsServer = b, ann_AdmissionWebhook = c\<rparr>",
        OF deep_copy_pair [OF dc_map.deep_copy_axioms deep_copy_pair [OF dc_map.deep_copy_axioms dc_map.deep_copy_axioms]]])
    (auto simp: PodAnnotations_DeepCopyInto_def PodAnnotations_val_def split: prod.split)

definition PodAnnotations_DeepCopy :: "heap \<Rightarrow> addr option \<Rightarrow> addr option \<times> heap" where
  "PodAnnotations_DeepCopy = copy_ptr PodAnnotations_DeepCopyInto CAnnotations annotations_of"

definition PodAnnotations_ptr_val :: "heap \<Rightarrow> addr option \<Rightarrow> PodAnnotations option option" where
  "PodAnnotations_ptr_val = val_ptr PodAnnotations_val CAnnotations annotations_of"

interpretation dp_annotations: deep_copy PodAnnotations_DeepCopy PodAnnotations_ptr_val
  unfolding PodAnnotations_DeepCopy_def PodAnnotations_ptr_val_def by (rule deep_copy_ptr [OF dc_annotations.deep_copy_axioms]) simp

section \<open>\<open>EnvVars\<close>\<close>

text \<open>
  The receiver is the slice itself.  \<open>DeepCopyInto\<close> makes a slice also for a nil receiver; \<open>DeepCopy\<close> and
  the copy of the specification test for nil first.
\<close>

definition EnvVars_DeepCopyInto :: "heap \<Rightarrow> addr option \<Rightarrow> addr option \<times> heap" where
  "EnvVars_DeepCopyInto h p =
     (case p of
        None \<Rightarrow> new_cell CEnvVars (copy_list plain_copy h [])
      | Some a \<Rightarrow>
          (case deref CEnvVars envs_of h a of
             None \<Rightarrow> (Some a, h)
           | Some es \<Rightarrow> new_cell CEnvVars (copy_list plain_copy h es)))"

definition EnvVars_DeepCopy :: "heap \<Rightarrow> addr option \<Rightarrow> addr option \<times> heap" where
  "EnvVars_DeepCopy h p = (if p = None then (None, h) else EnvVars_DeepCopyInto h p)"

definition EnvVars_val :: "heap \<Rightarrow> addr option \<Rightarrow> EnvVars option" where
  "EnvVars_val = val_slice plain_val CEnvVars envs_of"

definition copy_env :: "heap \<Rightarrow> addr option \<Rightarrow> addr option \<times> heap" where
  "copy_env = copy_slice plain_copy CEnvVars envs_of"

lemma EnvVars_DeepCopy_slice: "EnvVars_DeepCopy = copy_env"
  by (auto simp: EnvVars_DeepCopy_def EnvVars_DeepCopyInto_def copy_env_def copy_slice_def copy_ptr_def
      fun_eq_iff split: option.split)

interpretation dc_env: deep_copy copy_env EnvVars_val
  unfolding copy_env_def EnvVars_val_def by (rule deep_copy_slice [OF plain.deep_copy_axioms]) simp

section \<open>\<open>KedaSpec\<close>\<close>

definition KedaSpec_DeepCopyInto :: "heap \<Rightarrow> SpecP \<Rightarrow> SpecP \<times> heap" where
  "KedaSpec_DeepCopyInto h s =
     (let (a, h) = Istio_DeepCopy h (sp_Istio s);
          (b, h) = LoggingCfg_DeepCopy h (sp_Logging s);
          (c, h) = Resources_DeepCopy h (sp_Resources s);
          (d, h) = copy_env h (sp_Env s);
          (e, h) = PodAnnotations_DeepCopy h (sp_PodAnnotations s)
      in (s\<lparr>sp_Istio := a, sp_Logging := b, sp_Resources := c, sp_Env := d, sp_PodAnnotations := e\<rparr>, h))"

definition KedaSpec_val :: "heap \<Rightarrow> SpecP \<Rightarrow> KedaSpec option" where
  "KedaSpec_val h s =
     map_option (\<lambda>(a, b, c, d, e). \<lparr>spec_Istio = a, spec_Logging = b, spec_Resources = c, spec_Env = d, spec_PodAnnotations = e\<rparr>)
       (val_pair (Istio_ptr_val) (val_pair (LoggingCfg_ptr_val) (val_pair (Resources_ptr_val) (val_pair (EnvVars_val) (PodAnnotations_ptr_val)))) h (sp_Istio s, sp_Logging s, sp_Resources s, sp_Env s, sp_PodAnnotations s))"

interpretation dc_spec: deep_copy KedaSpec_DeepCopyInto KedaSpec_val
  by (rule deep_copy_struct
      [where rd = "\<lambda>s. (sp_Istio s, sp_Logging s, sp_Resources s, sp_Env s, sp_PodAnnotations s)"
        and wr = "\<lambda>s (a, b, c, d, e). s\<lparr>sp_Istio := a, sp_Logging := b, sp_Resources := c, sp_Env := d, sp_PodAnnotations := e\<rparr>"
        and bd = "\<lambda>s (a, b, c, d, e). \<lparr>spec_Istio = a, spec_Logging = b, spec_Resources = c, spec_Env = d, spec_PodAnnotations = e\<rparr>",
        OF deep_copy_pair [OF dp_istio.deep_copy_axioms deep_copy_pair [OF dp_logging.deep_copy_axioms deep_copy_pair [OF dp_resources.deep_copy_axioms deep_copy_pair [OF dc_env.deep_copy_axioms dp_annotations.deep_copy_axioms]]]]])
    (auto simp: KedaSpec_DeepCopyInto_def KedaSpec_val_def split: prod.split)

definition KedaSpec_DeepCopy :: "heap \<Rightarrow> addr option \<Rightarrow> addr option \<times> heap" where
  "KedaSpec_DeepCopy = copy_ptr KedaSpec_DeepCopyInto CSpec spec_of"

definition KedaSpec_ptr_val :: "heap \<Rightarrow> addr option \<Rightarrow> KedaSpec option option" where
  "KedaSpec_ptr_val = val_ptr KedaSpec_val CSpec spec_of"

interpretation dp_spec: deep_copy KedaSpec_DeepCopy KedaSpec_ptr_val
  unfolding KedaSpec_DeepCopy_def KedaSpec_ptr_val_def by (rule deep_copy_ptr [OF dc_spec.deep_copy_axioms]) simp

section \<open>\<open>Status\<close>\<close>

definition copy_conditions :: "heap \<Rightarrow> addr option \<Rightarrow> addr option \<times> heap" where
  "copy_conditions = copy_slice plain_copy CConditions conditions_of"

definition val_conditions :: "heap \<Rightarrow> addr option \<Rightarrow> Condition list option" where
  "val_conditions = val_slice plain_val CConditions conditions_of"

interpretation dc_conditions: deep_copy copy_conditions val_conditions
  unfolding copy_conditions_def val_conditions_def by (rule deep_copy_slice [OF plain.deep_copy_axioms]) simp

definition Status_DeepCopyInto :: "heap \<Rightarrow> StatusP \<Rightarrow> StatusP \<times> heap" where
  "Status_DeepCopyInto h s =
     (let (cs, h) = copy_conditions h (tp_Conditions s) in (s\<lparr>tp_Conditions := cs\<rparr>, h))"

definition Status_val :: "heap \<Rightarrow> StatusP \<Rightarrow> Status option" where
  "Status_val h s =
     map_option (\<lambda>cs. \<lparr>st_State = tp_State s, st_Served = tp_Served s, st_KedaVersion = tp_KedaVersion s,
         st_Conditions = cs\<rparr>)
       (val_conditions h (tp_Conditions s))"

interpretation dc_status: deep_copy Status_DeepCopyInto Status_val
  by (rule deep_copy_struct
      [where rd = tp_Conditions and wr = "\<lambda>s cs. s\<lparr>tp_Conditions := cs\<rparr>"
        and bd = "\<lambda>s cs. \<lparr>st_State = tp_State s, st_Served = tp_Served s, st_KedaVersion = tp_KedaVersion s,
          st_Conditions = cs\<rparr>",
        OF dc_conditions.deep_copy_axioms])
    (auto simp: Status_DeepCopyInto_def Status_val_def split: prod.split)

definition Status_DeepCopy :: "heap \<Rightarrow> addr option \<Rightarrow> addr option \<times> heap" where
  "Status_DeepCopy = copy_ptr Status_DeepCopyInto CStatus status_of"

definition Status_ptr_val :: "heap \<Rightarrow> addr option \<Rightarrow> Status option option" where
  "Status_ptr_val = val_ptr Status_val CStatus status_of"

interpretation dp_status: deep_copy Status_DeepCopy Status_ptr_val
  unfolding Status_DeepCopy_def Status_ptr_val_def by (rule deep_copy_ptr [OF dc_status.deep_copy_axioms]) simp

section \<open>\<open>Keda\<close> and \<open>KedaList\<close>\<close>

definition Keda_DeepCopyInto :: "heap \<Rightarrow> KedaP \<Rightarrow> KedaP \<times> heap" where
  "Keda_DeepCopyInto h k =
     (let (m, h) = plain_copy h (kp_Meta k);
          (s, h) = KedaSpec_DeepCopyInto h (kp_Spec k);
          (t, h) = Status_DeepCopyInto h (kp_Status k)
      in (k\<lparr>kp_Meta := m, kp_Spec := s, kp_Status := t\<rparr>, h))"

definition Keda_val :: "heap \<Rightarrow> KedaP \<Rightarrow> Keda option" where
  "Keda_val h k =
     map_option (\<lambda>(m, s, t). \<lparr>k_Meta = m, k_Spec = s, k_Status = t\<rparr>)
       (val_pair plain_val (val_pair KedaSpec_val Status_val) h (kp_Meta k, kp_Spec k, kp_Status k))"

interpretation dc_keda: deep_copy Keda_DeepCopyInto Keda_val
  by (rule deep_copy_struct
      [where rd = "\<lambda>k. (kp_Meta k, kp_Spec k, kp_Status k)"
        and wr = "\<lambda>k (m, s, t). k\<lparr>kp_Meta := m, kp_Spec := s, kp_Status := t\<rparr>"
        and bd = "\<lambda>k (m, s, t). \<lparr>k_Meta = m, k_Spec = s, k_Status = t\<rparr>",
        OF deep_copy_pair [OF plain.deep_copy_axioms
          deep_copy_pair [OF dc_spec.deep_copy_axioms dc_status.deep_copy_axioms]]])
    (auto simp: Keda_DeepCopyInto_def Keda_val_def split: prod.split)

definition Keda_DeepCopy :: "heap \<Rightarrow> addr option \<Rightarrow> addr option \<times> heap" where
  "Keda_DeepCopy = copy_ptr Keda_DeepCopyInto CKeda keda_of"

definition Keda_ptr_val :: "heap \<Rightarrow> addr option \<Rightarrow> Keda option option" where
  "Keda_ptr_val = val_ptr Keda_val CKeda keda_of"

interpretation dp_keda: deep_copy Keda_DeepCopy Keda_ptr_val
  unfolding Keda_DeepCopy_def Keda_ptr_val_def by (rule deep_copy_ptr [OF dc_keda.deep_copy_axioms]) simp

text \<open>A \<open>runtime.Object\<close> is an interface value: nil, or the pointer the method returns.\<close>

definition Keda_DeepCopyObject :: "heap \<Rightarrow> addr option \<Rightarrow> addr option \<times> heap" where
  "Keda_DeepCopyObject h p =
     (case Keda_DeepCopy h p of
        (Some c, h') \<Rightarrow> (Some c, h')
      | (None, h') \<Rightarrow> (None, h'))"

record KedaList =
  list_Meta :: json
  list_Items :: "Keda list"

definition copy_items :: "heap \<Rightarrow> addr option \<Rightarrow> addr option \<times> heap" where
  "copy_items = copy_slice Keda_DeepCopyInto CItems items_of"

definition val_items :: "heap \<Rightarrow> addr option \<Rightarrow> Keda list option" where
  "val_items = val_slice Keda_val CItems items_of"

interpretation dc_items: deep_copy copy_items val_items
  unfolding copy_items_def val_items_def by (rule deep_copy_slice [OF dc_keda.deep_copy_axioms]) simp

definition KedaList_DeepCopyInto :: "heap \<Rightarrow> KedaListP \<Rightarrow> KedaListP \<times> heap" where
  "KedaList_DeepCopyInto h l =
     (let (m, h) = plain_copy h (lp_ListMeta l);
          (is, h) = copy_items h (lp_Items l)
      in (l\<lparr>lp_ListMeta := m, lp_Items := is\<rparr>, h))"

definition KedaList_val :: "heap \<Rightarrow> KedaListP \<Rightarrow> KedaList option" where
  "KedaList_val h l =
     map_option (\<lambda>(m, is). \<lparr>list_Meta = m, list_Items = is\<rparr>)
       (val_pair plain_val val_items h (lp_ListMeta l, lp_Items l))"

interpretation dc_list: deep_copy KedaList_DeepCopyInto KedaList_val
  by (rule deep_copy_struct
      [where rd = "\<lambda>l. (lp_ListMeta l, lp_Items l)"
        and wr = "\<lambda>l (m, is). l\<lparr>lp_ListMeta := m, lp_Items := is\<rparr>"
        and bd = "\<lambda>l (m, is). \<lparr>list_Meta = m, list_Items = is\<rparr>",
        OF deep_copy_pair [OF plain.deep_copy_axioms dc_items.deep_copy_axioms]])
    (auto simp: KedaList_DeepCopyInto_def KedaList_val_def split: prod.split)

definition KedaList_DeepCopy :: "heap \<Rightarrow> addr option \<Rightarrow> addr option \<times> heap" where
  "KedaList_DeepCopy = copy_ptr KedaList_DeepCopyInto CKedaList keda_list_of"

definition KedaList_ptr_val :: "heap \<Rightarrow> addr option \<Rightarrow> KedaList option option" where
  "KedaList_ptr_val = val_ptr KedaList_val CKedaList keda_list_of"

interpretation dp_list: deep_copy KedaList_DeepCopy KedaList_ptr_val
  unfolding KedaList_DeepCopy_def KedaList_ptr_val_def by (rule deep_copy_ptr [OF dc_list.deep_copy_axioms]) simp

definition KedaList_DeepCopyObject :: "heap \<Rightarrow> addr option \<Rightarrow> addr option \<times> heap" where
  "KedaList_DeepCopyObject h p =
     (case KedaList_DeepCopy h p of
        (Some c, h') \<Rightarrow> (Some c, h')
      | (None, h') \<Rightarrow> (None, h'))"

section \<open>\<open>AddonCfg\<close>\<close>

definition AddonCfg_DeepCopyInto :: "heap \<Rightarrow> AddonCfg \<Rightarrow> AddonCfg \<times> heap" where
  "AddonCfg_DeepCopyInto h s = (s, h)"

definition AddonCfg_DeepCopy :: "heap \<Rightarrow> addr option \<Rightarrow> addr option \<times> heap" where
  "AddonCfg_DeepCopy = copy_ptr AddonCfg_DeepCopyInto CAddonCfg addon_cfg_of"

definition AddonCfg_ptr_val :: "heap \<Rightarrow> addr option \<Rightarrow> AddonCfg option option" where
  "AddonCfg_ptr_val = val_ptr plain_val CAddonCfg addon_cfg_of"

lemma AddonCfg_DeepCopyInto_plain: "AddonCfg_DeepCopyInto = plain_copy"
  by (simp add: AddonCfg_DeepCopyInto_def plain_copy_def fun_eq_iff)

interpretation dp_addon_cfg: deep_copy AddonCfg_DeepCopy AddonCfg_ptr_val
  unfolding AddonCfg_DeepCopy_def AddonCfg_ptr_val_def AddonCfg_DeepCopyInto_plain
  by (rule deep_copy_ptr [OF plain.deep_copy_axioms]) simp

end
