(* ===== verification/Heap_Refinement.thy ===== *)
theory Heap_Refinement
  imports Deep_Copy Update_Objects Ref_Lib
begin

text \<open>
  Two places where the state machine depends on which cells are shared, and why the values of the model
  are enough there: the snapshot of the status is a deep copy, and \<open>Sanitize\<close> writes through a pointer that
  a copied configuration shares with the resource.
\<close>

section \<open>Independent copies\<close>

text \<open>
  C40: A deep copy of a resource has the value of the original; no writes to cells that existed before change the
  copy, and no writes to newer cells change the original.
\<close>
theorem keda_copy_independent:
  assumes "Keda_ptr_val h p = Some v" and "Keda_DeepCopyObject h p = (p', h')"
  shows "Keda_ptr_val h' p' = Some v \<and> Keda_ptr_val h' p = Some v
    \<and> (\<forall>ws. fst ` set ws \<subseteq> {..< length h} \<longrightarrow> Keda_ptr_val (writes ws h') p' = Some v)
    \<and> (\<forall>ws. fst ` set ws \<subseteq> {length h ..} \<longrightarrow> Keda_ptr_val (writes ws h') p = Some v)"
proof -
  have c: "Keda_DeepCopy h p = (p', h')"
    using assms(2) by (auto simp: Keda_DeepCopyObject_def split: prod.splits option.splits)
  show ?thesis
    using dp_keda.copy_value [OF assms(1) c] dp_keda.original_value [OF assms(1) c]
      dp_keda.copy_unaffected [OF assms(1) c] dp_keda.original_unaffected [OF assms(1) c] by blast
qed

text \<open>A resource in memory whose operator logs in the format \<open>text\<close>.\<close>

definition ref_heap :: heap where
  "ref_heap =
    [CText ''text'',
     CLoggingCommon \<lparr>cp_Level = None, cp_Format = Some 0, cp_TimeEncoding = None\<rparr>,
     CLogging \<lparr>lp_Operator = Some 1, lp_MetricsServer = None, lp_AdmissionWebhook = None\<rparr>,
     CConditions [mk_condition ConditionTypeInstalled ''True'' 0 ConditionReasonVerified ''keda verified''],
     CKeda \<lparr>kp_Meta = ref_meta,
       kp_Spec = \<lparr>sp_Istio = None, sp_Logging = Some 2, sp_Resources = None, sp_Env = None,
         sp_PodAnnotations = None\<rparr>,
       kp_Status = \<lparr>tp_State = StateReady, tp_Served = ServedTrue, tp_KedaVersion = [],
         tp_Conditions = Some 3\<rparr>\<rparr>]"

definition ref_stored :: "string \<Rightarrow> string \<Rightarrow> Keda" where
  "ref_stored format msg =
     \<lparr>k_Meta = ref_meta,
      k_Spec = \<lparr>spec_Istio = None,
        spec_Logging = Some \<lparr>lc_Operator = Some \<lparr>log_Level = None, log_Format = Some format,
          log_TimeEncoding = None\<rparr>, lc_MetricsServer = None, lc_AdmissionWebhook = None\<rparr>,
        spec_Resources = None, spec_Env = [], spec_PodAnnotations = None\<rparr>,
      k_Status = \<lparr>st_State = StateReady, st_Served = ServedTrue, st_KedaVersion = [],
        st_Conditions = [mk_condition ConditionTypeInstalled ''True'' 0 ConditionReasonVerified msg]\<rparr>\<rparr>"

lemmas heap_values = Keda_ptr_val_def Keda_val_def KedaSpec_val_def Status_val_def val_conditions_def
  val_slice_def EnvVars_val_def Istio_ptr_val_def Resources_ptr_val_def PodAnnotations_ptr_val_def
  LoggingCfg_ptr_val_def LoggingCfg_val_def LoggingCommonCfg_ptr_val_def LoggingCommonCfg_val_def val_text_def
  plain_val_def val_pair.simps val_ptr_def deref_def

lemma ref_heap_value: "Keda_ptr_val ref_heap (Some 4) = Some (Some (ref_stored ''text'' ''keda verified''))"
  by (simp add: ref_heap_def ref_stored_def heap_values)

lemma ref_heap_written:
  "Keda_ptr_val (ref_heap[0 := CText ''json''] @ new) (Some 4) = Some (Some (ref_stored ''json'' ''keda verified''))"
  by (simp add: ref_heap_def ref_stored_def heap_values nth_append)

theorem keda_copy_independent_witness:
  "\<exists>p' h'. Keda_DeepCopyObject ref_heap (Some 4) = (p', h')
    \<and> Keda_ptr_val (writes [(0, CText ''json'')] h') p' = Some (Some (ref_stored ''text'' ''keda verified''))
    \<and> Keda_ptr_val (writes [(0, CText ''json'')] h') (Some 4) = Some (Some (ref_stored ''json'' ''keda verified''))"
proof -
  obtain p' h' where c: "Keda_DeepCopyObject ref_heap (Some 4) = (p', h')" by (meson surj_pair)
  then have "Keda_DeepCopy ref_heap (Some 4) = (p', h')"
    by (auto simp: Keda_DeepCopyObject_def split: prod.splits option.splits)
  then obtain new where "h' = ref_heap @ new"
    using dp_keda.copy_grows [OF ref_heap_value] by (auto simp: prefix_def)
  then have "writes [(0, CText ''json'')] h' = ref_heap[0 := CText ''json''] @ new"
    by (simp add: writes_def ref_heap_def)
  moreover have "fst ` set [(0::nat, CText ''json'')] \<subseteq> {..< length ref_heap}" by (simp add: ref_heap_def)
  ultimately show ?thesis
    using keda_copy_independent [OF ref_heap_value c] c ref_heap_written [of new] by metis
qed

section \<open>The snapshot\<close>

record systemStateP =
  sp_instance :: KedaP
  sp_objs :: "obj list"
  sp_snapshot :: StatusP

definition systemState_val :: "heap \<Rightarrow> systemStateP \<Rightarrow> systemState option" where
  "systemState_val h s =
     (case (Keda_val h (sp_instance s), Status_val h (sp_snapshot s)) of
        (Some k, Some t) \<Rightarrow> Some \<lparr>s_instance = k, s_objs = sp_objs s, s_snapshot = t\<rparr>
      | _ \<Rightarrow> None)"

text \<open>The receiver of \<open>DeepCopy\<close> is the status inside the instance, so the copy is not nil.\<close>

definition saveKedaStatus_heap :: "heap \<Rightarrow> systemStateP \<Rightarrow> systemStateP \<times> heap" where
  "saveKedaStatus_heap h s =
     (case new_cell CStatus (Status_DeepCopyInto h (kp_Status (sp_instance s))) of
        (result, h') \<Rightarrow>
          (case Option.bind result (deref CStatus status_of h') of
             None \<Rightarrow> (s\<lparr>sp_snapshot := \<lparr>tp_State = [], tp_Served = [], tp_KedaVersion = [], tp_Conditions = None\<rparr>\<rparr>, h')
           | Some t \<Rightarrow> (s\<lparr>sp_snapshot := t\<rparr>, h')))"

lemma saveKedaStatus_heap_copy:
  "saveKedaStatus_heap h s =
     (case Status_DeepCopyInto h (kp_Status (sp_instance s)) of (t, h') \<Rightarrow> (s\<lparr>sp_snapshot := t\<rparr>, h' @ [CStatus t]))"
  by (simp add: saveKedaStatus_heap_def new_cell_def deref_def split: prod.split)

lemma Keda_val_Some: "Keda_val h k = Some v \<longleftrightarrow>
    kp_Meta k = k_Meta v \<and> KedaSpec_val h (kp_Spec k) = Some (k_Spec v) \<and> Status_val h (kp_Status k) = Some (k_Status v)"
  by (cases v) (auto simp: Keda_val_def val_pair_Some plain_val_def map_option_eq_Some)

lemma systemState_val_Some: "systemState_val h s = Some v \<longleftrightarrow>
    Keda_val h (sp_instance s) = Some (s_instance v) \<and> sp_objs s = s_objs v \<and> Status_val h (sp_snapshot s) = Some (s_snapshot v)"
  by (cases v) (auto simp: systemState_val_def split: option.split)

lemma KedaSpec_val_Some: "KedaSpec_val h s = Some v \<longleftrightarrow>
    Istio_ptr_val h (sp_Istio s) = Some (spec_Istio v) \<and> LoggingCfg_ptr_val h (sp_Logging s) = Some (spec_Logging v)
    \<and> Resources_ptr_val h (sp_Resources s) = Some (spec_Resources v) \<and> EnvVars_val h (sp_Env s) = Some (spec_Env v)
    \<and> PodAnnotations_ptr_val h (sp_PodAnnotations s) = Some (spec_PodAnnotations v)"
  by (cases v) (auto simp: KedaSpec_val_def val_pair_Some map_option_eq_Some)

lemma LoggingCfg_val_Some: "LoggingCfg_val h l = Some v \<longleftrightarrow>
    LoggingCommonCfg_ptr_val h (lp_Operator l) = Some (lc_Operator v)
    \<and> LoggingCommonCfg_ptr_val h (lp_MetricsServer l) = Some (lc_MetricsServer v)
    \<and> LoggingCommonCfg_ptr_val h (lp_AdmissionWebhook l) = Some (lc_AdmissionWebhook v)"
  by (cases v) (auto simp: LoggingCfg_val_def val_pair_Some map_option_eq_Some)

text \<open>
  C30: Taking the snapshot with pointers implements taking it with values, and whatever is written afterwards to the
  cells of the instance, such as a condition updated in place, the snapshot keeps its value.
\<close>
theorem snapshot_independent:
  assumes "systemState_val h s = Some v" and "saveKedaStatus_heap h s = (s', h')"
  shows "systemState_val h' s' = Some (saveKedaStatus v)
    \<and> (\<forall>ws. fst ` set ws \<subseteq> {..< length h} \<longrightarrow>
      Status_val (writes ws h') (sp_snapshot s') = Some (k_Status (s_instance v)))"
proof -
  obtain t g where t: "Status_DeepCopyInto h (kp_Status (sp_instance s)) = (t, g)"
    by (cases "Status_DeepCopyInto h (kp_Status (sp_instance s))") auto
  have r: "s' = s\<lparr>sp_snapshot := t\<rparr>" "h' = g @ [CStatus t]"
    using assms(2) t by (auto simp: saveKedaStatus_heap_copy)
  have k: "Keda_val h (sp_instance s) = Some (s_instance v)" "sp_objs s = s_objs v"
    using assms(1) by (simp_all add: systemState_val_Some)
  then have st: "Status_val h (kp_Status (sp_instance s)) = Some (k_Status (s_instance v))"
    by (simp add: Keda_val_Some)
  note c = dc_status.copies [OF st t]
  then have p: "prefix h h'" by (auto simp: r(2) prefix_def)
  have "Keda_val h' (sp_instance s) = Some (s_instance v)" by (rule dc_keda.grows [OF k(1) p])
  moreover have kept: "Status_val (writes ws h') t = Some (k_Status (s_instance v))"
    if "fst ` set ws \<subseteq> {..< length h}" for ws
  proof -
    from writes_old [OF that, of h'] have "keeps_new h h' (writes ws h')" .
    from keeps_new_split(1) [OF _ _ this, of g] c r(2) show ?thesis by simp
  qed
  ultimately have "systemState_val h' s' = Some (saveKedaStatus v)"
    using kept [of "[]"] k(2) by (simp add: systemState_val_Some r(1) saveKedaStatus_def writes_def)
  then show ?thesis using kept r(1) by simp
qed

definition ref_state_p :: systemStateP where
  "ref_state_p = \<lparr>sp_instance = keda_of (ref_heap ! 4), sp_objs = [],
     sp_snapshot = \<lparr>tp_State = [], tp_Served = [], tp_KedaVersion = [], tp_Conditions = None\<rparr>\<rparr>"

definition ref_state_v :: systemState where
  "ref_state_v = \<lparr>s_instance = ref_stored ''text'' ''keda verified'', s_objs = [], s_snapshot = zero_Status\<rparr>"

lemma ref_state_value: "systemState_val ref_heap ref_state_p = Some ref_state_v"
  by (simp add: systemState_val_def ref_state_p_def ref_state_v_def ref_heap_def ref_stored_def zero_Status_def
      heap_values)

text \<open>The condition is then updated in place: the instance changes, the snapshot does not.\<close>

theorem snapshot_independent_witness:
  "\<exists>s' h'. saveKedaStatus_heap ref_heap ref_state_p = (s', h')
    \<and> Status_val (writes [(3, CConditions [mk_condition ConditionTypeInstalled ''False'' 1 ''Deletion'' ''gone''])] h')
        (sp_snapshot s') = Some (k_Status (ref_stored ''text'' ''keda verified''))"
proof -
  obtain s' h' where c: "saveKedaStatus_heap ref_heap ref_state_p = (s', h')" by (meson surj_pair)
  moreover have "fst ` set [(3::nat, x)] \<subseteq> {..< length ref_heap}" for x :: cell by (simp add: ref_heap_def)
  moreover have "s_instance ref_state_v = ref_stored ''text'' ''keda verified''" by (simp add: ref_state_v_def)
  ultimately show ?thesis
    using snapshot_independent [OF ref_state_value c] by metis
qed

section \<open>Writing through the format pointer\<close>

text \<open>The receiver is a copy of the struct; its pointer \<open>Format\<close> is the pointer of the resource.\<close>

definition Sanitize_heap :: "heap \<Rightarrow> CommonCfgP \<Rightarrow> heap" where
  "Sanitize_heap h c =
     (case cp_Format c of
        None \<Rightarrow> h
      | Some a \<Rightarrow> if deref CText text_of h a = Some ''text'' then h[a := CText LogFormatConsole] else h)"

text \<open>The pointers to strings in the logging configurations of the three components.\<close>

definition text_ptr :: "addr option \<Rightarrow> addr list" where
  "text_ptr p = (case p of None \<Rightarrow> [] | Some a \<Rightarrow> [a])"

definition common_texts :: "CommonCfgP \<Rightarrow> addr list" where
  "common_texts c = text_ptr (cp_Level c) @ text_ptr (cp_Format c) @ text_ptr (cp_TimeEncoding c)"

definition ptr_texts :: "heap \<Rightarrow> addr option \<Rightarrow> addr list" where
  "ptr_texts h p =
     (case Option.bind p (deref CLoggingCommon common_of h) of None \<Rightarrow> [] | Some c \<Rightarrow> common_texts c)"

definition logging_texts :: "heap \<Rightarrow> LoggingP \<Rightarrow> addr list" where
  "logging_texts h l =
     ptr_texts h (lp_Operator l) @ ptr_texts h (lp_MetricsServer l) @ ptr_texts h (lp_AdmissionWebhook l)"

lemma in_text_ptr [simp]: "a \<in> set (text_ptr p) \<longleftrightarrow> p = Some a"
  by (auto simp: text_ptr_def split: option.split)

lemma deref_text_update:
  assumes "deref CText text_of h a = Some s" "\<And>x t. mk x \<noteq> CText t"
  shows "deref mk sel (h[a := CText t]) b = deref mk sel h b"
  using assms by (cases "a = b") (auto simp: deref_def split: if_splits, metis+)

lemma val_ptr_text_update:
  assumes "deref CText text_of h a = Some s" "\<And>x t. mk x \<noteq> CText t"
    and "\<And>x. val (h[a := CText t]) x = val h x"
  shows "val_ptr val mk sel (h[a := CText t]) p = val_ptr val mk sel h p"
  using deref_text_update [where mk = mk and sel = sel, OF assms(1,2)] assms(3) by (simp add: val_ptr_def split: option.split)

lemma val_list_plain: "val_list plain_val g xs = Some xs"
  by (induction xs) (simp_all add: plain_val_def)

lemma rest_text_update:
  assumes "deref CText text_of h a = Some s"
  shows "Istio_ptr_val (h[a := CText t]) p = Istio_ptr_val h p"
    and "Resources_ptr_val (h[a := CText t]) p = Resources_ptr_val h p"
    and "EnvVars_val (h[a := CText t]) p = EnvVars_val h p"
    and "PodAnnotations_ptr_val (h[a := CText t]) p = PodAnnotations_ptr_val h p"
    and "Status_val (h[a := CText t]) u = Status_val h u"
proof -
  note [simp] = val_ptr_text_update [OF assms] val_pair.simps
  note [simp] = plain_val_def val_list_plain Istio_ptr_val_def IstioCfg_ptr_val_def Resources_ptr_val_def val_reqs_def
  have "Istio_val (h[a := CText t]) i = Istio_val h i" for i
    by (simp add: Istio_val_def cong: option.case_cong)
  then show "Istio_ptr_val (h[a := CText t]) p = Istio_ptr_val h p"
    by simp
  show "Resources_ptr_val (h[a := CText t]) p = Resources_ptr_val h p"
    by (simp add: Resources_val_def cong: option.case_cong)
  show "PodAnnotations_ptr_val (h[a := CText t]) p = PodAnnotations_ptr_val h p"
    by (simp add: PodAnnotations_ptr_val_def PodAnnotations_val_def val_annotations_def cong: option.case_cong)
  show "EnvVars_val (h[a := CText t]) p = EnvVars_val h p"
    and "Status_val (h[a := CText t]) u = Status_val h u"
    by (simp_all add: EnvVars_val_def Status_val_def val_conditions_def val_slice_def)
qed

lemma val_text_other: "p \<noteq> Some a \<Longrightarrow> val_text (h[a := CText t]) p = val_text h p"
  by (cases p) (auto simp: val_text_def val_ptr_def deref_def plain_val_def)

lemma common_text_other:
  assumes "a \<notin> set (common_texts c)"
  shows "LoggingCommonCfg_val (h[a := CText t]) c = LoggingCommonCfg_val h c"
  using assms by (simp add: LoggingCommonCfg_val_def val_pair.simps common_texts_def val_text_other cong: option.case_cong)

lemma ptr_text_other:
  assumes "deref CText text_of h a = Some s" "a \<notin> set (ptr_texts h p)"
  shows "LoggingCommonCfg_ptr_val (h[a := CText t]) p = LoggingCommonCfg_ptr_val h p"
  using assms(2) common_text_other [of a _ h t] deref_text_update [where mk = CLoggingCommon and sel = common_of and t = t, OF assms(1)]
  by (auto simp: LoggingCommonCfg_ptr_val_def val_ptr_def ptr_texts_def split: option.splits)

lemma common_text_format:
  assumes "deref CText text_of h a = Some s" "cp_Format c = Some a"
    and "cp_Level c \<noteq> Some a" "cp_TimeEncoding c \<noteq> Some a" "LoggingCommonCfg_val h c = Some w"
  shows "LoggingCommonCfg_val (h[a := CText t]) c = Some (w\<lparr>log_Format := Some t\<rparr>)" and "log_Format w = Some s"
proof -
  have "val_text (h[a := CText t]) (Some a) = Some (Some t)" "val_text h (Some a) = Some (Some s)"
    using assms(1) by (auto simp: val_text_def val_ptr_def deref_def plain_val_def split: if_splits)
  then show "LoggingCommonCfg_val (h[a := CText t]) c = Some (w\<lparr>log_Format := Some t\<rparr>)"
    and "log_Format w = Some s"
    using assms(2-) val_text_other by (auto simp: LoggingCommonCfg_val_def val_pair_Some map_option_eq_Some)
qed

lemma Keda_text_update:
  assumes "deref CText text_of h a = Some s" "Keda_val h k = Some v" "sp_Logging (kp_Spec k) = Some b"
    and "deref CLogging logging_of h b = Some l" "LoggingCfg_val (h[a := CText t]) l = Some w"
    and "spec_Logging (k_Spec v) = Some w0"
  shows "Keda_val (h[a := CText t]) k = Some (map_logging (\<lambda>_. w) v)"
proof -
  have "LoggingCfg_ptr_val (h[a := CText t]) (Some b) = Some (Some w)"
    using deref_text_update [where mk = CLogging and sel = logging_of and t = t and b = b, OF assms(1)] assms(4,5)
    by (simp add: LoggingCfg_ptr_val_def val_ptr_def)
  then show ?thesis
    using assms(2,3,6) rest_text_update [OF assms(1), of t]
    by (simp add: Keda_val_Some KedaSpec_val_Some map_logging_def)
qed

lemma logging_value:
  assumes "Keda_val h k = Some v" "sp_Logging (kp_Spec k) = Some b" "deref CLogging logging_of h b = Some l"
  obtains w where "spec_Logging (k_Spec v) = Some w" "LoggingCfg_val h l = Some w"
proof -
  have "LoggingCfg_ptr_val h (Some b) = Some (spec_Logging (k_Spec v))"
    using assms(1,2) by (simp add: Keda_val_Some KedaSpec_val_Some)
  then have "map_option Some (LoggingCfg_val h l) = Some (spec_Logging (k_Spec v))"
    using assms(3) by (simp add: LoggingCfg_ptr_val_def val_ptr_def)
  then show thesis using that by (cases "spec_Logging (k_Spec v)"; cases "LoggingCfg_val h l") simp_all
qed

lemma logging_shared:
  assumes "(field, share) \<in> {(lp_Operator, share_operator), (lp_MetricsServer, share_metrics),
      (lp_AdmissionWebhook, share_webhook)}"
    and "field l = Some q" "distinct (logging_texts h l)" "a \<in> set (ptr_texts h (Some q))"
    and "spec_Logging (k_Spec v) = Some lw" "LoggingCfg_val h l = Some lw"
    and "LoggingCommonCfg_ptr_val g (Some q) = Some (Some w)"
    and "\<And>p. a \<notin> set (ptr_texts h p) \<Longrightarrow> LoggingCommonCfg_ptr_val g p = LoggingCommonCfg_ptr_val h p"
  shows "LoggingCfg_val g l = Some (the (spec_Logging (k_Spec (share w v))))"
proof -
  note share = share_operator_def share_metrics_def share_webhook_def map_logging_def
  have d: "a \<notin> set (ptr_texts h (lp_Operator l)) \<or> a \<notin> set (ptr_texts h (lp_MetricsServer l))"
    "a \<notin> set (ptr_texts h (lp_Operator l)) \<or> a \<notin> set (ptr_texts h (lp_AdmissionWebhook l))"
    "a \<notin> set (ptr_texts h (lp_MetricsServer l)) \<or> a \<notin> set (ptr_texts h (lp_AdmissionWebhook l))"
    using assms(3) by (auto simp: logging_texts_def)
  consider "field = lp_Operator" "share = share_operator" | "field = lp_MetricsServer" "share = share_metrics"
    | "field = lp_AdmissionWebhook" "share = share_webhook"
    using assms(1) by blast
  then show ?thesis
    using d assms(2,4-) by cases (simp_all add: LoggingCfg_val_Some share)
qed

text \<open>
  C31: \<open>Sanitize\<close> on a copy of the logging configuration of a component writes through the pointer \<open>Format\<close>.  If
  the resource has no two pointers to one string, its value then has the sanitised configuration of
  that component, and no other change.
\<close>
theorem sanitize_through_pointer:
  assumes "(field, share) \<in> {(lp_Operator, share_operator), (lp_MetricsServer, share_metrics),
      (lp_AdmissionWebhook, share_webhook)}"
    and "Keda_val h k = Some v" "sp_Logging (kp_Spec k) = Some b" "deref CLogging logging_of h b = Some l"
    and "field l = Some q" "deref CLoggingCommon common_of h q = Some c" "LoggingCommonCfg_val h c = Some w"
    and "distinct (logging_texts h l)"
  shows "Keda_val (Sanitize_heap h c) k = Some (share (LoggingCommonCfg_Sanitize w) v)"
proof -
  obtain lw where lw: "spec_Logging (k_Spec v) = Some lw" "LoggingCfg_val h l = Some lw"
    by (rule logging_value [OF assms(2-4)])
  note share = share_operator_def share_metrics_def share_webhook_def map_logging_def
  have field: "LoggingCommonCfg_ptr_val h (Some q) = Some (Some w)"
    using assms(6,7) by (simp add: LoggingCommonCfg_ptr_val_def val_ptr_def)
  show ?thesis
  proof (cases "\<exists>a. cp_Format c = Some a \<and> deref CText text_of h a = Some ''text''")
    case False
    then have "Sanitize_heap h c = h" by (auto simp: Sanitize_heap_def split: option.split)
    moreover have "LoggingCommonCfg_Sanitize w = w"
      using False assms(7) by (auto simp: LoggingCommonCfg_Sanitize_def LoggingCommonCfg_val_def val_pair_Some
          map_option_eq_Some val_text_def val_ptr_def plain_val_def split: option.splits)
    moreover have "share w v = v"
      using assms(1,5) lw field by (auto simp: share LoggingCfg_val_Some)
    ultimately show ?thesis using assms(2) by simp
  next
    case True
    then obtain a where a: "cp_Format c = Some a" "deref CText text_of h a = Some ''text''" by blast
    then have g: "Sanitize_heap h c = h[a := CText LogFormatConsole]" (is "_ = ?g")
      by (simp add: Sanitize_heap_def)
    have texts: "ptr_texts h (Some q) = common_texts c" using assms(6) by (simp add: ptr_texts_def)
    then have "distinct (common_texts c)"
      using assms(1,5,8) by (auto simp: logging_texts_def)
    then have "cp_Level c \<noteq> Some a" "cp_TimeEncoding c \<noteq> Some a"
      using a(1) by (auto simp: common_texts_def text_ptr_def split: option.splits)
    note fmt = common_text_format [OF a(2,1) this assms(7)]
    then have upd: "LoggingCommonCfg_ptr_val ?g (Some q) = Some (Some (LoggingCommonCfg_Sanitize w))"
      using deref_text_update [where mk = CLoggingCommon and sel = common_of and b = q, OF a(2)] assms(6)
      by (simp add: LoggingCommonCfg_ptr_val_def val_ptr_def LoggingCommonCfg_Sanitize_def)
    note other = ptr_text_other [OF a(2), of _ LogFormatConsole]
    have "a \<in> set (ptr_texts h (Some q))" using a(1) by (simp add: texts common_texts_def)
    from logging_shared [OF assms(1,5,8) this lw upd other]
    have "LoggingCfg_val ?g l = Some (the (spec_Logging (k_Spec (share (LoggingCommonCfg_Sanitize w) v))))" .
    from Keda_text_update [OF a(2) assms(2-4) this lw(1)] show ?thesis
      using assms(1) lw(1) by (auto simp: g share)
  qed
qed

theorem sanitize_through_pointer_witness:
  "Keda_val (Sanitize_heap ref_heap (common_of (ref_heap ! 1))) (keda_of (ref_heap ! 4)) =
    Some (ref_stored ''console'' ''keda verified'')"
proof -
  let ?w = "\<lparr>log_Level = None, log_Format = Some ''text'', log_TimeEncoding = None\<rparr>"
  have "Keda_val (Sanitize_heap ref_heap (common_of (ref_heap ! 1))) (keda_of (ref_heap ! 4)) =
      Some (share_operator (LoggingCommonCfg_Sanitize ?w) (ref_stored ''text'' ''keda verified''))"
    by (rule sanitize_through_pointer [of lp_Operator _ _ _ _ 2 "logging_of (ref_heap ! 2)" 1])
      (simp_all add: ref_heap_def ref_stored_def heap_values logging_texts_def ptr_texts_def common_texts_def
        text_ptr_def)
  then show ?thesis
    by (simp add: share_operator_def map_logging_def LoggingCommonCfg_Sanitize_def ref_stored_def)
qed

end
