(* ===== verification/Panic_Freedom.thy ===== *)
theory Panic_Freedom
  imports Stability Apply_Properties
begin

text \<open>
  When the program panics.  An access to the first container of a deployment, a write to a map that may be
  nil and a port that may be nil are the places where it can, beside the file of network policies; what
  rules them out is \<open>sound_object\<close>, a property of the objects in memory that every state of the machine
  keeps.  A value of type \<open>'a go\<close> that is no panic \<open>returns\<close>.
\<close>

section \<open>Returning\<close>

fun returns :: "'a go \<Rightarrow> bool" where
  "returns (Ret x) = True"
| "returns (Panic p) = False"

lemma returns_iff: "returns m \<longleftrightarrow> (\<exists>x. m = Ret x)"
  by (cases m) auto

lemma returns_bind [simp]: "returns (go_bind m f) \<longleftrightarrow> (\<exists>x. m = Ret x \<and> returns (f x))"
  by (cases m) auto

lemma returns_container0 [simp]: "returns (container0 f d) \<longleftrightarrow> d_Containers d \<noteq> []"
  by (simp add: container0_def split: list.split)

lemma returns_setCommonLabels [simp]: "returns (setCommonLabels l) \<longleftrightarrow> l \<noteq> None"
  by (cases l) (simp_all add: setCommonLabels_simps)

section \<open>Sound objects\<close>

definition sound_deployment :: "Deployment \<Rightarrow> bool" where
  "sound_deployment d \<longleftrightarrow> d_Containers d \<noteq> [] \<and> nil_if_empty (d_TemplateLabels d) \<noteq> None"

definition sound_policy :: "NetworkPolicy \<Rightarrow> bool" where
  "sound_policy p \<longleftrightarrow> list_all (\<lambda>i. None \<notin> set (in_Ports i)) (np_Ingress p)"

text \<open>
  The specification of an object is sound if every deployment, or network policy, with that specification
  is.  A sound object has labels, and its specification fits its kind.
\<close>

definition deployment_kind :: "obj \<Rightarrow> bool" where
  "deployment_kind u \<longleftrightarrow> fmlookup u ''kind'' = Some (JStr ''Deployment'')"

definition sound_object :: "k8s_lib \<Rightarrow> obj \<Rightarrow> bool" where
  "sound_object L u \<longleftrightarrow> nil_if_empty (GetLabels L u) \<noteq> None
     \<and> (deployment_kind u \<longrightarrow> (\<forall>v d. fmlookup v ''spec'' = fmlookup u ''spec'' \<longrightarrow>
          FromDeployment L v = Inr d \<longrightarrow> sound_deployment d))
     \<and> (isWebhookNetworkPolicy L u \<longrightarrow> (\<forall>v p. fmlookup v ''spec'' = fmlookup u ''spec'' \<longrightarrow>
          FromNetworkPolicy L v = Inr p \<longrightarrow> sound_policy p))"

text \<open>
  Package \<open>runtime\<close> and the types of the API: containers, template labels and rules are read off the field
  \<open>spec\<close>, the labels off the metadata, and a typed object can always be converted back.
\<close>

definition typed_doc :: "k8s_lib \<Rightarrow> bool" where
  "typed_doc L \<longleftrightarrow>
     (\<forall>u v d e. fmlookup u ''spec'' = fmlookup v ''spec'' \<and> FromDeployment L u = Inr d \<and> FromDeployment L v = Inr e
        \<longrightarrow> d_Containers d = d_Containers e \<and> d_TemplateLabels d = d_TemplateLabels e)
   \<and> (\<forall>u v p q. fmlookup u ''spec'' = fmlookup v ''spec'' \<and> FromNetworkPolicy L u = Inr p
        \<and> FromNetworkPolicy L v = Inr q \<longrightarrow> np_Ingress p = np_Ingress q)
   \<and> (\<forall>u d. FromDeployment L u = Inr d \<longrightarrow> nil_if_empty (d_Labels d) = nil_if_empty (GetLabels L u))
   \<and> (\<forall>d. \<exists>u. ToDeployment L d = Inr u) \<and> (\<forall>p. \<exists>u. ToNetworkPolicy L p = Inr u)"

lemma sound_omit_empty [simp]: "sound_deployment (omit_empty d) \<longleftrightarrow> sound_deployment d"
  by (simp add: sound_deployment_def)

lemma isDeployment_kind:
  assumes "unstructured_doc L" "isDeployment L u"
  shows "deployment_kind u" and "\<not> isWebhookNetworkPolicy L u"
proof -
  have "str_at u [''kind''] = ''Deployment''" using assms by (simp add: isDeployment_def unstructured_doc_def)
  then have "as_string (fmlookup u ''kind'') = Some ''Deployment''"
    by (simp add: str_at_def json_get_single split: option.splits del: json_get.simps)
  then show "deployment_kind u" unfolding deployment_kind_def
    by (cases "fmlookup u ''kind''"; (cases "the (fmlookup u ''kind'')")?) auto
  show "\<not> isWebhookNetworkPolicy L u" using assms(2) by (simp add: isDeployment_def isWebhookNetworkPolicy_def)
qed

lemma webhook_labels: "isWebhookNetworkPolicy L u \<Longrightarrow> nil_if_empty (GetLabels L u) \<noteq> None"
  by (cases "GetLabels L u") (auto simp: isWebhookNetworkPolicy_def nil_if_empty_def)

lemma webhook_kind:
  assumes "unstructured_doc L" "isWebhookNetworkPolicy L u"
  shows "\<not> deployment_kind u"
proof -
  have "str_at u [''kind''] = ''NetworkPolicy''" using assms by (simp add: isWebhookNetworkPolicy_def unstructured_doc_def)
  then show ?thesis by (auto simp: deployment_kind_def str_at_def json_get_single simp del: json_get.simps)
qed

section \<open>The updates keep soundness\<close>

lemma do_step_sound:
  assumes "sound_deployment d"
  shows "\<exists>d'. do_step a d = Ret d' \<and> sound_deployment d' \<and> d_Labels d' = d_Labels d"
proof -
  obtain c cs where c: "d_Containers d = c # cs"
    using assms by (cases "d_Containers d") (simp_all add: sound_deployment_def)
  obtain f where f: "d_TemplateLabels d = Some f" "f \<noteq> fmempty"
    using assms by (cases "d_TemplateLabels d") (auto simp: sound_deployment_def nil_if_empty_def split: if_splits)
  show ?thesis
    by (cases a) (simp_all add: sound_deployment_def container0_def nil_if_empty_def c f)
qed

text \<open>What a state does to an object of a kind, with whatever data: it returns and leaves a sound object with its identity.\<close>

definition safe_update :: "k8s_lib \<Rightarrow> (obj \<Rightarrow> bool) \<Rightarrow> object_update \<Rightarrow> bool" where
  "safe_update L is upd \<longleftrightarrow>
     (\<forall>k f u. upd k = Some f \<longrightarrow> is u \<longrightarrow> sound_object L u \<longrightarrow>
        (\<exists>e u' k'. f u = Ret (e, u', k') \<and> is u' \<and> sound_object L u' \<and> resource_id L u' = resource_id L u))"

lemma sound_converted:
  assumes "typed_doc L" "converter_doc L" "unstructured_doc L" "sound_deployment d"
    and "nil_if_empty (d_Labels d) \<noteq> None" "ToDeployment L d = Inr u" "isDeployment L u"
  shows "sound_object L u"
proof -
  have f: "FromDeployment L u = Inr (omit_empty d)" using assms(2,6) by (simp add: converter_doc_def)
  then have "nil_if_empty (GetLabels L u) = nil_if_empty (d_Labels (omit_empty d))"
    using assms(1) unfolding typed_doc_def by metis
  then have "nil_if_empty (GetLabels L u) \<noteq> None" using assms(5) by (simp add: omit_empty_def)
  moreover have "sound_deployment e" if "fmlookup v ''spec'' = fmlookup u ''spec''" "FromDeployment L v = Inr e" for v e
  proof -
    have "d_Containers e = d_Containers (omit_empty d) \<and> d_TemplateLabels e = d_TemplateLabels (omit_empty d)"
      using assms(1) that f unfolding typed_doc_def by blast
    with assms(4) show ?thesis by (simp add: sound_deployment_def)
  qed
  ultimately show ?thesis
    using isDeployment_kind(2) [OF assms(3,7)] by (simp add: sound_object_def)
qed

lemma sound_spec:
  assumes "sound_object L u" "unstructured_doc L" "isDeployment L u" "FromDeployment L u = Inr d"
  shows "sound_deployment d"
  using assms isDeployment_kind(1) [OF assms(2,3)] unfolding sound_object_def by blast

text \<open>What the theorems on panics use of the libraries.\<close>

definition library_doc :: "k8s_lib \<Rightarrow> bool" where
  "library_doc L \<longleftrightarrow> converter_doc L \<and> identity_doc L \<and> unstructured_doc L \<and> typed_doc L"

lemma library_docD:
  assumes "library_doc L"
  shows "converter_doc L" "identity_doc L" "unstructured_doc L" "typed_doc L"
    and "\<exists>u. ToDeployment L d = Inr u" "\<exists>u. ToNetworkPolicy L p = Inr u"
  using assms by (simp_all add: library_doc_def typed_doc_def)

lemma obj_step_sound:
  assumes doc: "library_doc L" and "isDeployment L u" "sound_object L u" "FromDeployment L u = Inr d"
  shows "\<exists>d' u'. do_step a d = Ret d' \<and> ToDeployment L d' = Inr u' \<and> isDeployment L u' \<and> sound_object L u'
    \<and> resource_id L u' = resource_id L u"
proof -
  note docs = library_docD [OF doc]
  have sd: "sound_deployment d" by (rule sound_spec [OF assms(3) docs(3) assms(2,4)])
  then obtain d' where d': "do_step a d = Ret d'" "sound_deployment d'" "d_Labels d' = d_Labels d"
    using do_step_sound by blast
  obtain u' where u': "ToDeployment L d' = Inr u'" using docs(5) by blast
  note i = deployment_identity [OF docs(2) assms(2,4) d'(1) u']
  have "nil_if_empty (d_Labels d) = nil_if_empty (GetLabels L u)"
    using docs(4) assms(4) unfolding typed_doc_def by blast
  then have "nil_if_empty (d_Labels d') \<noteq> None" using assms(3) d'(3) by (simp add: sound_object_def)
  with d' u' i sound_converted [OF docs(4,1,3) d'(2) _ u' i(3)] show ?thesis by blast
qed

definition object_updater :: "'d conv \<Rightarrow> ('d, 'r) update \<Rightarrow> (Keda \<Rightarrow> 'r option) \<Rightarrow> ('r \<Rightarrow> Keda \<Rightarrow> Keda) \<Rightarrow> object_update" where
  "object_updater conv upd getData share = (\<lambda>k. case getData k of
       None \<Rightarrow> None
     | Some data \<Rightarrow> Some (\<lambda>ob. go_bind (updateObj conv ob data upd)
         (\<lambda>(err, ob', data'). Ret (err, ob', share data' k))))"

lemma built_updater: "buildSfnUpdateObject conv u upd getData share next =
    SFnUpdateObject u (object_updater conv upd getData share) next"
  by (simp add: buildSfnUpdateObject_def object_updater_def)

lemma safe_updateI:
  assumes "\<And>u x. is_kind u \<Longrightarrow> sound_object L u \<Longrightarrow>
      \<exists>e u' x'. updateObj conv u x upd = Ret (e, u', x') \<and> is_kind u' \<and> sound_object L u' \<and> resource_id L u' = resource_id L u"
  shows "safe_update L is_kind (object_updater conv upd getData share)"
  unfolding safe_update_def
proof (intro allI impI)
  fix k f u
  assume f: "object_updater conv upd getData share k = Some f" and u: "is_kind u" "sound_object L u"
  then obtain x where x: "f = (\<lambda>ob. go_bind (updateObj conv ob x upd)
      (\<lambda>(err, ob', data'). Ret (err, ob', share data' k)))"
    by (auto simp: object_updater_def split: option.splits)
  obtain e u' x' where "updateObj conv u x upd = Ret (e, u', x')" "is_kind u'" "sound_object L u'"
    "resource_id L u' = resource_id L u" using assms [OF u] by blast
  with x show "\<exists>e u' k'. f u = Ret (e, u', k') \<and> is_kind u' \<and> sound_object L u' \<and> resource_id L u' = resource_id L u" by simp
qed

lemma safe_deployment_update:
  assumes doc: "library_doc L" and p: "performs upd f g"
  shows "safe_update L (isDeployment L) (object_updater (deployment_conv L) upd getData share)"
proof (rule safe_updateI)
  fix u x
  assume u: "isDeployment L u" "sound_object L u"
  show "\<exists>e u' x'. updateObj (deployment_conv L) u x upd = Ret (e, u', x') \<and> isDeployment L u' \<and> sound_object L u'
    \<and> resource_id L u' = resource_id L u"
  proof (cases "FromDeployment L u")
    case (Inl err)
    with u show ?thesis by (simp add: updateObj_def deployment_conv_def)
  next
    case (Inr d)
    obtain d' u' where s: "do_step (f x) d = Ret d'" "ToDeployment L d' = Inr u'" "isDeployment L u'" "sound_object L u'"
      "resource_id L u' = resource_id L u" using obj_step_sound [OF doc u Inr, of "f x"] by blast
    have "upd d x = Ret (None, d', g x)" using p s(1) by (simp add: performs_def)
    with Inr s show ?thesis by (simp add: updateObj_def deployment_conv_def)
  qed
qed

lemma returns_rule_from: "None \<notin> set ps \<Longrightarrow> returns (update_rule_from addr ps from)"
  by (induction addr ps "from" rule: update_rule_from.induct) auto

lemma update_ingress_sound:
  "list_all (\<lambda>i. None \<notin> set (in_Ports i)) is \<Longrightarrow>
   \<exists>is'. update_ingress addr is = Ret is' \<and> list_all (\<lambda>i. None \<notin> set (in_Ports i)) is'"
proof (induction "is")
  case (Cons i "is")
  moreover obtain fr where "update_rule_from addr (in_Ports i) (in_From i) = Ret fr"
    using returns_rule_from [of "in_Ports i" addr "in_From i"] Cons.prems by (auto simp: returns_iff)
  ultimately show ?case by auto
qed simp

lemma sound_converted_policy:
  assumes "typed_doc L" "converter_doc L" "unstructured_doc L" "sound_policy p"
    and "ToNetworkPolicy L p = Inr u" "isWebhookNetworkPolicy L u"
  shows "sound_object L u"
proof -
  have f: "FromNetworkPolicy L u = Inr p" using assms(2,5) by (simp add: converter_doc_def)
  have "sound_policy q" if "fmlookup v ''spec'' = fmlookup u ''spec''" "FromNetworkPolicy L v = Inr q" for v q
  proof -
    have "np_Ingress q = np_Ingress p" using assms(1) that f unfolding typed_doc_def by blast
    with assms(4) show ?thesis by (simp add: sound_policy_def)
  qed
  with webhook_labels [OF assms(6)] webhook_kind [OF assms(3,6)] show ?thesis by (simp add: sound_object_def)
qed

lemma updateObj_policy_sound:
  assumes doc: "library_doc L" and u: "isWebhookNetworkPolicy L u" "sound_object L u"
  shows "\<exists>e u' x'. updateObj (network_policy_conv L) u x updateAdmissionWebhooksNetworkPolicy = Ret (e, u', x')
    \<and> isWebhookNetworkPolicy L u' \<and> sound_object L u' \<and> resource_id L u' = resource_id L u"
proof (cases "FromNetworkPolicy L u")
  case (Inl err)
  with u show ?thesis by (simp add: updateObj_def network_policy_conv_def)
next
  case (Inr p)
  note docs = library_docD [OF doc]
  have "sound_policy p" using u Inr unfolding sound_object_def by blast
  then obtain rs where rs: "update_ingress x (np_Ingress p) = Ret rs" "list_all (\<lambda>i. None \<notin> set (in_Ports i)) rs"
    using update_ingress_sound unfolding sound_policy_def by blast
  let ?p = "p\<lparr>np_Ingress := rs\<rparr>"
  obtain u' where u': "ToNetworkPolicy L ?p = Inr u'" using docs(6) by blast
  note w = policy_identity [OF docs(2) u(1) Inr u']
  have "sound_policy ?p" using rs(2) by (simp add: sound_policy_def)
  from sound_converted_policy [OF docs(4,1,3) this u' w(2)] w rs(1) Inr u' show ?thesis
    by (simp add: updateObj_def network_policy_conv_def updateAdmissionWebhooksNetworkPolicy_def)
qed

lemma safe_policy_update:
  assumes doc: "library_doc L"
  shows "safe_update L (isWebhookNetworkPolicy L)
    (object_updater (network_policy_conv L) updateAdmissionWebhooksNetworkPolicy getData share)"
  by (rule safe_updateI) (rule updateObj_policy_sound [OF doc])

section \<open>The apply state keeps soundness\<close>

lemma sound_same:
  assumes "unstructured_doc L" "sound_object L u" "\<And>p. p \<noteq> [] \<Longrightarrow> hd p \<noteq> ''metadata'' \<Longrightarrow> json_get (JMap v) p = json_get (JMap u) p"
    and "nil_if_empty (GetLabels L v) \<noteq> None"
    and "map_get (GetLabels L v) ''purpose'' = map_get (GetLabels L u) ''purpose''"
  shows "sound_object L v"
proof -
  have k: "fmlookup v k = fmlookup u k" if "k \<noteq> ''metadata''" for k
    using assms(3) [of "[k]"] that by (simp add: json_get_single del: json_get.simps)
  have "str_at v [k] = str_at u [k]" if "k \<noteq> ''metadata''" for k
    using k [OF that] by (simp add: str_at_def json_get_single del: json_get.simps)
  then have "isWebhookNetworkPolicy L v \<longleftrightarrow> isWebhookNetworkPolicy L u"
    using assms(1,5) by (simp add: isWebhookNetworkPolicy_def unstructured_doc_def)
  then show ?thesis
    using assms(2,4) k unfolding sound_object_def deployment_kind_def by simp
qed

lemma updateImages_returns:
  assumes doc: "library_doc L" and u: "sound_object L u"
  shows "returns (updateImagesInDeployments L getenv u)"
proof (cases "deployment_kind u")
  case True
  have "d_Containers d \<noteq> []" if "FromDeployment L u = Inr d" for d
    using u True that unfolding sound_object_def sound_deployment_def by blast
  moreover have "returns (case ToDeployment L d of Inl e \<Rightarrow> Ret (f e) | Inr v \<Rightarrow> Ret (v, None))" for d and f :: "goerror \<Rightarrow> obj \<times> goerror option"
    by (simp split: sum.split)
  moreover have "returns (updateImageIfOverride getenv x b d) \<longleftrightarrow> getenv (if b then x @ EnvFipsImageVariantKeySuffix else x) = [] \<or> d_Containers d \<noteq> []" for x b d
    by (simp add: updateImageIfOverride_def Let_def)
  ultimately show ?thesis
    by (auto simp: updateImagesInDeployments_def Let_def returns_iff [symmetric] simp flip: ex_simps split: sum.split)
qed (simp add: updateImagesInDeployments_def deployment_kind_def)

lemma prepare_sound:
  assumes doc: "library_doc L" and u: "sound_object L u"
  shows "returns (snd (prepare L E u))" and "sound_object L (fst (prepare L E u))"
    and "resource_id L (fst (prepare L E u)) = resource_id L u"
proof -
  note unstr = library_docD(3) [OF doc]
  obtain f where f: "smap_at u [''metadata'', ''labels''] = Some f"
    using u by (cases "smap_at u [''metadata'', ''labels'']") (auto simp: sound_object_def doc_labels [OF unstr] nil_if_empty_def)
  from prepare_labelled [OF unstr f, of E] obtain u2 where
    p: "prepare L E u = (u2, if fmlookup u ''kind'' = Some (JStr ''Deployment'')
      then updateImagesInDeployments L (e_getenv E) u2 else Ret (u2, None))"
    and l: "smap_at u2 [''metadata'', ''labels''] = Some (with_common_labels f)"
    and g: "\<And>p. fork [''metadata'', ''labels''] p \<Longrightarrow> fork [''metadata'', ''annotations''] p \<Longrightarrow>
        json_get (JMap u2) p = json_get (JMap u) p" by blast
  have "json_get (JMap u2) p = json_get (JMap u) p" if "p \<noteq> []" "hd p \<noteq> ''metadata''" for p
    by (rule g) (use that in \<open>cases p; auto\<close>)+
  moreover have "map_get (Some (with_common_labels f)) ''purpose'' = map_get (Some f) ''purpose''"
    by (simp add: map_get_def fmlookup_with_common_labels)
  ultimately have sound: "sound_object L u2"
    using l f by (intro sound_same [OF unstr u]) (simp_all add: doc_labels [OF unstr] nil_if_empty_def with_common_labels_def)
  moreover have "alike u u2" by (simp add: alike_def str_at_def g del: json_get.simps)
  ultimately show "returns (snd (prepare L E u))" "sound_object L (fst (prepare L E u))"
    "resource_id L (fst (prepare L E u)) = resource_id L u"
    using p updateImages_returns [OF doc sound] alike_id [OF unstr] by auto
qed

lemma apply_loop_sound:
  assumes doc: "library_doc L"
  shows "list_all (sound_object L) us \<Longrightarrow> list_all (sound_object L) (f_Objs r) \<Longrightarrow>
    map (resource_id L) us = map (resource_id L) (drop i (f_Objs r)) \<Longrightarrow>
    \<exists>b' r' s'. apply_loop L E i us b r s = (Ret b', r', s') \<and> list_all (sound_object L) (f_Objs r')
      \<and> map (resource_id L) (f_Objs r') = map (resource_id L) (f_Objs r)"
proof (induction us arbitrary: i b r s)
  case (Cons u us)
  obtain u3 e where p: "snd (prepare L E u) = Ret (u3, e)"
    using prepare_sound(1) [OF doc, of u E] Cons.prems(1) by (auto simp: returns_iff)
  let ?r1 = "set_obj i (fst (prepare L E u)) r"
  have "drop i (f_Objs r) \<noteq> []" using Cons.prems(3) by auto
  then have i: "i < length (f_Objs r)" by simp
  then have "map (resource_id L) (drop i (f_Objs r)) = resource_id L (f_Objs r ! i) # map (resource_id L) (drop (Suc i) (f_Objs r))"
    by (simp add: Cons_nth_drop_Suc [symmetric])
  with Cons.prems(3) have u: "resource_id L (f_Objs r ! i) = resource_id L u"
    and us: "map (resource_id L) us = map (resource_id L) (drop (Suc i) (f_Objs r))" by simp_all
  have ids: "map (resource_id L) (f_Objs ?r1) = map (resource_id L) (f_Objs r)"
    using i u prepare_sound(3) [OF doc, of u E] Cons.prems(1) by (simp add: set_obj_def map_update list_update_same_conv)
  have "list_all (sound_object L) (f_Objs ?r1)"
    using Cons.prems prepare_sound(2) [OF doc, of u E] by (auto simp: set_obj_def list_all_iff dest!: set_update_subset_insert [THEN subsetD])
  moreover obtain er u4 r2 where c: "client_Patch E u3 ?r1 = (er, u4, r2)" by (metis prod_cases3)
  moreover from c have "f_Objs r2 = f_Objs ?r1" by (auto simp: client_Patch_def log_req_def split: prod.splits)
  moreover have "map (resource_id L) us = map (resource_id L) (drop (Suc i) (f_Objs ?r1))" using us by (simp add: set_obj_def)
  ultimately show ?case
    using Cons.IH [of r2 "Suc i" "b \<or> e \<noteq> None \<or> er \<noteq> None" "s\<lparr>s_objs := s_objs s @ [u4]\<rparr>"] Cons.prems(1) p ids
    by (simp add: Let_def set_obj_def)
qed simp

section \<open>The states that leave the objects alone\<close>

text \<open>The network policies of the add-on are read from a file of the image.\<close>

definition policies_load :: "k8s_lib \<Rightarrow> env \<Rightarrow> bool" where
  "policies_load L E \<longleftrightarrow> (\<exists>f objs. e_open E addonNetworkPoliciesFile = Inr f \<and> LoadData L f = Inr objs)"

lemma log_req_Objs [simp]: "f_Objs (log_req q r) = f_Objs r"
  by (simp add: log_req_def)

lemma client_Objs:
  "client_Update E r s = (e, r', s') \<Longrightarrow> f_Objs r' = f_Objs r"
  "client_Patch E u r = (e, u', r') \<Longrightarrow> f_Objs r' = f_Objs r"
  "client_Delete E u r = (e, r') \<Longrightarrow> f_Objs r' = f_Objs r"
  "client_List E g r = (x, r') \<Longrightarrow> f_Objs r' = f_Objs r"
  by (auto simp: client_Update_def client_Patch_def client_Delete_def client_List_def split: prod.splits)

lemma addon_Objs:
  "ensureNamespace E ns r = (a, r') \<Longrightarrow> f_Objs r' = f_Objs r"
  "deletePeerAuthentication E ns r = (a, r') \<Longrightarrow> f_Objs r' = f_Objs r"
  "httpScaledObjectsInUse E r = (b, r') \<Longrightarrow> f_Objs r' = f_Objs r"
  "persist_annotations E r s = (r', s') \<Longrightarrow> f_Objs r' = f_Objs r"
  by (auto simp: ensureNamespace_def deletePeerAuthentication_def httpScaledObjectsInUse_def
      persist_annotations_def Let_def split: prod.splits option.splits if_splits dest: client_Objs)

lemma loop_Objs:
  "deleteObjects_loop E us e r = (a, r') \<Longrightarrow> f_Objs r' = f_Objs r"
  "applyObjects_loop E us e r = (a, us', r') \<Longrightarrow> f_Objs r' = f_Objs r"
  by (induction us arbitrary: e r us') (auto split: prod.splits dest!: client_Objs)

lemma FetchResources_Objs: "FetchResources L E v r = (x, r') \<Longrightarrow> f_Objs r' = f_Objs r"
  using FetchResources_r [of L E v r x r'] by auto

lemma fetchAddonObjs_returns:
  assumes "policies_load L E"
  shows "\<exists>x r'. fetchAddonObjs L E v ns istio r = (Ret x, r') \<and> f_Objs r' = f_Objs r"
proof -
  obtain y r' where f: "FetchResources L E v r = (y, r')" by fastforce
  obtain nps where "NetworkPolicies L E ns = Ret nps"
    using assms by (auto simp: policies_load_def NetworkPolicies_def)
  with f FetchResources_Objs [OF f] show ?thesis
    by (auto simp: fetchAddonObjs_def overrideNamespace_eq split: sum.split)
qed

lemma cleanup_returns:
  assumes "policies_load L E"
  shows "\<exists>r'. cleanup_previous L E pv pns v ns r = (Ret (), r') \<and> f_Objs r' = f_Objs r"
proof -
  have "\<exists>r'. cleanupOldAddon L E w n r = (Ret (), r') \<and> f_Objs r' = f_Objs r" for w n
  proof -
    obtain x r1 where f: "fetchAddonObjs L E w n False r = (Ret x, r1)" "f_Objs r1 = f_Objs r"
      using fetchAddonObjs_returns [OF assms] by blast
    show ?thesis
    proof (cases x)
      case (Inr objs)
      obtain e r2 where d: "deleteObjects E objs r1 = (e, r2)" by fastforce
      obtain e3 r3 where p: "deletePeerAuthentication E n r2 = (e3, r3)" by fastforce
      have "f_Objs r3 = f_Objs r" using f(2) loop_Objs(1) d addon_Objs(2) [OF p] unfolding deleteObjects_def by metis
      with Inr f(1) d p show ?thesis by (simp add: cleanupOldAddon_def)
    qed (use f in \<open>simp add: cleanupOldAddon_def\<close>)
  qed
  then show ?thesis by (simp add: cleanup_previous_def)
qed

text \<open>An outcome that returns, goes on to the update of the status and leaves the objects as they were.\<close>

definition reports_next :: "fsm \<Rightarrow> outcome \<Rightarrow> bool" where
  "reports_next r out \<longleftrightarrow>
     (case out of (y, r', s') \<Rightarrow> (\<exists>x e. y = Ret (Some (SFnUpdateStatus x e), None, None)) \<and> f_Objs r' = f_Objs r)"

lemma reports_next_simps [simp]:
  "reports_next r (Ret stopWithNoRequeue, rs) \<longleftrightarrow> f_Objs (fst rs) = f_Objs r"
  "reports_next r (Ret (stopWithErrorAndNoRequeue e), rs) \<longleftrightarrow> f_Objs (fst rs) = f_Objs r"
  by (cases rs; simp add: reports_next_def stop_defs)+

lemma persist_Objs [simp]: "f_Objs (fst (persist_annotations E r s)) = f_Objs r"
  using addon_Objs(4) by (metis prod.collapse)

lemma apply_fetched_next: "f_Objs r' = f_Objs r \<Longrightarrow> reports_next r (apply_fetched L E cfg v ns objs r' s)"
  by (auto simp: apply_fetched_def applyObjects_def Let_def split: prod.split option.split if_split
      dest!: loop_Objs addon_Objs)

lemma delete_known_next: "f_Objs r' = f_Objs r \<Longrightarrow> reports_next r (delete_known L E ns objs r' s)"
  by (auto simp: delete_known_def deleteObjects_def Let_def split: prod.split option.split
      dest!: loop_Objs addon_Objs)

lemma addon_next:
  assumes "policies_load L E"
  shows "reports_next r (sFnApplyAddon L E r s)" and "reports_next r (sFnDeleteAddon L E r s)"
proof -
  let ?cfg = "ReadAddonCfg (s_instance s)"
  obtain e r1 where n: "ensureNamespace E (EffectiveNamespace ?cfg) r = (e, r1)" by fastforce
  note f = fetchAddonObjs_returns [OF assms] and c = cleanup_returns [OF assms]
  show "reports_next r (sFnApplyAddon L E r s)"
  proof (cases e)
    case None
    obtain r2 where 2: "cleanup_previous L E (map_get (meta_Annotations (k_Meta (s_instance s))) AnnotationAddonInstalledVersion)
        (map_get (meta_Annotations (k_Meta (s_instance s))) AnnotationAddonInstalledNamespace) DefaultAddonVersion
        (EffectiveNamespace ?cfg) r1 = (Ret (), r2)" "f_Objs r2 = f_Objs r1" using c by blast
    obtain x r3 where 3: "fetchAddonObjs L E DefaultAddonVersion (EffectiveNamespace ?cfg) (addon_IstioInjection ?cfg) r2
        = (Ret x, r3)" "f_Objs r3 = f_Objs r2" using f by blast
    from None n 2 3 addon_Objs(1) [OF n] show ?thesis
      by (simp add: sFnApplyAddon_def Let_def apply_fetched_next split: sum.split)
  qed (use n addon_Objs(1) [OF n] in \<open>simp add: sFnApplyAddon_def Let_def\<close>)
  let ?ns = "map_get (meta_Annotations (k_Meta (s_instance s))) AnnotationAddonInstalledNamespace"
  obtain y r4 where 4: "fetchAddonObjs L E (map_get (meta_Annotations (k_Meta (s_instance s))) AnnotationAddonInstalledVersion)
      (if ?ns \<noteq> [] then ?ns else DefaultAddonNamespace) False r = (Ret y, r4)" "f_Objs r4 = f_Objs r" using f by blast
  show "reports_next r (sFnDeleteAddon L E r s)"
    unfolding sFnDeleteAddon_def Let_def 4(1) by (simp add: 4(2) delete_known_next split: sum.split)
qed

end
