(* ===== verification/Never_Panics.thy ===== *)
theory Never_Panics
  imports Panic_Freedom Stability_Properties Delete_Properties Controller
begin

text \<open>
  No reconciliation panics: the objects in memory are sound in every state of the machine before a
  deletion starts, and a deletion only appends to them what the reconciler drops afterwards.  The locale
  \<open>safe_machine\<close> extends the contract of the loop by an invariant under which every step returns.
\<close>

section \<open>Machines that return\<close>

locale safe_machine = machine ex ctx rk loop
  for ex :: "'f \<Rightarrow> 'r \<Rightarrow> 's \<Rightarrow> ('f option \<times> 'x \<times> 'e option) go \<times> 'r \<times> 's"
    and ctx :: "nat \<Rightarrow> 'r \<Rightarrow> 'e option" and rk :: "'f \<Rightarrow> nat"
    and loop :: "nat \<Rightarrow> 'f option \<Rightarrow> 'x \<Rightarrow> 'r \<Rightarrow> 's \<Rightarrow> ('x \<times> 'e option) go \<times> 'r \<times> 's" +
  fixes safe :: "'f option \<Rightarrow> 'r \<Rightarrow> 's \<Rightarrow> bool"
  assumes safe_step: "safe (Some f) r s \<Longrightarrow> \<exists>f' x e r' s'. ex f r s = (Ret (f', x, e), r', s') \<and> safe f' r' s'"
begin

lemma loop_returns:
  assumes "loop n f x r s = (out, r', s')" "safe f r s"
  shows "(\<exists>y. out = Ret y) \<and> (\<exists>f'. safe f' r' s')"
proof (rule loop_rule [where I = "\<lambda>f x r s. safe f r s" and Q = "\<lambda>out r s. (\<exists>y. out = Ret y) \<and> (\<exists>f. safe f r s)", OF assms(1)])
  fix g y ra sa g' x' e r1 s1
  assume I: "safe (Some g) ra sa"
  then obtain f' x2 e2 r2 s2 where s: "ex g ra sa = (Ret (f', x2, e2), r2, s2)" "safe f' r2 s2"
    using safe_step by blast
  show "(\<exists>z. Panic p = Ret z) \<and> (\<exists>f. safe f r1 s1)" if "ex g ra sa = (Panic p, r1, s1)" for p using that s by simp
  show "(\<exists>z. Ret (x', Some e) = Ret z) \<and> (\<exists>f. safe f r1 s1)" if "ex g ra sa = (Ret (g', x', Some e), r1, s1)" for e
    using that s by auto
  show "safe g' r1 s1" if "ex g ra sa = (Ret (g', x', None), r1, s1)" using that s by simp
qed (use assms(2) in auto)

end

section \<open>The invariant\<close>

text \<open>
  A state is fit for a list of objects when its update, if it is one, is safe for the kind of the object it
  points to.  The last states of a run, which may see the leases, do not look at the objects.
\<close>

fun fit :: "k8s_lib \<Rightarrow> obj list \<Rightarrow> stateFn \<Rightarrow> bool" where
  "fit L us (SFnUpdateObject u upd next) \<longleftrightarrow> u < length us
     \<and> (isDeployment L (us ! u) \<and> safe_update L (isDeployment L) upd
        \<or> isWebhookNetworkPolicy L (us ! u) \<and> safe_update L (isWebhookNetworkPolicy L) upd)
     \<and> fit L us next"
| "fit L us (SFnEmitEventfunc next x e) \<longleftrightarrow> next = None"
| "fit L us fn \<longleftrightarrow> True"

fun last_state :: "stateFn \<Rightarrow> bool" where
  "last_state SFnRemoveFinalizer \<longleftrightarrow> True"
| "last_state (SFnUpdateStatus x e) \<longleftrightarrow> True"
| "last_state (SFnEmitEventfunc next x e) \<longleftrightarrow> True"
| "last_state fn \<longleftrightarrow> False"

definition safe_config :: "k8s_lib \<Rightarrow> (string \<times> string \<times> string \<times> string) list \<Rightarrow> stateFn option \<Rightarrow> fsm \<Rightarrow> bool" where
  "safe_config L ids f r \<longleftrightarrow> map (resource_id L) (take (length ids) (f_Objs r)) = ids
     \<and> list_all (sound_object L) (take (length ids) (f_Objs r))
     \<and> (case f of None \<Rightarrow> True
        | Some fn \<Rightarrow> fit L (f_Objs r) fn \<and> (last_state fn \<or> length (f_Objs r) = length ids))"

definition goes_on :: "k8s_lib \<Rightarrow> (string \<times> string \<times> string \<times> string) list \<Rightarrow> outcome \<Rightarrow> bool" where
  "goes_on L ids out \<longleftrightarrow> (\<exists>f x e r s. out = (Ret (f, x, e), r, s) \<and> safe_config L ids f r)"

lemma goes_on_simps [simp]:
  "goes_on L ids (Ret (switchState fn), rs) \<longleftrightarrow> safe_config L ids (Some fn) (fst rs)"
  "goes_on L ids (Ret stopWithNoRequeue, rs) \<longleftrightarrow> safe_config L ids None (fst rs)"
  "goes_on L ids (Ret stopWithRequeue, rs) \<longleftrightarrow> safe_config L ids None (fst rs)"
  "goes_on L ids (Ret (stopWithRequeueAfter d), rs) \<longleftrightarrow> safe_config L ids None (fst rs)"
  "goes_on L ids (Ret (stopWithErrorAndNoRequeue er), rs) \<longleftrightarrow> safe_config L ids None (fst rs)"
  "goes_on L ids (Ret (f, x, e), rs) \<longleftrightarrow> safe_config L ids f (fst rs)"
  by (cases rs; auto simp: goes_on_def stop_defs safe_config_def)+

lemma safe_config_Objs: "f_Objs r' = f_Objs r \<Longrightarrow> safe_config L ids f r' \<longleftrightarrow> safe_config L ids f r"
  by (simp add: safe_config_def cong: option.case_cong)

text \<open>Before a deletion starts all objects are sound.\<close>

lemma safe_configD:
  "safe_config L ids (Some fn) r \<Longrightarrow> \<not> last_state fn \<Longrightarrow>
   map (resource_id L) (f_Objs r) = ids \<and> list_all (sound_object L) (f_Objs r)"
  by (auto simp: safe_config_def)

lemma safe_configI:
  "map (resource_id L) (f_Objs r) = ids \<Longrightarrow> list_all (sound_object L) (f_Objs r) \<Longrightarrow> fit L (f_Objs r) fn \<Longrightarrow> safe_config L ids (Some fn) r"
  by (auto simp: safe_config_def)

lemma safe_config_weaken: "safe_config L ids (Some fn) r \<Longrightarrow> safe_config L ids None r"
  by (simp add: safe_config_def)

lemma safe_config_to:
  "safe_config L ids (Some fn) r \<Longrightarrow> \<not> last_state fn \<Longrightarrow> fit L (f_Objs r) fn' \<Longrightarrow> safe_config L ids (Some fn') r"
  using safe_configI safe_configD by blast

lemma reports_next_goes_on: "reports_next r out \<Longrightarrow> safe_config L ids (Some fn) r \<Longrightarrow> goes_on L ids out"
  by (cases out) (auto simp: reports_next_def goes_on_def safe_config_def)

text \<open>An update of one object keeps the others and the kind of this one.\<close>

lemma fit_update:
  assumes "i < length us" "isDeployment L u \<longleftrightarrow> isDeployment L (us ! i)"
    "isWebhookNetworkPolicy L u \<longleftrightarrow> isWebhookNetworkPolicy L (us ! i)"
  shows "fit L us fn \<Longrightarrow> fit L (us[i := u]) fn"
  using assms by (induction fn) (auto simp: nth_list_update)

lemma sFnUpdateObject_goes_on:
  assumes I: "safe_config L ids (Some (SFnUpdateObject u upd next)) r"
  shows "goes_on L ids (sFnUpdateObject u upd next L E r s)"
proof -
  have len: "map (resource_id L) (f_Objs r) = ids" and all: "list_all (sound_object L) (f_Objs r)"
    using safe_configD [OF I] by simp_all
  have ft: "u < length (f_Objs r)" "fit L (f_Objs r) next" using I by (simp_all add: safe_config_def)
  show ?thesis
  proof (cases "upd (s_instance s)")
    case None
    with safe_configI [OF len all ft(2)] show ?thesis by (simp add: sFnUpdateObject_def)
  next
    case (Some f)
    have su: "sound_object L (f_Objs r ! u)" using all ft(1) by (simp add: list_all_length)
    have "isDeployment L (f_Objs r ! u) \<and> safe_update L (isDeployment L) upd
        \<or> isWebhookNetworkPolicy L (f_Objs r ! u) \<and> safe_update L (isWebhookNetworkPolicy L) upd"
      using I by (simp add: safe_config_def)
    then obtain e u' k' where s: "f (f_Objs r ! u) = Ret (e, u', k')" "sound_object L u'" "resource_id L u' = resource_id L (f_Objs r ! u)"
      and k: "isDeployment L u' \<longleftrightarrow> isDeployment L (f_Objs r ! u)"
        "isWebhookNetworkPolicy L u' \<longleftrightarrow> isWebhookNetworkPolicy L (f_Objs r ! u)"
      unfolding safe_update_def using Some su deployment_not_policy by metis
    let ?r = "r\<lparr>f_Objs := (f_Objs r)[u := u']\<rparr>"
    have "list_all (sound_object L) (f_Objs ?r)"
      using all s(2) by (auto simp: list_all_iff dest!: set_update_subset_insert [THEN subsetD])
    moreover have "fit L (f_Objs ?r) next" using fit_update [OF ft(1) k ft(2)] by simp
    moreover have "map (resource_id L) (f_Objs ?r) = ids"
      using s(3) ft(1) by (simp add: len [symmetric] map_update list_update_same_conv)
    ultimately have "safe_config L ids (Some next) ?r" by (intro safe_configI)
    then show ?thesis using Some s(1) safe_config_weaken
      by (simp add: sFnUpdateObject_def Let_def split: option.split)
  qed
qed

section \<open>Every state goes on\<close>

lemma findServedKeda_Objs: "findServedKeda E r = (x, r') \<Longrightarrow> f_Objs r' = f_Objs r"
  by (auto simp: findServedKeda_def split: sum.splits)

lemma emit_loop_Objs [simp]: "f_Objs (emit_loop L snap cs r) = f_Objs r"
  by (induction L snap cs r rule: emit_loop.induct) simp_all

text \<open>A state that leaves the objects alone and names an unconditional state next.\<close>

lemma basic_goes_on:
  "safe_config L ids (Some SFnServedFilter) r \<Longrightarrow> goes_on L ids (sFnServedFilter L E r s)"
  "safe_config L ids (Some SFnTakeSnapshot) r \<Longrightarrow> goes_on L ids (sFnTakeSnapshot r s)"
  "safe_config L ids (Some SFnInitialize) r \<Longrightarrow> goes_on L ids (sFnInitialize L E r s)"
  "safe_config L ids (Some SFnBootstrapperValidation) r \<Longrightarrow> goes_on L ids (sFnBootstrapperValidation L E r s)"
  "safe_config L ids (Some SFnVerify) r \<Longrightarrow> goes_on L ids (sFnVerify L E r s)"
  "safe_config L ids (Some SFnHandleAddon) r \<Longrightarrow> goes_on L ids (sFnHandleAddon r s)"
  "safe_config L ids (Some SFnDeleteResources) r \<Longrightarrow> goes_on L ids (sFnDeleteResources L E r s)"
  by (auto simp: sFnServedFilter_def sFnTakeSnapshot_def sFnInitialize_def sFnBootstrapperValidation_def
      sFnVerify_def sFnHandleAddon_def sFnDeleteResources_def defaultDeletionStrategy_def safe_config_def Let_def
      split: sum.split prod.split option.split dest!: findServedKeda_Objs client_Objs)

lemma end_goes_on:
  "safe_config L ids (Some SFnRemoveFinalizer) r \<Longrightarrow> goes_on L ids (sFnRemoveFinalizer L E r s)"
  "safe_config L ids (Some (SFnUpdateStatus x e)) r \<Longrightarrow> goes_on L ids (sFnUpdateStatus x e E r s)"
  "safe_config L ids (Some (SFnEmitEventfunc f x e)) r \<Longrightarrow> goes_on L ids (sFnEmitEventfunc f x e L r s)"
  by (auto simp: sFnRemoveFinalizer_def sFnUpdateStatus_def sFnEmitEventfunc_def safe_config_def Let_def
      split: prod.split option.split dest!: client_Objs)

lemma Guard_goes_on:
  "safe_config L ids (Some SFnGuardAddonInUse) r \<Longrightarrow> goes_on L ids (sFnGuardAddonInUse L E r s)"
  by (auto simp: sFnGuardAddonInUse_def safe_config_def split: sum.split prod.split dest!: addon_Objs(3))

lemma addon_goes_on:
  assumes "policies_load L E"
  shows "safe_config L ids (Some SFnApplyAddon) r \<Longrightarrow> goes_on L ids (sFnApplyAddon L E r s)"
    and "safe_config L ids (Some SFnDeleteAddon) r \<Longrightarrow> goes_on L ids (sFnDeleteAddon L E r s)"
  using addon_next [OF assms] reports_next_goes_on by blast+

text \<open>The chains that configure a deployment.\<close>

lemma chain_fit:
  assumes doc: "library_doc L" and u: "u < length us" "isDeployment L (us ! u)"
  shows "fit L us (buildSfnUpdateOperatorLogging L u)" "fit L us (buildSfnUpdateMetricsSvrLogging L u)"
    "fit L us (buildSfnUpdateAdmissionWebhooksLogging L u)"
  using u safe_deployment_update [OF doc performs_args(1)] safe_deployment_update [OF doc performs_args(2)]
    safe_deployment_update [OF doc performs_args(3)] safe_deployment_update [OF doc performs_fields(1)]
    safe_deployment_update [OF doc performs_fields(2)] safe_deployment_update [OF doc performs_fields(3)]
    safe_deployment_update [OF doc performs_fields(4)] safe_deployment_update [OF doc performs_fields(5)]
  by (simp_all add: chain_defs built_updater)

lemma policy_fit:
  "library_doc L \<Longrightarrow> u < length us \<Longrightarrow> isWebhookNetworkPolicy L (us ! u) \<Longrightarrow>
   fit L us (buildSfnUpdateObject (network_policy_conv L) u updateAdmissionWebhooksNetworkPolicy getData share SFnApply)"
  using safe_policy_update by (simp add: built_updater)

lemma update_states_go_on:
  assumes doc: "library_doc L"
  shows "safe_config L ids (Some SFnUpdateKedaDeployment) r \<Longrightarrow> goes_on L ids (sFnUpdateKedaDeployment L E r s)"
    "safe_config L ids (Some SFnUpdateMetricsServerDeployment) r \<Longrightarrow> goes_on L ids (sFnUpdateMetricsServerDeployment L E r s)"
    "safe_config L ids (Some SFnUpdateAdmissionWebhooksDeployment) r \<Longrightarrow> goes_on L ids (sFnUpdateAdmissionWebhooksDeployment L E r s)"
    "safe_config L ids (Some SFnUpdateAdmissionWebhooksNetworkPolicy) r \<Longrightarrow>
       goes_on L ids (sfnUpdateAdmissionWebhooksNetworkPolicy L E r s)"
  using chain_fit [OF doc] policy_fit [OF doc]
  by (auto simp: sFnUpdateKedaDeployment_def sFnUpdateMetricsServerDeployment_def sFnUpdateAdmissionWebhooksDeployment_def
      sfnUpdateAdmissionWebhooksNetworkPolicy_def kedaOperatorDeployment_def kedaMetricsServerDeployment_def
      kedaAdmissionWebhooksDeployment_def object_predicates split: sum.split
      dest!: firstUnstructed_Inr intro: safe_config_to safe_config_weaken)

lemma Apply_goes_on:
  assumes doc: "library_doc L" and I: "safe_config L ids (Some SFnApply) r"
  shows "goes_on L ids (sFnApply L E r s)"
proof -
  have r: "map (resource_id L) (f_Objs r) = ids" "list_all (sound_object L) (f_Objs r)" using safe_configD [OF I] by simp_all
  obtain b r' s' where a: "apply_loop L E 0 (f_Objs r) False r s = (Ret b, r', s')"
    "list_all (sound_object L) (f_Objs r')" "map (resource_id L) (f_Objs r') = map (resource_id L) (f_Objs r)"
    using apply_loop_sound [OF doc r(2) r(2), where i = 0 and E = E and b = False and s = s] by auto
  have "safe_config L ids (Some SFnVerify) r'" using a(2,3) r(1) by (intro safe_configI) simp_all
  then show ?thesis using safe_config_weaken by (auto simp: sFnApply_def a(1))
qed

section \<open>Deletion\<close>

lemma safe_config_length:
  assumes "safe_config L ids f r"
  shows "length ids \<le> length (f_Objs r)"
proof -
  have "length (map (resource_id L) (take (length ids) (f_Objs r))) = length ids"
    using assms by (simp only: safe_config_def)
  then show ?thesis by simp
qed

lemma safe_config_appended:
  "safe_config L ids (Some fn) r \<Longrightarrow> f_Objs r' = f_Objs r @ us \<Longrightarrow> last_state fn' \<Longrightarrow> fit L (f_Objs r') fn' \<Longrightarrow>
   safe_config L ids (Some fn') r'"
  using safe_config_length [of L ids "Some fn" r] by (auto simp: safe_config_def)

lemma filter_goes_on:
  assumes "safe_config L ids (Some fn) r"
  shows "goes_on L ids (deleteResourcesWithFilter L E fs r s)"
proof -
  obtain e r1 where a: "deleteAddonObjs L E (AddLeaseObjs r) = (e, r1)" by fastforce
  obtain e2 r2 where d: "deleteResources E (f_Objs r1) fs None r1 = (e2, r2)" by fastforce
  obtain us where us: "f_Objs r1 = f_Objs r @ us" "f_Objs r2 = f_Objs r @ us"
    using deleteAddonObjs_Objs [OF a] deleteResources_Objs [OF d] by (simp add: AddLeaseObjs_def)
  have "safe_config L ids (Some SFnRemoveFinalizer) r1" "safe_config L ids (Some SFnRemoveFinalizer) r2"
    using safe_config_appended [OF assms us(1)] safe_config_appended [OF assms us(2)] by simp_all
  then show ?thesis using safe_config_weaken
    by (auto simp: deleteResourcesWithFilter_def a d split: option.split)
qed

lemma deletion_goes_on:
  "safe_config L ids (Some SFnCascadeDeletionState) r \<Longrightarrow> goes_on L ids (sFnCascadeDeletionState L E r s)"
  "safe_config L ids (Some SFnUpstreamDeletionState) r \<Longrightarrow> goes_on L ids (sFnUpstreamDeletionState L E r s)"
  by (simp_all add: sFnCascadeDeletionState_def sFnUpstreamDeletionState_def filter_goes_on)

lemma Safe_goes_on:
  assumes I: "safe_config L ids (Some SFnSafeDeletionState) r"
  shows "goes_on L ids (sFnSafeDeletionState L E r s)"
proof -
  obtain e r1 where a: "checkAddonOrphanResources E r = (e, r1)" by fastforce
  obtain e2 r2 where c: "checkCRDOrphanResources L E r1 = (e2, r2)" by fastforce
  have o1: "f_Objs r1 = f_Objs r"
    using a by (auto simp: checkAddonOrphanResources_def split: if_splits prod.splits sum.splits dest!: addon_Objs(3))
  moreover have o2: "f_Objs r2 = f_Objs r1"
    using checkCRDOrphan_keeps [OF c [unfolded checkCRDOrphanResources_def]] by simp
  ultimately have "safe_config L ids (Some SFnSafeDeletionState) r1" "safe_config L ids (Some SFnSafeDeletionState) r2"
    using I safe_config_Objs by metis+
  then show ?thesis using safe_config_weaken filter_goes_on
    by (auto simp: sFnSafeDeletionState_def a c split: option.split)
qed

lemma exec_goes_on:
  assumes "library_doc L" "policies_load L E" "safe_config L ids (Some fn) r"
  shows "goes_on L ids (exec L E fn r s)"
  using assms
  by (cases fn) (simp_all add: basic_goes_on end_goes_on Guard_goes_on addon_goes_on update_states_go_on Apply_goes_on
      deletion_goes_on Safe_goes_on sFnUpdateObject_goes_on)

text \<open>The invariant with what it needs of the libraries and the environment.\<close>

definition panic_free :: "k8s_lib \<Rightarrow> env \<Rightarrow> (string \<times> string \<times> string \<times> string) list \<Rightarrow> stateFn option \<Rightarrow> fsm \<Rightarrow> systemState \<Rightarrow> bool" where
  "panic_free L E ids f r s \<longleftrightarrow> library_doc L \<and> policies_load L E \<and> safe_config L ids f r"

interpretation returning: safe_machine "exec L E" "\<lambda>n r. e_ctx_err E n (f_hist r)" rank "run_loop L E" "panic_free L E ids" for L E ids
proof unfold_locales
  fix f r s
  assume "panic_free L E ids (Some f) r s"
  then show "\<exists>f' x e r' s'. exec L E f r s = (Ret (f', x, e), r', s') \<and> panic_free L E ids f' r' s'"
    using exec_goes_on [of L E ids f r s] unfolding panic_free_def goes_on_def by blast
qed

section \<open>Reconciliations\<close>

lemma Run_returns:
  assumes "library_doc L" "policies_load L E" "list_all (sound_object L) (f_Objs r)"
  shows "\<exists>y r' s'. Run L E r v = (Ret y, r', s')
    \<and> map (resource_id L) (take (length (f_Objs r)) (f_Objs r')) = map (resource_id L) (f_Objs r)
    \<and> list_all (sound_object L) (take (length (f_Objs r)) (f_Objs r'))"
proof -
  let ?ids = "map (resource_id L) (f_Objs r)"
  obtain out r' s' where run: "run_loop L E 0 (Some SFnServedFilter) None r (init_state v) = (out, r', s')"
    by (metis prod_cases3)
  have "panic_free L E ?ids (Some SFnServedFilter) r (init_state v)"
    using assms by (simp add: panic_free_def safe_config_def)
  with returning.loop_returns [OF run] obtain y f where "out = Ret y" "panic_free L E ?ids f r' s'" by blast
  with run show ?thesis by (cases y) (auto simp: Run_def panic_free_def safe_config_def)
qed

lemma Reconcile_returns:
  assumes "library_doc L" "policies_load L E" "list_all (sound_object L) (f_Objs c)"
  shows "\<exists>y c'. Reconcile L E c req = (Ret y, c') \<and> list_all (sound_object L) (f_Objs c')
    \<and> map (resource_id L) (f_Objs c') = map (resource_id L) (f_Objs c)"
proof (cases "e_get E (f_hist c) (fst req) (snd req)")
  case (Inr v)
  let ?c = "log_req (ReqGet (fst req) (snd req)) c"
  obtain y r' s' where "Run L E ?c v = (Ret y, r', s')" "list_all (sound_object L) (take (length (f_Objs ?c)) (f_Objs r'))"
    "map (resource_id L) (take (length (f_Objs ?c)) (f_Objs r')) = map (resource_id L) (f_Objs ?c)"
    using Run_returns [OF assms(1,2), of ?c v] assms(3) by auto
  with Inr show ?thesis by (simp add: Reconcile_def NewFsm_def after_run_def Let_def)
qed (use assms(3) in \<open>simp add: Reconcile_def Let_def\<close>)

text \<open>The reconciliations of a process, one after the other, each in an environment of its own.\<close>

fun reconcile_all :: "k8s_lib \<Rightarrow> (env \<times> string \<times> string) list \<Rightarrow> kedaReconciler
    \<Rightarrow> (Result \<times> goerror option) go list \<times> kedaReconciler" where
  "reconcile_all L [] c = ([], c)"
| "reconcile_all L ((E, req) # qs) c =
     (case Reconcile L E c req of
        (out, c1) \<Rightarrow> (case reconcile_all L qs c1 of (outs, c2) \<Rightarrow> (out # outs, c2)))"

text \<open>
  C8: The reconciler does not panic: when every object of the manifests has labels, every deployment among
  them a container and labels in its template and every webhook network policy a port in each entry, and
  the file of the add-on's network policies can be read, then every one of any sequence of
  reconciliations, of whatever resources and whatever the cluster answers, returns a result.
\<close>

theorem reconciler_never_panics:
  assumes "library_doc L" "list_all (sound_object L) (f_Objs c)" "\<forall>q\<in>set qs. policies_load L (fst q)"
  shows "list_all returns (fst (reconcile_all L qs c)) \<and> list_all (sound_object L) (f_Objs (snd (reconcile_all L qs c)))"
  using assms
proof (induction qs arbitrary: c)
  case (Cons q qs)
  obtain E req where q: "q = (E, req)" by (cases q)
  obtain y c' where r: "Reconcile L E c req = (Ret y, c')" "list_all (sound_object L) (f_Objs c')"
    using Reconcile_returns [of L E c req] Cons.prems q by auto
  obtain outs c2 where a: "reconcile_all L qs c' = (outs, c2)" by fastforce
  with Cons.IH [OF Cons.prems(1) r(2)] Cons.prems(3) r(1) q show ?case by simp
qed simp

lemma dec_by_spec:
  "fmlookup u ''spec'' = fmlookup v ''spec'' \<Longrightarrow> d_Containers (dec_deployment u) = d_Containers (dec_deployment v)"
  "fmlookup u ''spec'' = fmlookup v ''spec'' \<Longrightarrow> d_TemplateLabels (dec_deployment u) = d_TemplateLabels (dec_deployment v)"
  "fmlookup u ''spec'' = fmlookup v ''spec'' \<Longrightarrow> np_Ingress (dec_policy u) = np_Ingress (dec_policy v)"
  by (simp_all add: dec_deployment_def dec_policy_def Let_def fld_obj_def fld_list_def fld_val_def)

lemma dec_labels: "d_Labels (dec_deployment u) = smap_at u labelsPath"
proof (cases "fmlookup u ''metadata''")
  case (Some a)
  then show ?thesis
    by (cases a) (auto simp: dec_deployment_def Let_def fld_obj_def smap_at_def dec_smap_def split: option.split)
qed (simp add: dec_deployment_def Let_def fld_obj_def smap_at_def dec_smap_def)

lemma ref_typed_doc: "typed_doc ref_lib"
  unfolding typed_doc_def ref_lib_simps sum.inject
  by (intro conjI) (blast dest: dec_by_spec, blast dest: dec_by_spec, simp add: dec_labels, blast+)

lemma ref_library_doc: "library_doc ref_lib"
  by (simp add: library_doc_def ref_identity_doc ref_typed_doc)

lemma ref_sound_deployment: "sound_object ref_lib (enc_deployment (ref_deployment name))"
proof -
  let ?u = "enc_deployment (ref_deployment name)"
  have w: "\<not> isWebhookNetworkPolicy ref_lib ?u"
    using deployment_not_policy [of ref_lib ?u] by simp
  have "sound_deployment (dec_deployment ?u)"
    by (simp add: enc_deployment_inv sound_deployment_def ref_deployment_def nil_if_empty_def)
  then have "sound_deployment (dec_deployment v)" if "fmlookup v ''spec'' = fmlookup ?u ''spec''" for v
    using dec_by_spec(1,2) [OF that] by (simp add: sound_deployment_def)
  moreover have "smap_at ?u labelsPath = d_Labels (omit_empty (ref_deployment name))"
    using dec_labels [of ?u] by (simp add: enc_deployment_inv)
  then have "nil_if_empty (GetLabels ref_lib ?u) \<noteq> None"
    by (simp add: ref_lib_simps ref_deployment_def omit_empty_def nil_if_empty_def)
  ultimately show ?thesis using w by (auto simp: sound_object_def ref_lib_simps)
qed

lemma ref_sound_policy: "sound_object ref_lib (enc_policy ref_policy)"
proof -
  have "np_Ingress (dec_policy v) = []" if "fmlookup v ''spec'' = fmlookup (enc_policy ref_policy) ''spec''" for v
    using dec_by_spec(3) [OF that] by (simp add: enc_policy_inv ref_policy_ingress)
  then show ?thesis
    using webhook_labels [OF ref_isWebhook] webhook_kind [OF ref_unstructured_doc ref_isWebhook]
    by (auto simp: sound_object_def ref_lib_simps sound_policy_def)
qed

lemma ref_objects_sound: "list_all (sound_object ref_lib) ref_objects"
  by (simp add: ref_objects_def ref_sound_deployment ref_sound_policy)

lemma ref_policies_load: "policies_load ref_lib ref_env"
  by (simp add: policies_load_def ref_env_simps LoadData_def ref_lib_simps ref_decode_def)

theorem reconciler_never_panics_witness:
  "list_all returns (fst (reconcile_all ref_lib [(ref_env, ''kyma-system'', ''default''), (ref_env, ''kyma-system'', ''other'')]
     (ref_fsm\<lparr>f_Objs := ref_objects\<rparr>)))"
proof -
  have "\<forall>q\<in>set [(ref_env, ''kyma-system'', ''default''), (ref_env, ''kyma-system'', ''other'')]. policies_load ref_lib (fst q)"
    by (simp add: ref_policies_load)
  moreover have "list_all (sound_object ref_lib) (f_Objs (ref_fsm\<lparr>f_Objs := ref_objects\<rparr>))"
    by (simp add: ref_objects_sound)
  ultimately show ?thesis using reconciler_never_panics [OF ref_library_doc, THEN conjunct1] by blast
qed

end
