(* ===== verification/Install_Progress.thy ===== *)
theory Install_Progress
  imports Stability_Properties Apply_Properties Delete_Properties Instance_Invariants Never_Panics
begin

text \<open>
  The runs of an installation on a cluster that accepts every call and brings the applied deployments up:
  the ones that make a resource served and give it its finalizer, the one that installs, and the one of a
  resource that is Ready, which sends the objects again and reports nothing new.  \<open>Install_Store\<close> puts
  them together.
\<close>

section \<open>Runs that are not cancelled\<close>

lemma run_loop_start:
  assumes "\<And>n h. e_ctx_err E n h = None"
  shows "run_loop L E n (Some fn) x r s = run_loop L E m (Some fn) y r s"
proof (induction "rank fn" arbitrary: n m fn x y r s rule: less_induct)
  case less
  obtain z r' s' where e: "exec L E fn r s = (z, r', s')" by (cases "exec L E fn r s") auto
  show ?case
  proof (cases "\<exists>fn' x'. z = Ret (Some fn', x', None)")
    case True
    then obtain fn' x' where z: "z = Ret (Some fn', x', None)" by blast
    then have "rank fn' < rank fn" using e exec_rank by blast
    from less.hyps [OF this, of "Suc n" x' r' s' "Suc m" x'] e z assms show ?thesis by simp
  next
    case False
    with e assms show ?thesis by (auto split: go.split prod.split option.split)
  qed
qed

lemma run_loop_reaches:
  assumes "\<And>n h. e_ctx_err E n h = None"
  shows "reaches L E c c' \<Longrightarrow>
    run_loop L E n (Some (fst c)) x (fst (snd c)) (snd (snd c)) = run_loop L E m (Some (fst c')) y (fst (snd c')) (snd (snd c'))"
proof (induction arbitrary: n x rule: reaches.induct)
  case (here c)
  show ?case by (rule run_loop_start [OF assms])
next
  case (next_state fn r s fn' x' r' s' c)
  then show ?case using next_state.IH [of "Suc n" x'] assms by simp
qed

lemma reaches_switch:
  "exec L E fn r s = (Ret (switchState fn'), r', s') \<Longrightarrow> reaches L E (fn', r', s') c \<Longrightarrow> reaches L E (fn, r, s) c"
  by (auto simp: switchState_def intro: reaches.next_state)

lemma reaches_stop:
  "exec L E fn r s = (Ret stopWithNoRequeue, r', s') \<Longrightarrow> reaches L E (fn, r, s) (SFnUpdateStatus None None, r', s')"
  by (auto simp: stopWithNoRequeue_def intro: reaches.intros)

section \<open>A cooperative cluster\<close>

text \<open>
  Every call succeeds and returns the resource it is given; \<open>applied u\<close> is the object on the cluster, with
  its status, after the patch of \<open>u\<close>; no HTTPScaledObject exists.
\<close>

definition cooperative :: "env \<Rightarrow> (obj \<Rightarrow> obj) \<Rightarrow> bool" where
  "cooperative E applied \<longleftrightarrow>
     (\<forall>n h. e_ctx_err E n h = None) \<and> (\<forall>h u. e_patch E h u = (None, applied u))
   \<and> (\<forall>h k. e_update E h k = (None, k)) \<and> (\<forall>h k. e_status_update E h k = (None, k))
   \<and> (\<forall>r. fst (httpScaledObjectsInUse E r) = Inr 0)"

definition all_ready :: "k8s_lib \<Rightarrow> obj list \<Rightarrow> bool" where
  "all_ready L us \<longleftrightarrow> (\<exists>ds. applied_deployments L us = Inr ds
     \<and> (\<forall>d\<in>set ds. \<not> hasDeployReplicaFailure L d) \<and> length (filter (IsDeploymentReady L) ds) = 3)"

text \<open>
  The objects can be configured for the resource, the results are \<open>us\<close>, they can be sent, and once they are
  applied the three deployments are ready.
\<close>

definition installable :: "k8s_lib \<Rightarrow> env \<Rightarrow> (obj \<Rightarrow> obj) \<Rightarrow> fsm \<Rightarrow> Keda \<Rightarrow> obj list \<Rightarrow> bool" where
  "installable L E applied r v us \<longleftrightarrow>
     upd_all (Stability.configured L (f_APIServerIP r) v) (f_Objs r) us
   \<and> \<not> list_ex (panics L E) us \<and> \<not> list_ex (image_failed L E) us
   \<and> all_ready L (map (applied \<circ> patched L E) us)"

text \<open>The add-on is not asked for and was never installed.\<close>

definition no_addon :: "fsm \<Rightarrow> Keda \<Rightarrow> bool" where
  "no_addon r v \<longleftrightarrow> f_AddonObjs r = [] \<and> \<not> addon_Enabled (ReadAddonCfg v)
     \<and> map_get (meta_Annotations (k_Meta v)) AnnotationAddonInstalledVersion = []"

lemma cooperativeD:
  assumes "cooperative E applied"
  shows "e_ctx_err E n h = None" "e_patch E h u = (None, applied u)" "e_update E h k = (None, k)"
    "e_status_update E h k = (None, k)" "httpScaledObjectsInUse E r = (Inr 0, log_req (ReqList httpScaledObjectGVK) r)"
proof -
  show "e_ctx_err E n h = None" "e_patch E h u = (None, applied u)" "e_update E h k = (None, k)"
    "e_status_update E h k = (None, k)"
    using assms by (simp_all add: cooperative_def)
  have "snd (httpScaledObjectsInUse E r) = log_req (ReqList httpScaledObjectGVK) r"
    by (simp add: httpScaledObjectsInUse_def client_List_def split: prod.split option.split)
  moreover have "fst (httpScaledObjectsInUse E r) = Inr 0" using assms by (simp add: cooperative_def)
  ultimately show "httpScaledObjectsInUse E r = (Inr 0, log_req (ReqList httpScaledObjectGVK) r)"
    by (metis prod.collapse)
qed

lemma cooperative_answers:
  "cooperative E applied \<Longrightarrow> answers E h us = map (\<lambda>u. (None, applied u)) us"
  by (induction us arbitrary: h) (simp_all add: cooperativeD)

section \<open>The run that installs\<close>

text \<open>The status reported for a module that is ready, without the add-on.\<close>

definition ready_report :: "k8s_lib \<Rightarrow> time \<Rightarrow> time \<Rightarrow> string \<Rightarrow> Keda \<Rightarrow> Keda" where
  "ready_report L t1 t2 version k =
     SetAddonCondition L t2 ''False'' ''HTTPAddonDisabled'' ''HTTP add-on is disabled''
       (UpdateStateReady L t1 ''Installed'' ''Verified'' ''keda-operator and keda-operator-metrics-server ready''
         (set_KedaVersion version (RemoveCondition L ''DeploymentFailure'' k)))"

lemma run_to_update:
  assumes "install_ok L r v" "\<And>n h. e_ctx_err E n h = None"
  shows "run_loop L E 0 (Some SFnServedFilter) None r (init_state v)
    = run_loop L E 4 (Some SFnUpdateKedaDeployment) None r (saveKedaStatus (init_state v))"
  using assms
  by (simp add: install_ok_def served_def has_finalizer_def deleting_def sFnServedFilter_def
      sFnTakeSnapshot_def sFnInitialize_def sFnBootstrapperValidation_def saveKedaStatus_def stop_defs Let_def
      eval_nat_numeral)

lemma Apply_cooperative:
  assumes "cooperative E applied" "\<not> list_ex (panics L E) (f_Objs r)" "\<not> list_ex (image_failed L E) (f_Objs r)"
  shows "\<exists>us. length us = length (f_Objs r) \<and> sFnApply L E r s = (Ret (switchState SFnVerify),
    r\<lparr>f_hist := f_hist r @ map ReqPatch (map (patched L E) (f_Objs r)), f_Objs := us\<rparr>,
    s\<lparr>s_objs := s_objs s @ map (applied \<circ> patched L E) (f_Objs r)\<rparr>)"
proof -
  have l: "length (fold (\<lambda>(j, u) xs. xs[j := g u]) ps xs) = length xs" for g ps and xs :: "obj list"
    by (induction ps arbitrary: xs) auto
  from assms show ?thesis
    by (intro exI [of _ "fold (\<lambda>(j, u) xs. xs[j := fst (prepare L E u)]) (enumerate 0 (f_Objs r)) (f_Objs r)"])
       (simp add: sFnApply_def apply_loop_Ret cooperative_answers [OF assms(1)] Let_def list_ex_iff comp_def l)
qed

lemma Verify_ready:
  assumes "all_ready L (s_objs s)"
  shows "\<exists>version. sFnVerify L E r s = (Ret (switchState SFnHandleAddon), r,
    set_instance (UpdateStateReady L (e_now E (f_hist r)) ''Installed'' ''Verified''
      ''keda-operator and keda-operator-metrics-server ready''
      (set_KedaVersion version (RemoveCondition L ''DeploymentFailure'' (s_instance s)))) s)"
proof -
  obtain ds where ds: "applied_deployments L (s_objs s) = Inr ds" "\<forall>d\<in>set ds. \<not> hasDeployReplicaFailure L d"
    "length (filter (IsDeploymentReady L) ds) = 3"
    using assms unfolding all_ready_def by blast
  have "filter (hasDeployReplicaFailure L) ds = []" using ds(2) by (simp add: filter_empty_conv)
  with ds(1,3) show ?thesis
    by (simp add: sFnVerify_def verify_loop_eq fold_count zero_tally_def Let_def) blast
qed

lemma shared_keeps:
  "k_Meta (shared k) = k_Meta k" "k_Status (shared k) = k_Status k"
  by (simp_all add: shared_sanitized map_logging_def)

lemma status_keeps_meta [simp]:
  "k_Meta (ready_report L t1 t2 x k) = k_Meta k"
  "k_Meta (UpdateStateReady L t c y m k) = k_Meta k" "k_Meta (set_KedaVersion x k) = k_Meta k"
  "k_Meta (RemoveCondition L c k) = k_Meta k"
  by (simp_all add: ready_report_def status_defs set_KedaVersion_def)

lemma no_addon_states:
  assumes "no_addon r (s_instance s)" "cooperative E applied"
  shows "sFnHandleAddon r s = (Ret (switchState SFnGuardAddonInUse), r, s)"
    and "sFnGuardAddonInUse L E r s = (Ret (switchState SFnDeleteAddon), log_req (ReqList httpScaledObjectGVK) r, s)"
    and "sFnDeleteAddon L E r s = (Ret stopWithNoRequeue, r,
      addon_condition L E r ''False'' ''HTTPAddonDisabled'' ''HTTP add-on is disabled'' s)"
  using assms(1) cooperativeD(5) [OF assms(2)]
  by (simp_all add: no_addon_def sFnHandleAddon_def sFnGuardAddonInUse_def sFnDeleteAddon_def Let_def)

lemma no_addon_meta:
  "k_Meta k = k_Meta v \<Longrightarrow> f_AddonObjs r' = f_AddonObjs r \<Longrightarrow> no_addon r' k \<longleftrightarrow> no_addon r v"
  by (simp add: no_addon_def ReadAddonCfg_def)

text \<open>
  A run on a resource that is to be installed comes to the state of the add-on with the module verified; what that
  and the following states make of the resource is then reported.
\<close>

definition verified_report :: "k8s_lib \<Rightarrow> time \<Rightarrow> string \<Rightarrow> Keda \<Rightarrow> Keda" where
  "verified_report L t version k =
     UpdateStateReady L t ''Installed'' ''Verified'' ''keda-operator and keda-operator-metrics-server ready''
       (set_KedaVersion version (RemoveCondition L ''DeploymentFailure'' k))"

lemma verified_reaches:
  assumes co: "cooperative E applied" and i: "installable L E applied r v us"
  shows "\<exists>t version r2 s3. reaches L E (SFnUpdateKedaDeployment, r, saveKedaStatus (init_state v)) (SFnHandleAddon, r2, s3)
    \<and> s_instance s3 = verified_report L t version (map_logging sanitize_logging v) \<and> s_snapshot s3 = k_Status v
    \<and> f_hist r2 = f_hist r @ map ReqPatch (map (patched L E) us) \<and> f_AddonObjs r2 = f_AddonObjs r"
proof -
  let ?s0 = "saveKedaStatus (init_state v)" and ?k = "shared v"
  let ?r1 = "r\<lparr>f_Objs := us\<rparr>" and ?s1 = "set_instance ?k ?s0"
  have i': "upd_all (Stability.configured L (f_APIServerIP r) v) (f_Objs r) us" "\<not> list_ex (panics L E) (f_Objs ?r1)"
    "\<not> list_ex (image_failed L E) (f_Objs ?r1)" "all_ready L (map (applied \<circ> patched L E) us)"
    using i by (simp_all add: installable_def)
  have v: "s_instance ?s0 = v" "s_objs ?s0 = []" "s_snapshot ?s0 = k_Status v" by (simp_all add: saveKedaStatus_def)
  have "reaches L E (SFnUpdateKedaDeployment, r, ?s0) (SFnApply, ?r1, ?s1)"
    using i'(1) v(1) by (auto simp: reaches_Apply)
  moreover obtain vs where a: "sFnApply L E ?r1 ?s1 = (Ret (switchState SFnVerify),
      ?r1\<lparr>f_hist := f_hist ?r1 @ map ReqPatch (map (patched L E) (f_Objs ?r1)), f_Objs := vs\<rparr>,
      ?s1\<lparr>s_objs := s_objs ?s1 @ map (applied \<circ> patched L E) (f_Objs ?r1)\<rparr>)"
    using Apply_cooperative [OF co i'(2,3)] by blast
  let ?r2 = "?r1\<lparr>f_hist := f_hist ?r1 @ map ReqPatch (map (patched L E) (f_Objs ?r1)), f_Objs := vs\<rparr>"
  let ?s2 = "?s1\<lparr>s_objs := s_objs ?s1 @ map (applied \<circ> patched L E) (f_Objs ?r1)\<rparr>"
  obtain version where b: "sFnVerify L E ?r2 ?s2 = (Ret (switchState SFnHandleAddon), ?r2,
      set_instance (verified_report L (e_now E (f_hist ?r2)) version (s_instance ?s2)) ?s2)"
    using Verify_ready [of L ?s2 E ?r2] i'(4) v(2) by (auto simp: verified_report_def)
  let ?s3 = "set_instance (verified_report L (e_now E (f_hist ?r2)) version (s_instance ?s2)) ?s2"
  have "reaches L E (SFnVerify, ?r2, ?s2) (SFnHandleAddon, ?r2, ?s3)"
    by (rule reaches_switch [OF _ reaches.here]) (simp only: exec.simps b)
  then have "reaches L E (SFnApply, ?r1, ?s1) (SFnHandleAddon, ?r2, ?s3)"
    by (rule reaches_switch [rotated]) (simp only: exec.simps a)
  ultimately have "reaches L E (SFnUpdateKedaDeployment, r, ?s0) (SFnHandleAddon, ?r2, ?s3)"
    by (rule reaches_trans)
  then show ?thesis
    by (rule exI [of _ "e_now E (f_hist ?r2)", OF exI [of _ version, OF exI [of _ ?r2, OF exI [of _ ?s3, OF conjI]]]])
       (simp add: v shared_sanitized)
qed

lemma reported_run:
  assumes co: "cooperative E applied" and ok: "install_ok L r v"
    and to: "reaches L E (SFnUpdateKedaDeployment, r, saveKedaStatus (init_state v)) (SFnHandleAddon, r2, s3)"
    and add: "reaches L E (SFnHandleAddon, r2, s3) (SFnUpdateStatus None None, r4, s4)" and snap: "s_snapshot s4 = k_Status v"
  shows "\<exists>r' s'. Run L E r v = (Ret (\<lparr>r_Requeue = False, r_RequeueAfter = 0\<rparr>, None), r', s') \<and> s_instance s' = s_instance s4
    \<and> f_hist r' = f_hist r4 @ ReqStatusUpdate (s_instance s4)
        # map event_of (filter (\<lambda>c. \<not> unchanged L (k_Status v) c) (st_Conditions (k_Status (s_instance s4))))"
proof -
  note E = cooperativeD [OF co]
  from run_loop_reaches [OF E(1) reaches_trans [OF to add], of 4 None 0 None]
  have "run_loop L E 0 (Some SFnServedFilter) None r (init_state v) = run_loop L E 0 (Some (SFnUpdateStatus None None)) None r4 s4"
    by (simp only: run_to_update [OF ok E(1)] fst_conv snd_conv)
  then show ?thesis
    unfolding Run_def by (simp add: E sFnUpdateStatus_def sFnEmitEventfunc_def emit_loop_eq snap)
qed

lemma ready_run:
  assumes co: "cooperative E applied" and ok: "install_ok L r v" and na: "no_addon r v"
    and i: "installable L E applied r v us"
  shows "\<exists>t1 t2 version r' s' k. Run L E r v = (Ret (\<lparr>r_Requeue = False, r_RequeueAfter = 0\<rparr>, None), r', s')
    \<and> s_instance s' = k \<and> k = ready_report L t1 t2 version (map_logging sanitize_logging v)
    \<and> f_hist r' = f_hist r @ map ReqPatch (map (patched L E) us) @ [ReqList httpScaledObjectGVK, ReqStatusUpdate k]
        @ map event_of (filter (\<lambda>c. \<not> unchanged L (k_Status v) c) (st_Conditions (k_Status k)))"
proof -
  obtain t version r2 s3 where to: "reaches L E (SFnUpdateKedaDeployment, r, saveKedaStatus (init_state v)) (SFnHandleAddon, r2, s3)"
    and s3: "s_instance s3 = verified_report L t version (map_logging sanitize_logging v)" "s_snapshot s3 = k_Status v"
    and r2: "f_hist r2 = f_hist r @ map ReqPatch (map (patched L E) us)" "f_AddonObjs r2 = f_AddonObjs r"
    using verified_reaches [OF co i] by blast
  let ?r3 = "log_req (ReqList httpScaledObjectGVK) r2"
  have na3: "no_addon r2 (s_instance s3)" "no_addon ?r3 (s_instance s3)"
    using na s3(1) r2(2) by (simp_all add: no_addon_def ReadAddonCfg_def verified_report_def log_req_def map_logging_def)
  let ?s4 = "addon_condition L E ?r3 ''False'' ''HTTPAddonDisabled'' ''HTTP add-on is disabled'' s3"
  have "reaches L E (SFnDeleteAddon, ?r3, s3) (SFnUpdateStatus None None, ?r3, ?s4)"
    by (rule reaches_stop) (simp only: exec.simps no_addon_states(3) [OF na3(2) co])
  then have "reaches L E (SFnGuardAddonInUse, r2, s3) (SFnUpdateStatus None None, ?r3, ?s4)"
    by (rule reaches_switch [rotated]) (simp only: exec.simps no_addon_states(2) [OF na3(1) co])
  then have add: "reaches L E (SFnHandleAddon, r2, s3) (SFnUpdateStatus None None, ?r3, ?s4)"
    by (rule reaches_switch [rotated]) (simp only: exec.simps no_addon_states(1) [OF na3(1) co])
  let ?k = "ready_report L t (e_now E (f_hist ?r3)) version (map_logging sanitize_logging v)"
  have s4: "s_snapshot ?s4 = k_Status v" "s_instance ?s4 = ?k"
    by (simp_all add: addon_condition_def s3 ready_report_def verified_report_def)
  obtain r' s' where "Run L E r v = (Ret (\<lparr>r_Requeue = False, r_RequeueAfter = 0\<rparr>, None), r', s')" "s_instance s' = ?k"
    "f_hist r' = f_hist ?r3 @ ReqStatusUpdate ?k # map event_of (filter (\<lambda>c. \<not> unchanged L (k_Status v) c) (st_Conditions (k_Status ?k)))"
    using reported_run [OF co ok to add s4(1)] unfolding s4(2) by blast
  with r2(1) show ?thesis
    by (intro exI [of _ t] exI [of _ "e_now E (f_hist ?r3)"] exI [of _ version] exI [of _ r'] exI [of _ s'] exI [of _ ?k]) simp
qed

section \<open>What is reported\<close>

definition has_condition :: "k8s_lib \<Rightarrow> Keda \<Rightarrow> string \<Rightarrow> string \<Rightarrow> string \<Rightarrow> string \<Rightarrow> bool" where
  "has_condition L k t status reason msg \<longleftrightarrow>
     (\<exists>c. FindStatusCondition L (st_Conditions (k_Status k)) t = Some c
        \<and> cond_Status c = status \<and> cond_Reason c = reason \<and> cond_Message c = msg)"

definition module_ready :: "k8s_lib \<Rightarrow> Keda \<Rightarrow> bool" where
  "module_ready L k \<longleftrightarrow> st_State (k_Status k) = ''Ready''
     \<and> has_condition L k ''Installed'' ''True'' ''Verified'' ''keda-operator and keda-operator-metrics-server ready''
     \<and> has_condition L k ''AddonInstalled'' ''False'' ''HTTPAddonDisabled'' ''HTTP add-on is disabled''"

lemma find_set_condition:
  assumes "conditions_doc L"
  shows "\<exists>c. find (\<lambda>d. cond_Type d = t) (st_Conditions (k_Status (set_condition L (mk_condition t x now y z) k))) = Some c
      \<and> cond_Status c = x \<and> cond_Reason c = y \<and> cond_Message c = z"
    and "u \<noteq> t \<Longrightarrow> find (\<lambda>d. cond_Type d = u) (st_Conditions (k_Status (set_condition L (mk_condition t x now y z) k)))
      = find (\<lambda>d. cond_Type d = u) (st_Conditions (k_Status k))"
proof -
  let ?c = "mk_condition t x now y z"
  have t: "cond_Type ?c = t" by (simp add: mk_condition_def)
  obtain c' where c': "find (\<lambda>d. cond_Type d = cond_Type ?c) (SetStatusCondition L (st_Conditions (k_Status k)) ?c) = Some c'"
    "same_content c' ?c" using assms unfolding conditions_doc_def by blast
  then show "\<exists>c. find (\<lambda>d. cond_Type d = t) (st_Conditions (k_Status (set_condition L ?c k))) = Some c
      \<and> cond_Status c = x \<and> cond_Reason c = y \<and> cond_Message c = z"
    by (simp add: set_condition_def t same_content_def) (simp add: mk_condition_def)
  have "filter (\<lambda>d. cond_Type d \<noteq> cond_Type ?c) (SetStatusCondition L (st_Conditions (k_Status k)) ?c)
      = filter (\<lambda>d. cond_Type d \<noteq> cond_Type ?c) (st_Conditions (k_Status k))"
    using assms unfolding conditions_doc_def by blast
  from find_other [OF this [unfolded t]] show "u \<noteq> t \<Longrightarrow>
      find (\<lambda>d. cond_Type d = u) (st_Conditions (k_Status (set_condition L ?c k))) = find (\<lambda>d. cond_Type d = u) (st_Conditions (k_Status k))"
    by (simp add: set_condition_def)
qed

lemma removed_conditions:
  "conditions_doc L \<Longrightarrow> st_Conditions (k_Status (RemoveCondition L t k)) = filter (\<lambda>d. cond_Type d \<noteq> t) (st_Conditions (k_Status k))"
  by (simp add: RemoveCondition_def conditions_doc_def)

lemma status_frame [simp]:
  "st_Conditions (k_Status (set_state x k)) = st_Conditions (k_Status k)"
  "st_Conditions (k_Status (set_KedaVersion y k)) = st_Conditions (k_Status k)"
  "st_State (k_Status (set_condition L c k)) = st_State (k_Status k)" "st_State (k_Status (set_state x k)) = x"
  by (simp_all add: set_state_def set_KedaVersion_def set_condition_def)

lemma ready_report_finds:
  assumes doc: "conditions_doc L"
  shows "module_ready L (ready_report L t1 t2 version k)"
    and "u \<notin> {''Installed'', ''AddonInstalled'', ''DeploymentFailure''} \<Longrightarrow>
      find (\<lambda>d. cond_Type d = u) (st_Conditions (k_Status (ready_report L t1 t2 version k)))
      = find (\<lambda>d. cond_Type d = u) (st_Conditions (k_Status k))"
    and "find (\<lambda>d. cond_Type d = ''DeploymentFailure'') (st_Conditions (k_Status (ready_report L t1 t2 version k))) = None"
  using find_set_condition [OF doc] removed_conditions [OF doc]
  by (simp_all add: module_ready_def has_condition_def Find_doc [OF doc] ready_report_def SetAddonCondition_def
      UpdateStateReady_def find_filter)

section \<open>The two runs before\<close>

lemma served_run:
  assumes co: "cooperative E applied" and "\<not> served v"
    and "e_list_kedas E (f_hist r) = Inr ks" "\<forall>x\<in>set ks. st_Served (k_Status x) \<noteq> ''True''"
  shows "\<exists>r' s'. Run L E r v = (Ret (\<lparr>r_Requeue = True, r_RequeueAfter = 0\<rparr>, None), r', s')
    \<and> s_instance s' = UpdateServed ''True'' v
    \<and> (\<exists>cs. r' = r\<lparr>f_hist := f_hist r @ [ReqListKedas, ReqStatusUpdate (UpdateServed ''True'' v)] @ map event_of cs\<rparr>)"
proof -
  have "find (\<lambda>k. st_Served (k_Status k) = ''True'') ks = None" using assms(4) by (simp add: find_None_iff)
  with assms(3) have "unserved_report L E (f_hist r) v = UpdateServed ''True'' v" by (simp add: unserved_report_def)
  then show ?thesis
    using assms(3) by (auto simp: Run_def unserved_filter [OF assms(2)] cooperativeD [OF co] stop_defs sFnUpdateStatus_def
        sFnEmitEventfunc_def emit_loop_eq log_req_def)
qed

lemma finalizer_run:
  assumes co: "cooperative E applied" and "served v" "\<not> deleting v" "\<not> has_finalizer L r v"
  shows "\<exists>r' s' t k cs. Run L E r v = (Ret (\<lparr>r_Requeue = True, r_RequeueAfter = 0\<rparr>, None), r', s')
    \<and> k = set_finalizers (AddFinalizer L (meta_Finalizers (k_Meta v)) (f_Finalizer r)) v
    \<and> s_instance s' = UpdateStateProcessing L t ''Installed'' ''Initialized'' ''initialized'' k
    \<and> r' = r\<lparr>f_hist := f_hist r @ [ReqUpdate k, ReqStatusUpdate (s_instance s')] @ map event_of cs\<rparr>"
  using assms
  by (auto simp: Run_def cooperativeD [OF co] stop_defs sFnServedFilter_def sFnTakeSnapshot_def sFnInitialize_def
      client_Update_def served_def deleting_def has_finalizer_def saveKedaStatus_def sFnUpdateStatus_def
      sFnEmitEventfunc_def emit_loop_eq log_req_def Let_def set_instance_def init_state_def)

lemma configured_spec:
  "k_Spec k = k_Spec v \<Longrightarrow> Stability.configured L ip k = Stability.configured L ip v"
  by (simp add: Stability.configured_def operator_update_def metrics_update_def webhooks_update_def operator_steps_def
      metrics_steps_def webhooks_steps_def data_defs loggingOperatorCfg_def loggingMetricsSrvCfg_def
      loggingAdmissionWebhookCfg_def cong: option.case_cong)

lemma installable_cong:
  "f_APIServerIP r' = f_APIServerIP r \<Longrightarrow> f_Objs r' = f_Objs r \<Longrightarrow> k_Spec k = k_Spec v \<Longrightarrow>
   installable L E applied r' k us \<longleftrightarrow> installable L E applied r v us"
  using configured_spec [of k v] by (simp add: installable_def)

section \<open>The steady state\<close>

text \<open>Conditions are kept as a map from their types.\<close>

definition distinct_doc :: "k8s_lib \<Rightarrow> bool" where
  "distinct_doc L \<longleftrightarrow> (\<forall>cs c. distinct (map cond_Type cs) \<longrightarrow> distinct (map cond_Type (SetStatusCondition L cs c)))"

lemma distinct_find: "distinct (map cond_Type cs) \<Longrightarrow> c \<in> set cs \<Longrightarrow> find (\<lambda>d. cond_Type d = cond_Type c) cs = Some c"
  by (induction cs) (auto simp: image_iff)

lemma ready_report_distinct:
  assumes "distinct_doc L" "conditions_doc L" "distinct (map cond_Type (st_Conditions (k_Status k)))"
  shows "distinct (map cond_Type (st_Conditions (k_Status (ready_report L t1 t2 version k))))"
  using assms by (simp add: distinct_doc_def ready_report_def SetAddonCondition_def UpdateStateReady_def set_condition_def
      set_state_def set_KedaVersion_def RemoveCondition_def conditions_doc_def distinct_map_filter)

lemma ready_unchanged:
  assumes docs: "conditions_doc L" "distinct_doc L" and v: "module_ready L v" "distinct (map cond_Type (st_Conditions (k_Status v)))"
    and k: "k = ready_report L t1 t2 version v'" "k_Status v' = k_Status v" and c: "c \<in> set (st_Conditions (k_Status k))"
  shows "unchanged L (k_Status v) c"
proof -
  have "distinct (map cond_Type (st_Conditions (k_Status k)))"
    using ready_report_distinct [OF docs(2,1)] v(2) k by simp
  then have f: "find (\<lambda>d. cond_Type d = cond_Type c) (st_Conditions (k_Status k)) = Some c" using c by (rule distinct_find)
  have r: "module_ready L k" using ready_report_finds(1) [OF docs(1)] k(1) by simp
  have "cond_Type c \<noteq> ''DeploymentFailure''" using f ready_report_finds(3) [OF docs(1)] k(1) by auto
  then consider "cond_Type c = ''Installed'' \<or> cond_Type c = ''AddonInstalled''"
    | "cond_Type c \<notin> {''Installed'', ''AddonInstalled'', ''DeploymentFailure''}" by blast
  then show ?thesis
  proof cases
    case 1
    with f r v(1) show ?thesis by (auto simp: module_ready_def has_condition_def Find_doc [OF docs(1)] unchanged_def)
  next
    case 2
    from ready_report_finds(2) [OF docs(1) this, of t1 t2 version v'] f k
    show ?thesis by (simp add: unchanged_def Find_doc [OF docs(1)])
  qed
qed


section \<open>A concrete installation\<close>

lemma ref_images: "updateImagesInDeployments ref_lib (e_getenv ref_env) u =
    Ret (if fmlookup u ''kind'' = Some (JStr ''Deployment'') then enc_deployment (dec_deployment u) else u, None)"
  by (simp add: updateImagesInDeployments_def updateImageIfOverride_def ref_lib_simps ref_env_simps Let_def)

lemma ref_labels [simp]: "smap_at (enc_deployment d) labelsPath = nil_if_empty (d_Labels d)"
  by (simp add: dec_labels [symmetric] enc_deployment_inv omit_empty_def)

text \<open>What is sent for a deployment and for a network policy.\<close>

lemma ref_patched_deployment:
  assumes "nil_if_empty (d_Labels d) = Some f"
  shows "\<not> panics ref_lib ref_env (enc_deployment d)" "\<not> image_failed ref_lib ref_env (enc_deployment d)"
    and "\<exists>d'. patched ref_lib ref_env (enc_deployment d) = enc_deployment d' \<and> d_Conditions d' = d_Conditions d
      \<and> d_APIVersion d' = d_APIVersion d"
proof -
  have k: "fmlookup (enc_deployment d) ''kind'' = Some (JStr ''Deployment'')" by (simp add: enc_deployment_def)
  obtain u2 where p: "snd (prepare ref_lib ref_env (enc_deployment d)) = updateImagesInDeployments ref_lib (e_getenv ref_env) u2"
    and g: "\<And>p. fork [''metadata'', ''labels''] p \<Longrightarrow> fork [''metadata'', ''annotations''] p \<Longrightarrow>
        json_get (JMap u2) p = json_get (JMap (enc_deployment d)) p"
  proof (rule prepare_labelled [OF ref_unstructured_doc, of "enc_deployment d" f ref_env], goal_cases)
    case 1 show ?case using assms by simp
  next
    case (2 u2) then show ?case using k by simp
  qed
  have c: "fmlookup u2 x = fmlookup (enc_deployment d) x" if "x \<noteq> ''metadata''" for x
    using g [of "[x]"] that unfolding json_get_single by simp
  have "snd (prepare ref_lib ref_env (enc_deployment d)) = Ret (enc_deployment (dec_deployment u2), None)"
    using p k c [of "''kind''"] by (simp add: ref_images)
  moreover have "d_Conditions (dec_deployment u2) = d_Conditions (dec_deployment (enc_deployment d))"
    using c [of "''status''"] by (simp add: dec_deployment_def Let_def fld_obj_def)
  then have "d_Conditions (dec_deployment u2) = d_Conditions d" by (simp add: enc_deployment_inv omit_empty_def)
  moreover have "d_APIVersion (dec_deployment u2) = d_APIVersion (dec_deployment (enc_deployment d))"
    using c [of "''apiVersion''"] by (simp add: dec_deployment_def Let_def fld_str_def)
  then have "d_APIVersion (dec_deployment u2) = d_APIVersion d" by (simp add: enc_deployment_inv omit_empty_def)
  ultimately show "\<not> panics ref_lib ref_env (enc_deployment d)" "\<not> image_failed ref_lib ref_env (enc_deployment d)"
    "\<exists>d'. patched ref_lib ref_env (enc_deployment d) = enc_deployment d' \<and> d_Conditions d' = d_Conditions d
      \<and> d_APIVersion d' = d_APIVersion d"
    by (auto simp: panics_def image_failed_def patched_def)
qed

lemma ref_patched_policy:
  assumes "smap_at (enc_policy p) labelsPath = Some f"
  shows "\<not> panics ref_lib ref_env (enc_policy p) \<and> \<not> image_failed ref_lib ref_env (enc_policy p)
    \<and> \<not> isDeployment ref_lib (patched ref_lib ref_env (enc_policy p))"
proof (rule prepare_labelled [OF ref_unstructured_doc assms, of ref_env], goal_cases)
  case (1 u2)
  have "json_get (JMap u2) [''kind''] = json_get (JMap (enc_policy p)) [''kind'']" by (rule 1(4)) simp_all
  then have k: "fmlookup u2 ''kind'' = Some (JStr ''NetworkPolicy'')"
    unfolding json_get_single by (simp add: enc_policy_def)
  then have "str_at u2 [''kind''] = ''NetworkPolicy''" by (simp add: str_at_def)
  then have "\<not> isDeployment ref_lib u2" by (simp add: isDeployment_def ref_lib_simps)
  moreover have "prepare ref_lib ref_env (enc_policy p) = (u2, Ret (u2, None))"
    using 1(1) by (simp add: enc_policy_def)
  ultimately show ?case by (simp add: panics_def image_failed_def patched_def)
qed

lemma ref_all_ready:
  assumes "\<forall>d\<in>{d1, d2, d3}. nil_if_empty (d_Labels d) \<noteq> None \<and> d_Conditions d = [JStr ''Available''] \<and> d_APIVersion d = ''apps/v1''"
    and "smap_at (enc_policy p) labelsPath \<noteq> None"
    and "us = [enc_deployment d1, enc_deployment d2, enc_deployment d3, enc_policy p]"
  shows "\<not> list_ex (panics ref_lib ref_env) us \<and> \<not> list_ex (image_failed ref_lib ref_env) us
    \<and> all_ready ref_lib (map (id \<circ> patched ref_lib ref_env) us)"
proof -
  have d: "\<not> panics ref_lib ref_env (enc_deployment d) \<and> \<not> image_failed ref_lib ref_env (enc_deployment d)
      \<and> (\<exists>d'. patched ref_lib ref_env (enc_deployment d) = enc_deployment d' \<and> d_Conditions d' = [JStr ''Available''] \<and> d_APIVersion d' = ''apps/v1'')"
    if "d \<in> {d1, d2, d3}" for d
    using assms(1) that ref_patched_deployment [of d] by (cases "nil_if_empty (d_Labels d)") auto
  obtain e1 e2 e3 where "patched ref_lib ref_env (enc_deployment d1) = enc_deployment e1" "d_Conditions e1 = [JStr ''Available''] \<and> d_APIVersion e1 = ''apps/v1''"
    "patched ref_lib ref_env (enc_deployment d2) = enc_deployment e2" "d_Conditions e2 = [JStr ''Available''] \<and> d_APIVersion e2 = ''apps/v1''"
    "patched ref_lib ref_env (enc_deployment d3) = enc_deployment e3" "d_Conditions e3 = [JStr ''Available''] \<and> d_APIVersion e3 = ''apps/v1''"
    using d [of d1] d [of d2] d [of d3] by auto
  moreover have "d_Conditions (omit_empty e) = d_Conditions e" for e by (simp add: omit_empty_def)
  ultimately have "all_ready ref_lib (map (id \<circ> patched ref_lib ref_env) us)"
    using assms(2,3) ref_patched_policy [of p]
    by (auto simp: all_ready_def ref_lib_simps enc_deployment_inv hasDeployReplicaFailure_def)
  then show ?thesis using d assms(2,3) ref_patched_policy [of p] by auto
qed

lemma ref_policy_labels: "np_rest p = np_rest ref_policy \<Longrightarrow> smap_at (enc_policy p) labelsPath \<noteq> None"
  by (simp add: smap_at_def enc_policy_def ref_policy_def jmap_def of_smap_def)

text \<open>The deployment of the given name as the phase leaves it.\<close>

definition ref_done :: "string \<Rightarrow> EnvVars \<Rightarrow> Deployment" where
  "ref_done name env = (ref_deployment name)\<lparr>d_TemplateLabels := Some (fmupd ''sidecar.istio.io/inject'' (FormatBool False)
      (with_common_labels (fmap_of_list [(''app'', name)]))), d_PriorityClassName := ''keda-priority-class'',
      d_Containers := [ref_container\<lparr>c_Env := env\<rparr>]\<rparr>"

lemma ref_policy_same [simp]: "ref_policy\<lparr>np_Ingress := []\<rparr> = ref_policy"
  by (simp add: ref_policy_def)

lemma ref_installable:
  "installable ref_lib ref_env id (ref_fsm\<lparr>f_Objs := ref_objects\<rparr>) ref_keda
     [enc_deployment (ref_done ''keda-operator'' (EnvVars_Sanitize [])), enc_deployment (ref_done ''keda-operator-metrics-apiserver'' (EnvVars_Sanitize [])),
      enc_deployment (ref_done ''keda-admission-webhooks'' []), enc_policy ref_policy]"
proof -
  have "upd_all (Stability.configured ref_lib ip ref_keda) ref_objects
     [enc_deployment (ref_done ''keda-operator'' (EnvVars_Sanitize [])), enc_deployment (ref_done ''keda-operator-metrics-apiserver'' (EnvVars_Sanitize [])),
      enc_deployment (ref_done ''keda-admission-webhooks'' []), enc_policy ref_policy]" for ip
    by (simp add: Stability.configured_def upd_first_eval operator_update_def metrics_update_def webhooks_update_def
      policy_update_def ref_objects_def object_predicates ref_lib_simps ref_isDeployment_policy
      ref_isWebhook deployment_not_policy ref_steps ref_deployment_def ref_policy_ingress ref_done_def
      ref_container_def omit_empty_def nil_if_empty_def container0_def)
  then show ?thesis
    using ref_all_ready [of "ref_done ''keda-operator'' (EnvVars_Sanitize [])" "ref_done ''keda-operator-metrics-apiserver'' (EnvVars_Sanitize [])"
        "ref_done ''keda-admission-webhooks'' []" ref_policy, OF _ ref_policy_labels refl]
    by (simp add: installable_def ref_done_def ref_deployment_def nil_if_empty_def)
qed

definition ref_installed :: "obj list" where
  "ref_installed = [enc_deployment (ref_done ''keda-operator'' (EnvVars_Sanitize [])),
     enc_deployment (ref_done ''keda-operator-metrics-apiserver'' (EnvVars_Sanitize [])),
     enc_deployment (ref_done ''keda-admission-webhooks'' []), enc_policy ref_policy]"

lemma ref_cooperative: "cooperative ref_env id"
  by (simp add: cooperative_def ref_env_simps httpScaledObjectsInUse_def client_List_def)

lemma ref_distinct_doc: "distinct_doc ref_lib"
proof -
  have t: "set (map cond_Type (ref_replace cs c)) \<subseteq> insert (cond_Type c) (set (map cond_Type cs))" for cs c
    by (induction cs c rule: ref_replace.induct) auto
  have "distinct (map cond_Type cs) \<Longrightarrow> distinct (map cond_Type (ref_replace cs c))" for cs c
  proof (induction cs c rule: ref_replace.induct)
    case (2 d ds c)
    then show ?case using t [of ds c] by auto
  qed simp
  then show ?thesis by (simp add: distinct_doc_def ref_lib_simps)
qed

text \<open>The resource as the third reconciliation leaves it.\<close>

definition ref_ready :: Keda where
  "ref_ready = ref_keda\<lparr>k_Status := \<lparr>st_State = ''Ready'', st_Served = ''True'', st_KedaVersion = [], st_Conditions =
     [mk_condition ''Installed'' ''True'' 3 ''Verified'' ''keda-operator and keda-operator-metrics-server ready'',
      mk_condition ''AddonInstalled'' ''False'' 3 ''HTTPAddonDisabled'' ''HTTP add-on is disabled'']\<rparr>\<rparr>"


end
