(* ===== verification/Store_Runs.thy ===== *)
theory Store_Runs
  imports Keda_Store
begin

text \<open>
  Reconciliations of a Keda resource against the store of \<open>Keda_Store\<close>, one and a series of them.  The locale
  \<open>progress\<close> is the contract of a task that takes several: as long as steps of it are left, a reconciliation does one
  and asks for another.
\<close>

section \<open>Reconciliations against the store\<close>

definition stored_run :: "k8s_lib \<Rightarrow> env \<Rightarrow> string \<times> string \<Rightarrow> store \<times> kedaReconciler
    \<Rightarrow> (Result \<times> goerror option) go \<times> store \<times> kedaReconciler" where
  "stored_run L E q x =
     (case Reconcile L E (snd x) q of
        (out, c') \<Rightarrow> (out, written E (f_hist (snd x)) (drop (length (f_hist (snd x))) (f_hist c')) (fst x), c'))"

text \<open>The API answers, from the store.\<close>

definition serves :: "env \<Rightarrow> kedaReconciler \<Rightarrow> string \<times> string \<Rightarrow> store \<Rightarrow> bool" where
  "serves E c q st \<longleftrightarrow> (\<exists>k. e_get E (f_hist c) (fst q) (snd q) = Inr k)
     \<and> (\<exists>ks. e_list_kedas E (f_hist c @ [ReqGet (fst q) (snd q)]) = Inr ks)
     \<and> Keda_Store.answers E (f_hist c) q st"

lemma serves_get: "serves E c q st \<Longrightarrow> st q = Some k \<Longrightarrow> e_get E (f_hist c) (fst q) (snd q) = Inr k"
  by (auto simp: serves_def Keda_Store.answers_def)

text \<open>Such a reconciliation is a step of the store's state machine in which the cache is up to date, before and after.\<close>

lemma Reconcile_extends:
  assumes "Reconcile L E c q = (out, c')"
  shows "\<exists>qs. f_hist c' = f_hist c @ qs"
proof (cases "e_get E (f_hist c) (fst q) (snd q)")
  case (Inr v)
  let ?c = "log_req (ReqGet (fst q) (snd q)) c"
  have "f_hist c' = f_hist (fst (snd (Run L E ?c v)))"
    using assms Inr by (auto simp: Reconcile_def Let_def NewFsm_def after_run_def split: prod.splits)
  moreover have "hist_ext (\<lambda>q. True) ?c (fst (snd (Run L E ?c v)))"
    by (rule hist_ext_mono [OF run_permitted]) simp
  ultimately show ?thesis by (auto simp: hist_ext_def)
qed (use assms in \<open>auto simp: Reconcile_def Let_def\<close>)

lemma stored_run_step:
  assumes "update_doc E" "serves E c q st" "stored_run L E q (st, c) = (out, st', c')"
  shows "(sys_step L served_seen)\<^sup>*\<^sup>* (st, st, c) (st', st', c')"
proof -
  have r: "Reconcile L E c q = (out, c')" "st' = written E (f_hist c) (drop (length (f_hist c)) (f_hist c')) st"
    using assms(3) by (auto simp: stored_run_def split: prod.splits)
  have "f_hist c' = f_hist c @ drop (length (f_hist c)) (f_hist c')" using Reconcile_extends [OF r(1)] by auto
  from sys_step.reconciled [OF assms(1) _ _ _ r(1) this] assms(2) r(2)
  have "sys_step L served_seen (st, st, c) (st', st, c')" by (simp add: serves_def locked_def)
  moreover have "sys_step L served_seen (st', st, c') (st', st', c')" by (rule sys_step.caught_up) simp
  ultimately show ?thesis by simp
qed

text \<open>The calls made since.\<close>

definition calls_between :: "kedaReconciler \<Rightarrow> kedaReconciler \<Rightarrow> hist" where
  "calls_between c c' = drop (length (f_hist c)) (f_hist c')"

section \<open>What the store sees\<close>

lemma written_skip:
  "list_all (\<lambda>q. \<not> is_ReqUpdate q \<and> \<not> is_ReqStatusUpdate q) qs \<Longrightarrow>
   written E h (qs @ rs) st = written E (h @ qs) rs st"
proof (induction qs arbitrary: h)
  case (Cons q qs)
  then show ?case by (cases q) auto
qed simp

lemma written_quiet:
  "written E h (map event_of cs @ qs) st = written E (h @ map event_of cs) qs st"
  "written E h (map (ReqPatch \<circ> f) us @ qs) st = written E (h @ map (ReqPatch \<circ> f) us) qs st"
  by (simp_all add: written_skip list_all_iff event_of_def)

lemmas written_events = written_quiet(1) [of E h cs "[]" st for E h cs st, simplified]

lemma stored_run_eq:
  assumes "serves E c q st" "st q = Some v" "Run L E (log_req (ReqGet (fst q) (snd q)) c) v = (out, r', s')"
    and "f_hist r' = f_hist c @ ReqGet (fst q) (snd q) # qs"
  shows "stored_run L E q (st, c) = (out, written E (f_hist c @ [ReqGet (fst q) (snd q)]) qs st,
    c\<lparr>f_Objs := take (length (f_Objs c)) (f_Objs r'), f_hist := f_hist r'\<rparr>)"
  using serves_get [OF assms(1,2)] assms(3,4)
  by (simp add: stored_run_def Reconcile_def Let_def NewFsm_def after_run_def log_req_def)

lemma store_put:
  "st (key k) = Some old \<Longrightarrow> store_status k st = st(key k \<mapsto> old\<lparr>k_Status := k_Status k\<rparr>)"
  "st (key k) = Some old \<Longrightarrow> store_object k st = st(key k \<mapsto> k\<lparr>k_Status := k_Status old\<rparr>)"
  by (simp_all add: store_status_def store_object_def)

section \<open>A series of reconciliations\<close>

fun series :: "('e \<Rightarrow> 'x \<Rightarrow> 'o \<times> 'x) \<Rightarrow> 'e list \<Rightarrow> 'x \<Rightarrow> 'o list \<times> 'x" where
  "series step [] x = ([], x)"
| "series step (e # es) x = (case step e x of (out, y) \<Rightarrow> (case series step es y of (outs, z) \<Rightarrow> (out # outs, z)))"

text \<open>Each environment is as wanted at the state it finds.\<close>

fun along :: "('e \<Rightarrow> 'x \<Rightarrow> bool) \<Rightarrow> ('e \<Rightarrow> 'x \<Rightarrow> 'o \<times> 'x) \<Rightarrow> 'e list \<Rightarrow> 'x \<Rightarrow> bool" where
  "along P step [] x \<longleftrightarrow> True"
| "along P step (e # es) x \<longleftrightarrow> P e x \<and> along P step es (snd (step e x))"

lemma along_also: "along P step es x \<Longrightarrow> \<forall>e\<in>set es. Q e \<Longrightarrow> along (\<lambda>e x. Q e \<and> P e x) step es x"
  by (induction P step es x rule: along.induct) auto

locale progress =
  fixes step :: "'e \<Rightarrow> 'x \<Rightarrow> 'o \<times> 'x" and meets final :: "'e \<Rightarrow> 'x \<Rightarrow> bool" and inv :: "'x \<Rightarrow> bool" and left :: "'x \<Rightarrow> nat"
    and again finished :: 'o and goal :: "'e \<Rightarrow> 'x \<Rightarrow> 'x \<Rightarrow> bool"
  assumes step_again: "inv x \<Longrightarrow> meets e x \<Longrightarrow> left x \<noteq> 0 \<Longrightarrow> \<exists>y. step e x = (again, y) \<and> inv y \<and> Suc (left y) = left x
      \<and> (\<forall>f. final f x \<longrightarrow> final f y) \<and> (\<forall>f z. goal f y z \<longrightarrow> goal f x z)"
    and step_last: "inv x \<Longrightarrow> meets e x \<Longrightarrow> final e x \<Longrightarrow> left x = 0 \<Longrightarrow> \<exists>y. step e x = (finished, y) \<and> goal e x y"
begin

lemma completes:
  "inv x \<Longrightarrow> along meets step es x \<Longrightarrow> length es = Suc (left x) \<Longrightarrow> final (last es) x \<Longrightarrow> series step es x = (outs, y) \<Longrightarrow>
   outs = replicate (left x) again @ [finished] \<and> goal (last es) x y"
proof (induction "left x" arbitrary: es x outs)
  case 0
  then obtain e where "es = [e]" by (cases es) auto
  then show ?case using 0 step_last [of x e] by (auto split: prod.splits)
next
  case (Suc n)
  then obtain e es' where es: "es = e # es'" "es' \<noteq> []" by (cases es) force+
  have "inv x" "meets e x" "left x \<noteq> 0" using Suc.prems(1,2) Suc.hyps(2) es(1) by auto
  from step_again [OF this] obtain z where z: "step e x = (again, z)" "inv z" "Suc (left z) = left x"
    and keep: "\<forall>f. final f x \<longrightarrow> final f z" "\<forall>f y. goal f z y \<longrightarrow> goal f x y" by blast
  obtain outs' where o: "series step es' z = (outs', y)" "outs = again # outs'"
    using Suc.prems(5) es(1) z(1) by (auto split: prod.splits)
  have n: "n = left z" using Suc.hyps(2) z(3) by simp
  have "along meets step es' z" "length es' = Suc (left z)" "final (last es') z"
    using Suc.prems(2-4) es z(1,3) keep(1) by simp_all
  from Suc.hyps(1) [OF n z(2) this o(1)] show ?case using o(2) es(2) keep(2) by (simp add: es(1) z(3) [symmetric])
qed

end

text \<open>The series of reconciliations of a resource, on an API that answers from the store the ones before left.\<close>

abbreviation stored_runs :: "k8s_lib \<Rightarrow> env list \<Rightarrow> string \<times> string \<Rightarrow> store \<times> kedaReconciler
    \<Rightarrow> (Result \<times> goerror option) go list \<times> store \<times> kedaReconciler" where
  "stored_runs L Es q \<equiv> series (\<lambda>E. stored_run L E q) Es"

abbreviation all_serve :: "k8s_lib \<Rightarrow> env list \<Rightarrow> string \<times> string \<Rightarrow> store \<times> kedaReconciler \<Rightarrow> bool" where
  "all_serve L Es q \<equiv> along (\<lambda>E x. serves E (snd x) q (fst x)) (\<lambda>E. stored_run L E q) Es"

abbreviation ask_again :: "(Result \<times> goerror option) go" where
  "ask_again \<equiv> Ret (\<lparr>r_Requeue = True, r_RequeueAfter = 0\<rparr>, None)"

abbreviation all_done :: "(Result \<times> goerror option) go" where
  "all_done \<equiv> Ret (\<lparr>r_Requeue = False, r_RequeueAfter = 0\<rparr>, None)"

text \<open>The system whose cache is up to date.\<close>

definition up_to_date :: "store \<times> kedaReconciler \<Rightarrow> system" where
  "up_to_date x = (fst x, fst x, snd x)"

lemma stored_runs_steps:
  "\<forall>E\<in>set Es. update_doc E \<Longrightarrow> all_serve L Es q x \<Longrightarrow> stored_runs L Es q x = (outs, y) \<Longrightarrow>
   (sys_step L served_seen)\<^sup>*\<^sup>* (up_to_date x) (up_to_date y)"
proof (induction Es arbitrary: x outs)
  case (Cons E Es)
  obtain out x' where r: "stored_run L E q x = (out, x')" by (metis surj_pair)
  obtain outs' where rs: "stored_runs L Es q x' = (outs', y)" using Cons.prems(3) r by (auto split: prod.splits)
  have "(sys_step L served_seen)\<^sup>*\<^sup>* (up_to_date x) (up_to_date x')"
    using stored_run_step [of E "snd x" q "fst x" L out "fst x'" "snd x'"] Cons.prems(1,2) r
    by (simp add: up_to_date_def)
  moreover have "(sys_step L served_seen)\<^sup>*\<^sup>* (up_to_date x') (up_to_date y)"
    using Cons.IH [OF _ _ rs] Cons.prems(1,2) r by simp
  ultimately show ?case by simp
qed simp

end
