(* ===== verification/Install_Store.thy ===== *)
theory Install_Store
  imports Install_Progress Store_Runs
begin

text \<open>
  An installation as seen from the cluster: what each reconciliation makes of a Keda resource of the store, and
  that they come to a module that is ready, from any stage.  A new resource is Ready after three of them.
\<close>

lemma cooperative_update_doc: "cooperative E applied \<Longrightarrow> update_doc E"
  by (simp add: update_doc_def cooperativeD)

section \<open>The three reconciliations\<close>

lemma key_status [simp]: "key (UpdateServed x k) = key k" "key (set_finalizers fs k) = key k"
  "key (UpdateStateProcessing L t c y m k) = key k" "key (ready_report L t1 t2 version k) = key k"
  "key (map_logging f k) = key k"
  by (simp_all add: key_def UpdateServed_def set_finalizers_def map_logging_def status_defs ready_report_def set_KedaVersion_def)

lemma first_stored:
  assumes co: "cooperative E applied" and s: "serves E c q st" "st q = Some v" "key v = q"
    and "\<forall>k\<in>ran st. st_Served (k_Status k) \<noteq> ''True''" "\<not> served v"
  shows "\<exists>h. stored_run L E q (st, c) = (Ret (\<lparr>r_Requeue = True, r_RequeueAfter = 0\<rparr>, None),
    st(q \<mapsto> UpdateServed ''True'' v), c\<lparr>f_hist := h\<rparr>)"
proof -
  let ?g = "ReqGet (fst q) (snd q)"
  let ?r = "log_req ?g c" and ?k = "UpdateServed ''True'' v"
  obtain ks where ks: "e_list_kedas E (f_hist ?r) = Inr ks" "\<forall>x\<in>set ks. st_Served (k_Status x) \<noteq> ''True''"
    using s(1) assms(5) by (auto simp: serves_def Keda_Store.answers_def log_req_def)
  obtain r' s' cs where R: "Run L E ?r v = (Ret (\<lparr>r_Requeue = True, r_RequeueAfter = 0\<rparr>, None), r', s')"
    "r' = ?r\<lparr>f_hist := f_hist ?r @ [ReqListKedas, ReqStatusUpdate ?k] @ map event_of cs\<rparr>"
    using served_run [OF co assms(6) ks] by blast
  have "st(q \<mapsto> v\<lparr>k_Status := k_Status ?k\<rparr>) = st(q \<mapsto> ?k)" by (simp add: UpdateServed_def)
  then show ?thesis
    using stored_run_eq [OF s(1,2) R(1), of "[ReqListKedas, ReqStatusUpdate ?k] @ map event_of cs"] R(2) s(2,3)
    by (simp add: cooperativeD [OF co] written_events store_put log_req_def) blast
qed

lemma second_stored:
  assumes co: "cooperative E applied" and s: "serves E c q st" "st q = Some v" "key v = q"
    and "served v" "\<not> deleting v" "\<not> has_finalizer L c v"
  shows "\<exists>h t k. stored_run L E q (st, c) = (Ret (\<lparr>r_Requeue = True, r_RequeueAfter = 0\<rparr>, None), st(q \<mapsto> k), c\<lparr>f_hist := h\<rparr>)
    \<and> k = UpdateStateProcessing L t ''Installed'' ''Initialized'' ''initialized''
        (set_finalizers (AddFinalizer L (meta_Finalizers (k_Meta v)) (f_Finalizer c)) v)"
proof -
  let ?g = "ReqGet (fst q) (snd q)"
  let ?r = "log_req ?g c"
  have fin: "f_Finalizer ?r = f_Finalizer c" by (simp add: log_req_def)
  have "\<not> has_finalizer L ?r v" using assms(7) by (simp add: has_finalizer_def fin)
  from finalizer_run [OF co assms(5,6) this] obtain r' s' t k cs where
    R: "Run L E ?r v = (Ret (\<lparr>r_Requeue = True, r_RequeueAfter = 0\<rparr>, None), r', s')"
    and k: "k = set_finalizers (AddFinalizer L (meta_Finalizers (k_Meta v)) (f_Finalizer c)) v"
      "s_instance s' = UpdateStateProcessing L t ''Installed'' ''Initialized'' ''initialized'' k"
    and r': "r' = ?r\<lparr>f_hist := f_hist ?r @ [ReqUpdate k, ReqStatusUpdate (s_instance s')] @ map event_of cs\<rparr>"
    unfolding fin by blast
  have m: "k\<lparr>k_Status := k_Status (s_instance s')\<rparr> = s_instance s'"
    unfolding k(2) by (simp add: status_defs)
  have kk: "key k = q" "key (s_instance s') = q" using s(3) k by simp_all
  have "k\<lparr>k_Status := k_Status v\<rparr> = k" unfolding k(1) by (simp add: set_finalizers_def)
  then have "stored_run L E q (st, c) = (Ret (\<lparr>r_Requeue = True, r_RequeueAfter = 0\<rparr>, None), st(q \<mapsto> s_instance s'), c\<lparr>f_hist := f_hist r'\<rparr>)"
    using stored_run_eq [OF s(1,2) R, of "[ReqUpdate k, ReqStatusUpdate (s_instance s')] @ map event_of cs"] r' s(2) kk m
    by (simp add: cooperativeD [OF co] written_events store_put log_req_def)
  with k show ?thesis by blast
qed

lemma module_ready_status [simp]: "module_ready L (v\<lparr>k_Status := k_Status k\<rparr>) \<longleftrightarrow> module_ready L k"
  by (simp add: module_ready_def has_condition_def)

lemma third_stored:
  assumes co: "cooperative E applied" and doc: "conditions_doc L" and s: "serves E c q st" "st q = Some v" "key v = q"
    and "install_ok L c v" "no_addon c v" "installable L E applied c v us"
  shows "\<exists>c' k. stored_run L E q (st, c) = (Ret (\<lparr>r_Requeue = False, r_RequeueAfter = 0\<rparr>, None), st(q \<mapsto> v\<lparr>k_Status := k_Status k\<rparr>), c')
    \<and> module_ready L k \<and> (\<forall>u\<in>set us. ReqPatch (patched L E u) \<in> set (f_hist c'))"
proof -
  let ?r = "log_req (ReqGet (fst q) (snd q)) c"
  have "install_ok L ?r v" "no_addon ?r v" "installable L E applied ?r v us"
    using assms(6-8) installable_cong [of ?r c v v L E applied us]
    by (simp_all add: log_req_def install_ok_def has_finalizer_def no_addon_def)
  from ready_run [OF co this] obtain t1 t2 version r' s' k where
    R: "Run L E ?r v = (Ret (\<lparr>r_Requeue = False, r_RequeueAfter = 0\<rparr>, None), r', s')"
    and k: "k = ready_report L t1 t2 version (map_logging sanitize_logging v)"
    and h: "f_hist r' = f_hist ?r @ map ReqPatch (map (patched L E) us) @ [ReqList httpScaledObjectGVK, ReqStatusUpdate k]
        @ map event_of (filter (\<lambda>c. \<not> unchanged L (k_Status v) c) (st_Conditions (k_Status k)))"
    by blast
  have "key k = q" using s(3) k by simp
  have "module_ready L k" using ready_report_finds(1) [OF doc] k by simp
  moreover have "\<exists>c'. stored_run L E q (st, c) = (Ret (\<lparr>r_Requeue = False, r_RequeueAfter = 0\<rparr>, None), st(q \<mapsto> v\<lparr>k_Status := k_Status k\<rparr>), c')
      \<and> f_hist c' = f_hist r'"
    using stored_run_eq [OF s(1,2) R, of "map ReqPatch (map (patched L E) us) @ [ReqList httpScaledObjectGVK, ReqStatusUpdate k]
        @ map event_of (filter (\<lambda>c. \<not> unchanged L (k_Status v) c) (st_Conditions (k_Status k)))"] h s(2) \<open>key k = q\<close>
    by (simp add: log_req_def written_quiet written_events cooperativeD [OF co] store_put)
  ultimately show ?thesis using h by (auto simp: comp_def)
qed

section \<open>The stages of an installation\<close>

text \<open>A resource that may be installed, and what is left to do before the objects of the module are sent.\<close>

definition installs :: "string \<times> string \<Rightarrow> store \<times> kedaReconciler \<Rightarrow> Keda \<Rightarrow> bool" where
  "installs q x v \<longleftrightarrow> fst x q = Some v \<and> key v = q \<and> \<not> deleting v \<and> \<not> hasRestrictedAnnotations v \<and> no_addon (snd x) v
     \<and> (served v \<or> (\<forall>k\<in>ran (fst x). st_Served (k_Status k) \<noteq> ''True''))"

definition install_left :: "k8s_lib \<Rightarrow> fsm \<Rightarrow> Keda \<Rightarrow> nat" where
  "install_left L r v = (if served v then 0 else 1) + (if has_finalizer L r v then 0 else 1)"

lemma served_next: "served (UpdateServed ''True'' v)" "has_finalizer L r (UpdateServed x v) \<longleftrightarrow> has_finalizer L r v"
  "served (UpdateStateProcessing L t c y m (set_finalizers fs v)) \<longleftrightarrow> served v"
  "has_finalizer L r (UpdateStateProcessing L t c y m (set_finalizers fs v)) \<longleftrightarrow> ContainsFinalizer L fs (f_Finalizer r)"
  by (simp_all add: served_def IsServedEmpty_def UpdateServed_def has_finalizer_def set_finalizers_def status_defs)

lemma installs_next:
  assumes "installs q (st, c) v" "key k = q" "served k" "k_Spec k = k_Spec v"
    "meta_Annotations (k_Meta k) = meta_Annotations (k_Meta v)" "meta_DeletionTimestamp (k_Meta k) = meta_DeletionTimestamp (k_Meta v)"
  shows "installs q (st(q \<mapsto> k), c\<lparr>f_hist := h\<rparr>) k"
  using assms by (simp add: installs_def deleting_def hasRestrictedAnnotations_def no_addon_def ReadAddonCfg_def)

lemma install_continues:
  assumes co: "cooperative E applied" and doc: "finalizers_doc L" and x: "installs q (st, c) v" and s: "serves E c q st"
    and n: "install_left L c v \<noteq> 0"
  shows "\<exists>h k. stored_run L E q (st, c) = (ask_again, st(q \<mapsto> k), c\<lparr>f_hist := h\<rparr>)
    \<and> installs q (st(q \<mapsto> k), c\<lparr>f_hist := h\<rparr>) k \<and> Suc (install_left L c k) = install_left L c v \<and> k_Spec k = k_Spec v"
proof -
  have v: "st q = Some v" "key v = q" "\<not> deleting v" "\<not> served v \<Longrightarrow> \<forall>k\<in>ran st. st_Served (k_Status k) \<noteq> ''True''"
    using x by (simp_all add: installs_def)
  show ?thesis
  proof (cases "served v")
    case False
    let ?k = "UpdateServed ''True'' v"
    obtain h where "stored_run L E q (st, c) = (ask_again, st(q \<mapsto> ?k), c\<lparr>f_hist := h\<rparr>)"
      using first_stored [OF co s v(1,2) v(4) [OF False] False] by blast
    moreover have "installs q (st(q \<mapsto> ?k), c\<lparr>f_hist := h\<rparr>) ?k"
      by (rule installs_next [OF x]) (simp_all add: v(2) served_next, simp_all add: UpdateServed_def)
    moreover have "Suc (install_left L c ?k) = install_left L c v" "k_Spec ?k = k_Spec v"
      using False by (simp_all add: install_left_def served_next, simp add: UpdateServed_def)
    ultimately show ?thesis by blast
  next
    case True
    with n have f: "\<not> has_finalizer L c v" by (simp add: install_left_def split: if_splits)
    obtain h t k where run: "stored_run L E q (st, c) = (ask_again, st(q \<mapsto> k), c\<lparr>f_hist := h\<rparr>)"
      and k: "k = UpdateStateProcessing L t ''Installed'' ''Initialized'' ''initialized''
        (set_finalizers (AddFinalizer L (meta_Finalizers (k_Meta v)) (f_Finalizer c)) v)"
      using second_stored [OF co s v(1,2) True v(3) f] by blast
    have m: "k_Spec k = k_Spec v" "meta_Annotations (k_Meta k) = meta_Annotations (k_Meta v)"
      "meta_DeletionTimestamp (k_Meta k) = meta_DeletionTimestamp (k_Meta v)"
      by (simp_all add: k status_defs set_finalizers_def)
    have l: "served k" "has_finalizer L c k" "key k = q"
      using True doc v(2) by (simp_all add: k served_next finalizers_doc_def)
    with run installs_next [OF x l(3,1) m] f True m(1) show ?thesis by (auto simp: install_left_def)
  qed
qed

definition installed_by :: "k8s_lib \<Rightarrow> string \<times> string \<Rightarrow> obj list \<Rightarrow> env \<Rightarrow> store \<times> kedaReconciler \<Rightarrow> store \<times> kedaReconciler \<Rightarrow> bool" where
  "installed_by L q us E x y \<longleftrightarrow> (\<exists>k. fst y = (fst x)(q \<mapsto> k) \<and> module_ready L k \<and> k_Spec k = k_Spec (the (fst x q)))
     \<and> (\<forall>u\<in>set us. ReqPatch (patched L E u) \<in> set (f_hist (snd y)))"

lemma install_ends:
  assumes co: "cooperative E applied" and doc: "conditions_doc L" and x: "installs q (st, c) v" and s: "serves E c q st"
    and i: "installable L E applied c v us" and n: "install_left L c v = 0"
  shows "\<exists>y. stored_run L E q (st, c) = (all_done, y) \<and> installed_by L q us E (st, c) y"
proof -
  have v: "st q = Some v" "key v = q" "install_ok L c v" "no_addon c v"
    using x n by (simp_all add: installs_def install_ok_def install_left_def split: if_splits)
  obtain c' k where "stored_run L E q (st, c) = (all_done, st(q \<mapsto> v\<lparr>k_Status := k_Status k\<rparr>), c')" "module_ready L k"
    "\<forall>u\<in>set us. ReqPatch (patched L E u) \<in> set (f_hist c')"
    using third_stored [OF co doc s v i] by blast
  then show ?thesis using v(1)
    by (intro exI [of _ "(st(q \<mapsto> v\<lparr>k_Status := k_Status k\<rparr>), c')"])
       (auto simp: installed_by_def intro!: exI [of _ "v\<lparr>k_Status := k_Status k\<rparr>"])
qed

interpretation installing: progress "\<lambda>E. stored_run L E q" "\<lambda>E x. cooperative E applied \<and> serves E (snd x) q (fst x)"
    "\<lambda>E x. installable L E applied (snd x) (the (fst x q)) us"
    "\<lambda>x. conditions_doc L \<and> finalizers_doc L \<and> (\<exists>v. installs q x v)" "\<lambda>x. install_left L (snd x) (the (fst x q))"
    ask_again all_done "installed_by L q us"
proof (unfold_locales, goal_cases)
  case (1 x E)
  obtain st c v where x: "x = (st, c)" "installs q (st, c) v" using 1(1) by (metis surj_pair)
  have v: "st q = Some v" using x(2) by (simp add: installs_def)
  obtain h k where k: "stored_run L E q (st, c) = (ask_again, st(q \<mapsto> k), c\<lparr>f_hist := h\<rparr>)"
    "installs q (st(q \<mapsto> k), c\<lparr>f_hist := h\<rparr>) k" "Suc (install_left L c k) = install_left L c v" "k_Spec k = k_Spec v"
    using install_continues [of E applied L q st c v] 1 x v by auto
  let ?y = "(st(q \<mapsto> k), c\<lparr>f_hist := h\<rparr>)"
  have l: "install_left L (c\<lparr>f_hist := h\<rparr>) k = install_left L c k" by (simp add: install_left_def has_finalizer_def)
  have i: "installable L F applied (c\<lparr>f_hist := h\<rparr>) k us \<longleftrightarrow> installable L F applied c v us" for F
    by (rule installable_cong) (simp_all add: k(4))
  have g: "installed_by L q us F ?y z \<longleftrightarrow> installed_by L q us F x z" for F z
    by (simp add: installed_by_def x(1) v k(4))
  show ?case
    by (rule exI [of _ ?y], intro conjI exI [of _ k] allI impI) (use 1(1) in \<open>simp_all add: x(1) k(1,2) v l k(3) i g [unfolded x(1)]\<close>)
next
  case (2 x E)
  obtain st c v where x: "x = (st, c)" "installs q (st, c) v" using 2(1) by (metis surj_pair)
  have v: "st q = Some v" using x(2) by (simp add: installs_def)
  show ?case unfolding x(1) by (rule install_ends [OF _ _ x(2)]) (use 2 in \<open>simp_all add: x(1) v\<close>)
qed

text \<open>
  C6: An installation completes, from any stage: in three reconciliations when the resource is new, in fewer when it
  is served already or has the finalizer.  Let the resource not ask for the add-on, and let it be served or no other be; let the API answer from the
  store and the cluster accept every call, and bring the three deployments up in the last reconciliation.  Then each of them asks
  for another but the last, after which the resource is in the state Ready with the conditions that say so, its
  specification and the other resources are untouched, and every configured object of the module was sent.  They are
  steps of the store's machine with a cache that is up to date.
\<close>

theorem install_progress:
  assumes docs: "conditions_doc L" "finalizers_doc L"
    and co: "\<forall>E\<in>set Es. cooperative E applied" and inst: "installable L (last Es) applied c v us"
    and st: "st q = Some v" "key v = q" "served v \<or> (\<forall>k\<in>ran st. st_Served (k_Status k) \<noteq> ''True'')"
    and new: "\<not> deleting v" "\<not> hasRestrictedAnnotations v" "no_addon c v"
    and runs: "length Es = Suc (install_left L c v)" "all_serve L Es q (st, c)" "stored_runs L Es q (st, c) = (outs, st', c')"
  shows "outs = replicate (install_left L c v) (Ret (\<lparr>r_Requeue = True, r_RequeueAfter = 0\<rparr>, None))
      @ [Ret (\<lparr>r_Requeue = False, r_RequeueAfter = 0\<rparr>, None)]
    \<and> (\<exists>k. st' = st(q \<mapsto> k) \<and> module_ready L k \<and> k_Spec k = k_Spec v)
    \<and> (\<forall>u\<in>set us. ReqPatch (patched L (last Es) u) \<in> set (f_hist c'))
    \<and> (sys_step L served_seen)\<^sup>*\<^sup>* (st, st, c) (st', st', c')"
proof -
  have "installs q (st, c) v" using st new by (simp add: installs_def)
  then have "outs = replicate (install_left L c v) ask_again @ [all_done] \<and> installed_by L q us (last Es) (st, c) (st', c')"
    using installing.completes [of L q "(st, c)" applied Es us outs "(st', c')"] docs along_also [OF runs(2) co] runs(1,3) inst st(1)
    by auto
  moreover have "(sys_step L served_seen)\<^sup>*\<^sup>* (st, st, c) (st', st', c')"
    using stored_runs_steps [OF _ runs(2,3)] co cooperative_update_doc by (auto simp: up_to_date_def)
  ultimately show ?thesis using st(1) by (simp add: installed_by_def)
qed

text \<open>A cluster with one new resource, whose API answers from the store.\<close>

definition ref_new :: Keda where
  "ref_new = ref_keda\<lparr>k_Meta := ref_meta\<lparr>meta_Finalizers := []\<rparr>\<rparr>"

definition ref_api :: "store \<Rightarrow> env" where
  "ref_api st = ref_env\<lparr>e_get := (\<lambda>h ns n. Inr (the (st (ns, n)))), e_list_kedas := (\<lambda>h. Inr [the (st (''kyma-system'', ''default''))])\<rparr>"

lemma ref_api_cooperative: "cooperative (ref_api st) id"
  by (simp add: cooperative_def ref_api_def ref_env_simps httpScaledObjectsInUse_def client_List_def)

lemma ref_api_serves: "dom st = {(''kyma-system'', ''default'')} \<Longrightarrow> serves (ref_api st) c (''kyma-system'', ''default'') st"
  by (auto simp: dom_eq_singleton_conv serves_def Keda_Store.answers_def ref_api_def)

lemma ref_api_installable: "installable ref_lib (ref_api st) id (ref_fsm\<lparr>f_Objs := ref_objects\<rparr>) ref_new ref_installed"
proof -
  have "e_getenv (ref_api st) = e_getenv ref_env" by (simp add: ref_api_def)
  then have "prepare ref_lib (ref_api st) = prepare ref_lib ref_env" by (intro ext) (simp only: prepare_def)
  then have "installable ref_lib (ref_api st) id r k us \<longleftrightarrow> installable ref_lib ref_env id r k us" for r k us
    by (simp add: installable_def panics_def [abs_def] image_failed_def [abs_def] patched_def [abs_def] comp_def)
  then show ?thesis
    using ref_installable installable_cong [of "ref_fsm\<lparr>f_Objs := ref_objects\<rparr>" "ref_fsm\<lparr>f_Objs := ref_objects\<rparr>" ref_new ref_keda
        ref_lib ref_env id ref_installed]
    by (simp add: ref_new_def ref_installed_def)
qed

lemma ref_new_simps:
  "\<not> served ref_new" "\<not> deleting ref_new" "\<not> hasRestrictedAnnotations ref_new" "key ref_new = (''kyma-system'', ''default'')"
  "\<not> has_finalizer ref_lib (ref_fsm\<lparr>f_Objs := ref_objects\<rparr>) ref_new" "no_addon (ref_fsm\<lparr>f_Objs := ref_objects\<rparr>) ref_new"
  "st_Served (k_Status ref_new) = []"
  by (simp_all add: ref_new_def ref_keda_def ref_meta_def ref_spec_def served_def IsServedEmpty_def zero_Status_def key_def
      deleting_def IsZero_def has_finalizer_def ref_lib_simps hasRestrictedAnnotations_def no_addon_def ReadAddonCfg_def
      ref_fsm_simps map_get_def)

lemma written_dom: "dom (written E h qs st) = dom st"
  by (induction E h qs st rule: written.induct)
     (auto simp: store_status_def store_object_def dom_def split: option.splits)

text \<open>A series of reconciliations on an API \<open>A\<close> that answers from each store it finds.\<close>

lemma series_exist:
  assumes serves: "\<And>st c. dom st = D \<Longrightarrow> serves (A st) c q st" and "dom (fst x) = D"
  shows "\<exists>Es. length Es = n \<and> (\<forall>E\<in>set Es. \<exists>st. E = A st) \<and> all_serve L Es q x"
  using assms(2)
proof (induction n arbitrary: x)
  case (Suc n)
  let ?y = "snd (stored_run L (A (fst x)) q x)"
  have "dom (fst ?y) = D" using Suc.prems by (simp add: stored_run_def written_dom split: prod.split)
  from Suc.IH [OF this] obtain Es where "length Es = n" "\<forall>E\<in>set Es. \<exists>st. E = A st" "all_serve L Es q ?y" by blast
  with serves [OF Suc.prems] show ?case by (intro exI [of _ "A (fst x) # Es"]) auto
qed simp

lemma ref_series:
  assumes "dom (fst x) = {(''kyma-system'', ''default'')}"
  shows "\<exists>Es. length Es = n \<and> (\<forall>E\<in>set Es. \<exists>st. E = ref_api st) \<and> all_serve L Es (''kyma-system'', ''default'') x"
  by (rule series_exist [OF ref_api_serves assms])

theorem install_progress_witness:
  "\<exists>Es st' c' k. stored_runs ref_lib Es (''kyma-system'', ''default'') ([(''kyma-system'', ''default'') \<mapsto> ref_new], ref_fsm\<lparr>f_Objs := ref_objects\<rparr>)
      = ([Ret (\<lparr>r_Requeue = True, r_RequeueAfter = 0\<rparr>, None), Ret (\<lparr>r_Requeue = True, r_RequeueAfter = 0\<rparr>, None),
          Ret (\<lparr>r_Requeue = False, r_RequeueAfter = 0\<rparr>, None)], st', c')
    \<and> st' (''kyma-system'', ''default'') = Some k \<and> module_ready ref_lib k"
proof -
  let ?q = "(''kyma-system'', ''default'')" and ?c = "ref_fsm\<lparr>f_Objs := ref_objects\<rparr>"
  let ?st = "[?q \<mapsto> ref_new]"
  have left: "install_left ref_lib ?c ref_new = 2" using ref_new_simps by (simp add: install_left_def)
  obtain Es where Es: "length Es = Suc (install_left ref_lib ?c ref_new)" "\<forall>E\<in>set Es. \<exists>st. E = ref_api st" "all_serve ref_lib Es ?q (?st, ?c)"
    using ref_series [of "(?st, ?c)" 3 ref_lib] left by auto
  have "Es \<noteq> []" using Es(1) by auto
  then have co: "\<forall>E\<in>set Es. cooperative E id" and "last Es \<in> set Es" using Es(2) ref_api_cooperative by auto
  then have i: "installable ref_lib (last Es) id ?c ref_new Install_Progress.ref_installed" using Es(2) ref_api_installable by metis
  have u: "served ref_new \<or> (\<forall>k\<in>ran ?st. st_Served (k_Status k) \<noteq> ''True'')" by (simp add: ref_new_simps)
  obtain outs st' c' where r: "stored_runs ref_lib Es ?q (?st, ?c) = (outs, st', c')" by (metis prod_cases3)
  from install_progress [OF ref_conditions_doc ref_finalizers_doc co i _ ref_new_simps(4) u ref_new_simps(2,3,6) Es(1,3) r]
  show ?thesis using r left
    by (intro exI [of _ Es] exI [of _ st'] exI [of _ c']) (auto simp: numeral_2_eq_2)
qed

end
