(* ===== verification/Uninstall_Store.thy ===== *)
theory Uninstall_Store
  imports Install_Store
begin

text \<open>
  A deletion as seen from the cluster: the reconciliations of a Keda resource that is being deleted, as
  steps of the store's machine, from any stage of the deletion to the end.
\<close>

section \<open>One reconciliation of a deletion\<close>

lemma deletable_update_doc: "deletable L E us \<Longrightarrow> update_doc E"
  by (simp add: deletable_def update_doc_def)

lemma safe_call_quiet: "allowed SFnSafeDeletionState q \<Longrightarrow> \<not> is_ReqUpdate q \<and> \<not> is_ReqStatusUpdate q"
  by (cases q) simp_all

lemma safe_calls_skip:
  "list_all (allowed SFnSafeDeletionState) qs \<Longrightarrow> written E h (qs @ rs) st = written E (h @ qs) rs st"
  by (rule written_skip, erule list.pred_mono_strong, rule safe_call_quiet)

lemma status_effect_keeps:
  assumes "status_effect L v x t status reason msg k"
  shows "v\<lparr>k_Status := k_Status k\<rparr> = k" "k_Meta k = k_Meta v" "k_Spec k = k_Spec v"
    "st_Served (k_Status k) = st_Served (k_Status v)"
proof -
  obtain s where k: "k = v\<lparr>k_Status := s\<rparr>" "st_Served s = st_Served (k_Status v)"
    using assms unfolding status_effect_def by (metis Status.select_convs(2) Status.surjective Status.update_convs(1,4))
  then show "v\<lparr>k_Status := k_Status k\<rparr> = k" "k_Meta k = k_Meta v" "k_Spec k = k_Spec v"
    "st_Served (k_Status k) = st_Served (k_Status v)" by simp_all
qed

lemma status_effect_left:
  assumes "conditions_doc L" "status_effect L v x ''Deleted'' status reason msg k"
  shows "deletion_left k = (if status = ''True'' then 0 else 1)"
  using assms(2) unfolding status_effect_def deletion_left_def Find_doc [OF assms(1)]
  by (auto split: option.splits)

definition deletes :: "k8s_lib \<Rightarrow> string \<times> string \<Rightarrow> store \<times> kedaReconciler \<Rightarrow> Keda \<Rightarrow> bool" where
  "deletes L q x v \<longleftrightarrow> fst x q = Some v \<and> key v = q \<and> delete_ok L (snd x) v \<and> f_AddonObjs (snd x) = []"

lemma deletes_run:
  assumes "deletable L E (f_Objs c)" "deletes L q (st, c) v" "r = log_req (ReqGet (fst q) (snd q)) c"
  shows "st q = Some v" "key v = q" "delete_ok L r v" "f_AddonObjs r = []" "deletable L E (f_Objs r)"
    "e_update E h k = (None, k)" "e_status_update E h k = (None, k)"
  using assms by (simp_all add: deletes_def delete_ok_def has_finalizer_def deletable_def)

lemma deletion_continues:
  assumes d: "deletable L E (f_Objs c)" and doc: "conditions_doc L" and x: "deletes L q (st, c) v" and s: "serves E c q st"
    and n: "deletion_left v \<noteq> 0"
  shows "\<exists>k c'. stored_run L E q (st, c) = (Ret (\<lparr>r_Requeue = True, r_RequeueAfter = 0\<rparr>, None), st(q \<mapsto> k), c')
      \<and> deletes L q (st(q \<mapsto> k), c') k \<and> Suc (deletion_left k) = deletion_left v
      \<and> k_Meta k = k_Meta v \<and> k_Spec k = k_Spec v
      \<and> f_Objs c' = f_Objs c \<and> f_Finalizer c' = f_Finalizer c \<and> prefix (f_hist c) (f_hist c')"
proof -
  let ?r = "log_req (ReqGet (fst q) (snd q)) c"
  note v = deletes_run [OF d x refl]
  obtain r' s' pre cs where
    run: "Run L E ?r v = (Ret (\<lparr>r_Requeue = deletion_left v \<noteq> 0, r_RequeueAfter = 0\<rparr>, None), r', s')"
    and pre: "list_all (allowed SFnSafeDeletionState) pre" and objs: "take (length (f_Objs ?r)) (f_Objs r') = f_Objs ?r"
    and two: "deletion_left v = 2 \<Longrightarrow> status_effect L v ''Deleting'' ''Deleted'' ''Unknown'' ''Deletion'' ''deletion in progress'' (s_instance s')"
    and one: "deletion_left v = 1 \<Longrightarrow> status_effect L v ''Deleting'' ''Deleted'' ''True'' ''Deleted'' ''Keda module deleted'' (s_instance s')"
    and more: "deletion_left v \<noteq> 0 \<Longrightarrow> f_hist r' = f_hist ?r @ pre @ ReqStatusUpdate (s_instance s') # map event_of cs"
    by (rule deletion_run [OF v(5,4,3) doc]) (rule that)
  let ?k = "s_instance s'"
  let ?c = "c\<lparr>f_Objs := take (length (f_Objs c)) (f_Objs r'), f_hist := f_hist r'\<rparr>"
  have "deletion_left v = 2 \<or> deletion_left v = 1" using n by (auto simp: deletion_left_def split: option.splits if_splits)
  then obtain st' reason msg where e: "status_effect L v ''Deleting'' ''Deleted'' st' reason msg ?k"
    and left: "Suc (deletion_left ?k) = deletion_left v"
    using two one status_effect_left [OF doc two] status_effect_left [OF doc one] by auto
  note keep = status_effect_keeps [OF e]
  have key: "key ?k = q" using v(2) keep(2) by (simp add: key_def)
  have "stored_run L E q (st, c) = (Ret (\<lparr>r_Requeue = True, r_RequeueAfter = 0\<rparr>, None), st(q \<mapsto> ?k), ?c)"
    using stored_run_eq [OF s v(1) run, of "pre @ ReqStatusUpdate ?k # map event_of cs"] more [OF n] n key v(1) keep(1)
    by (simp add: safe_calls_skip [OF pre] v(6,7) written_events store_put)
  moreover have "deletes L q (st(q \<mapsto> ?k), ?c) ?k"
    using x keep key by (simp add: deletes_def delete_ok_def served_def IsServedEmpty_def has_finalizer_def deleting_def)
  moreover have "f_Objs ?c = f_Objs c" "prefix (f_hist c) (f_hist ?c)" using objs more [OF n] by simp_all
  ultimately show ?thesis using left keep(2,3) by (intro exI [of _ ?k] exI [of _ ?c]) simp
qed

lemma deletion_ends:
  assumes d: "deletable L E (f_Objs c)" and doc: "conditions_doc L" and x: "deletes L q (st, c) v" and s: "serves E c q st"
    and n: "deletion_left v = 0"
  shows "\<exists>c'. stored_run L E q (st, c) = (Ret (\<lparr>r_Requeue = False, r_RequeueAfter = 0\<rparr>, None),
        st(q \<mapsto> set_finalizers (RemoveFinalizer L (meta_Finalizers (k_Meta v)) (f_Finalizer c)) v), c')
      \<and> module_gone L E (f_Objs c) (f_hist c) (f_hist c') \<and> f_Objs c' = f_Objs c"
proof -
  let ?r = "log_req (ReqGet (fst q) (snd q)) c"
  note v = deletes_run [OF d x refl]
  obtain r' s' pre where
    run: "Run L E ?r v = (Ret (\<lparr>r_Requeue = deletion_left v \<noteq> 0, r_RequeueAfter = 0\<rparr>, None), r', s')"
    and pre: "list_all (allowed SFnSafeDeletionState) pre" and objs: "take (length (f_Objs ?r)) (f_Objs r') = f_Objs ?r"
    and gone: "deletion_left v < 2 \<Longrightarrow> module_gone L E (f_Objs ?r) (f_hist ?r) (f_hist ?r @ pre)"
    and fin: "deletion_left v = 0 \<Longrightarrow> f_hist r' = f_hist ?r @ pre @ [ReqUpdate (s_instance s')]
      \<and> s_instance s' = set_finalizers (RemoveFinalizer L (meta_Finalizers (k_Meta v)) (f_Finalizer ?r)) v"
    by (rule deletion_run [OF v(5,4,3) doc]) (rule that)
  let ?c = "c\<lparr>f_Objs := take (length (f_Objs c)) (f_Objs r'), f_hist := f_hist r'\<rparr>"
  let ?f = "set_finalizers (RemoveFinalizer L (meta_Finalizers (k_Meta v)) (f_Finalizer c)) v"
  have f: "f_hist r' = f_hist ?r @ pre @ [ReqUpdate ?f]" "key ?f = q" "?f\<lparr>k_Status := k_Status v\<rparr> = ?f"
    using fin [OF n] v(2) by (simp_all add: set_finalizers_def key_def)
  have "stored_run L E q (st, c) = (Ret (\<lparr>r_Requeue = False, r_RequeueAfter = 0\<rparr>, None), st(q \<mapsto> ?f), ?c)"
    using stored_run_eq [OF s v(1) run, of "pre @ [ReqUpdate ?f]"] f n v(1)
    by (simp add: safe_calls_skip [OF pre] v(6,7) store_put)
  moreover have "module_gone L E (f_Objs c) (f_hist c) (f_hist ?c)"
    using module_gone_mono [OF _ _ gone, of "f_hist c" "f_hist ?c"] n f(1) by simp
  ultimately show ?thesis using objs by (intro exI [of _ ?c]) simp
qed

section \<open>A deletion completes\<close>

text \<open>An API that accepts every status and a context that is not cancelled.\<close>

definition takes_status :: "env \<Rightarrow> bool" where
  "takes_status E \<longleftrightarrow> (\<forall>n h. e_ctx_err E n h = None) \<and> (\<forall>h k. e_status_update E h k = (None, k))"

lemma takes_over_run:
  assumes "conditions_doc L" "keyed st" "\<And>a. \<not> is_served st a" "st p = Some w" "\<not> served w" "serves E c p st" "takes_status E"
  shows "is_served (fst (snd (stored_run L E p (st, c)))) p"
proof -
  obtain ks where ks: "e_list_kedas E (f_hist c @ [ReqGet (fst p) (snd p)]) = Inr ks" "set ks = ran st"
    using assms(6) by (auto simp: serves_def Keda_Store.answers_def)
  then have free: "st_Served (k_Status x) \<noteq> ''True''" if "x \<in> set ks" for x
    using that assms(3) unfolding is_served_def ran_def by blast
  obtain out c' where r: "Reconcile L E c p = (out, c')" by (metis surj_pair)
  obtain qs where "f_hist c' = f_hist c @ qs" using Reconcile_extends [OF r] by blast
  moreover have "key w = p" using assms(2,4) unfolding keyed_def by blast
  with calculation have "written E (f_hist c) qs st = st(p \<mapsto> UpdateServed ''True'' w)"
    using takes_over [of st p w L E c ks qs] assms(1,4,5,7) serves_get [OF assms(6,4)] ks(1) free r
    by (simp add: takes_status_def)
  ultimately show ?thesis using r is_served_taken by (simp add: stored_run_def)
qed

definition finalizer_removed :: "k8s_lib \<Rightarrow> kedaReconciler \<Rightarrow> Keda \<Rightarrow> Keda \<Rightarrow> bool" where
  "finalizer_removed L c v k \<longleftrightarrow> k_Spec k = k_Spec v
     \<and> k_Meta k = (k_Meta v)\<lparr>meta_Finalizers := RemoveFinalizer L (meta_Finalizers (k_Meta v)) (f_Finalizer c)\<rparr>"

definition deleted_by :: "k8s_lib \<Rightarrow> string \<times> string \<Rightarrow> env \<Rightarrow> store \<times> kedaReconciler \<Rightarrow> store \<times> kedaReconciler \<Rightarrow> bool" where
  "deleted_by L q E x y \<longleftrightarrow> (\<exists>k. fst y = (fst x)(q \<mapsto> k) \<and> finalizer_removed L (snd x) (the (fst x q)) k)
     \<and> module_gone L E (f_Objs (snd x)) (f_hist (snd x)) (f_hist (snd y)) \<and> f_Objs (snd y) = f_Objs (snd x)"

interpretation deleting: progress "\<lambda>E. stored_run L E q" "\<lambda>E x. deletable L E us \<and> serves E (snd x) q (fst x)" "\<lambda>E x. True"
    "\<lambda>x. conditions_doc L \<and> f_Objs (snd x) = us \<and> (\<exists>v. deletes L q x v)" "\<lambda>x. deletion_left (the (fst x q))"
    ask_again all_done "deleted_by L q"
proof (unfold_locales, goal_cases)
  case (1 x E)
  obtain st c v where x: "x = (st, c)" "deletes L q (st, c) v" using 1(1) by (metis surj_pair)
  have v: "st q = Some v" using x(2) by (simp add: deletes_def)
  obtain k c' where k: "stored_run L E q (st, c) = (ask_again, st(q \<mapsto> k), c')" "deletes L q (st(q \<mapsto> k), c') k"
    "Suc (deletion_left k) = deletion_left v" "k_Meta k = k_Meta v" "k_Spec k = k_Spec v"
    and c': "f_Objs c' = f_Objs c" "f_Finalizer c' = f_Finalizer c" "prefix (f_hist c) (f_hist c')"
    using deletion_continues [of L E c q st v] 1 x v by auto
  let ?y = "(st(q \<mapsto> k), c')"
  have g: "deleted_by L q F ?y z \<Longrightarrow> deleted_by L q F (st, c) z" for F z
    using k(4,5) c' module_gone_mono [OF c'(3) prefix_order.refl] by (auto simp: deleted_by_def finalizer_removed_def v)
  show ?case unfolding x(1)
    by (rule exI [of _ ?y], intro conjI exI [of _ k] allI impI g) (use 1(1) in \<open>simp_all add: x(1) k(1-3) v c'(1)\<close>)
next
  case (2 x E)
  obtain st c v where x: "x = (st, c)" "deletes L q (st, c) v" using 2(1) by (metis surj_pair)
  have v: "st q = Some v" using x(2) by (simp add: deletes_def)
  let ?k = "set_finalizers (RemoveFinalizer L (meta_Finalizers (k_Meta v)) (f_Finalizer c)) v"
  obtain c' where c': "stored_run L E q (st, c) = (all_done, st(q \<mapsto> ?k), c')"
    "module_gone L E (f_Objs c) (f_hist c) (f_hist c')" "f_Objs c' = f_Objs c"
    using deletion_ends [of L E c q st v] 2 x v by auto
  have "finalizer_removed L c v ?k" by (simp add: finalizer_removed_def set_finalizers_def)
  with c' show ?case
    by (intro exI [of _ "(st(q \<mapsto> ?k), c')"] conjI) (auto simp: x(1) deleted_by_def v)
qed

text \<open>
  C5: A deletion that nothing blocks completes, from any stage: in three reconciliations when it has just
  been asked for, two when it is in progress, one when the module has been deleted.  Let the store hold a served
  resource with the finalizer that is being deleted, and every reconciliation find an API that answers from the store,
  deletes what it is asked to and has no instance of a CRD of the module left.  Then all reconciliations but the
  last ask for another one and the last does not; the last deleted every object of the module and the two leases,
  and removed the finalizer and nothing else of the metadata and the specification; the objects in memory are as before, so
  the module can be installed again.  The reconciliations, and the removal of the resource that the API makes when no
  finalizer is left, are steps of the store's machine with a cache that is up to date.  After them no resource is served, and any
  other resource of the store that is not served becomes the served one in its next reconciliation, if the API
  answers from the store and accepts the status.
\<close>

theorem deletion_completes:
  assumes "conditions_doc L" "finalizers_doc L" "\<forall>E\<in>set Es. deletable L E (f_Objs c)"
    and "deletes L q (st, c) v" "length Es = Suc (deletion_left v)" "all_serve L Es q (st, c)"
    and "stored_runs L Es q (st, c) = (outs, st', c')"
    and "store_inv st" "st_Served (k_Status v) = ''True''"
  shows "outs = replicate (deletion_left v) (Ret (\<lparr>r_Requeue = True, r_RequeueAfter = 0\<rparr>, None))
      @ [Ret (\<lparr>r_Requeue = False, r_RequeueAfter = 0\<rparr>, None)]
    \<and> (\<exists>k. st' = st(q \<mapsto> k) \<and> k_Spec k = k_Spec v
         \<and> set (meta_Finalizers (k_Meta k)) = set (meta_Finalizers (k_Meta v)) - {f_Finalizer c})
    \<and> module_gone L (last Es) (f_Objs c) (f_hist c) (f_hist c') \<and> f_Objs c' = f_Objs c
    \<and> (sys_step L served_seen)\<^sup>*\<^sup>* (st, st, c) (st'(q := None), st', c') \<and> (\<forall>a. \<not> is_served (st'(q := None)) a)
    \<and> (\<forall>E p w. p \<noteq> q \<and> st p = Some w \<and> \<not> served w \<and> serves E c' p (st'(q := None)) \<and> takes_status E \<longrightarrow>
         is_served (fst (snd (stored_run L E p (st'(q := None), c')))) p)"
proof -
  have v: "st q = Some v" using assms(4) by (simp add: deletes_def)
  have d: "outs = replicate (deletion_left v) ask_again @ [all_done] \<and> deleted_by L q (last Es) (st, c) (st', c')"
    using deleting.completes [where L = L and us = "f_Objs c" and q = q and x = "(st, c)" and es = Es and outs = outs and y = "(st', c')"] assms(1,4,5,7) along_also [OF assms(6,3)] v by auto
  have "\<forall>E\<in>set Es. update_doc E" using assms(3) deletable_update_doc by blast
  from stored_runs_steps [OF this assms(6,7)] have "(sys_step L served_seen)\<^sup>*\<^sup>* (st, st, c) (st', st', c')"
    by (simp add: up_to_date_def)
  then have "(sys_step L served_seen)\<^sup>*\<^sup>* (st, st, c) (st'(q := None), st', c')"
    using sys_step.removed by (rule rtranclp.rtrancl_into_rtrancl)
  moreover obtain k where k: "st' = st(q \<mapsto> k)" "finalizer_removed L c v k" using d v by (auto simp: deleted_by_def)
  have "is_served st q" using assms(4,9) by (simp add: deletes_def is_served_def)
  then have "is_served st a \<Longrightarrow> a = q" for a using assms(8) unfolding store_inv_def by blast
  then have none: "\<forall>a. \<not> is_served (st'(q := None)) a" unfolding k(1) fun_upd_upd is_served_upd by blast
  moreover have "keyed (st'(q := None))" using assms(8) keyed_upd(2) unfolding k(1) fun_upd_upd store_inv_def by blast
  then have "is_served (fst (snd (stored_run L E p (st'(q := None), c')))) p"
    if "p \<noteq> q" "st p = Some w" "\<not> served w" "serves E c' p (st'(q := None))" "takes_status E" for E p w
    using takes_over_run [OF assms(1) _ none [rule_format], of p w E c'] that k(1) by simp
  then have "\<forall>E p w. p \<noteq> q \<and> st p = Some w \<and> \<not> served w \<and> serves E c' p (st'(q := None)) \<and> takes_status E \<longrightarrow>
      is_served (fst (snd (stored_run L E p (st'(q := None), c')))) p" by blast
  moreover have "set (meta_Finalizers (k_Meta k)) = set (meta_Finalizers (k_Meta v)) - {f_Finalizer c}" "k_Spec k = k_Spec v"
    using k(2) assms(2) by (simp_all add: finalizer_removed_def finalizers_doc_def)
  moreover have "module_gone L (last Es) (f_Objs c) (f_hist c) (f_hist c')" "f_Objs c' = f_Objs c"
    using d by (simp_all add: deleted_by_def)
  ultimately show ?thesis using d k(1) by blast
qed

section \<open>A deletion at work\<close>

text \<open>A cluster with one resource, whose deletion has just been asked for.\<close>

definition ref_leaving :: Keda where
  "ref_leaving = ref_deleting\<lparr>k_Status := (k_Status ref_deleting)\<lparr>st_Conditions := []\<rparr>\<rparr>"

lemma ref_gvk_kind: "gvk_Kind (ref_gvk u) = str_at u [''kind'']"
  by (simp add: ref_gvk_def split: list.split)

lemma ref_api_deletable: "deletable ref_lib (ref_api st) ref_objects"
  by (simp add: deletable_def ref_api_def ref_env_simps ref_objects_def isCRD_def ref_lib_simps ref_gvk_kind
      enc_deployment_def enc_policy_def str_at_def)

text \<open>Another resource waits in the store.\<close>

definition ref_waiting :: Keda where
  "ref_waiting = ref_keda\<lparr>k_Meta := ref_meta\<lparr>meta_Name := ''waiting''\<rparr>\<rparr>"

definition two_api :: "store \<Rightarrow> env" where
  "two_api st = (ref_api st)\<lparr>e_list_kedas := (\<lambda>h. Inr (List.map_filter st [(''kyma-system'', ''default''), (''kyma-system'', ''waiting'')]))\<rparr>"

lemma ran_map_filter: "dom f \<subseteq> set xs \<Longrightarrow> set (List.map_filter f xs) = ran f"
  by (force simp: List.map_filter_def ran_def dom_def)

lemma two_api_serves:
  assumes "dom st \<subseteq> {(''kyma-system'', ''default''), (''kyma-system'', ''waiting'')}" "q \<in> dom st"
  shows "serves (two_api st) c q st"
  using assms ran_map_filter [of st "[(''kyma-system'', ''default''), (''kyma-system'', ''waiting'')]"]
  by (auto simp: serves_def Keda_Store.answers_def two_api_def ref_api_def)

lemma two_api_deletable: "deletable ref_lib (two_api st) ref_objects"
  using ref_api_deletable [of st] by (simp add: deletable_def two_api_def)

lemma two_api_takes_status: "takes_status (two_api st)"
  by (simp add: takes_status_def two_api_def ref_api_def ref_env_simps)

theorem deletion_completes_witness:
  "\<exists>Es st' c' k E. stored_runs ref_lib Es (''kyma-system'', ''default'')
        ([(''kyma-system'', ''default'') \<mapsto> ref_leaving, (''kyma-system'', ''waiting'') \<mapsto> ref_waiting], ref_fsm\<lparr>f_Objs := ref_objects\<rparr>)
      = ([Ret (\<lparr>r_Requeue = True, r_RequeueAfter = 0\<rparr>, None), Ret (\<lparr>r_Requeue = True, r_RequeueAfter = 0\<rparr>, None),
          Ret (\<lparr>r_Requeue = False, r_RequeueAfter = 0\<rparr>, None)], st', c')
    \<and> st' (''kyma-system'', ''default'') = Some k \<and> Finalizer_name \<notin> set (meta_Finalizers (k_Meta k))
    \<and> is_served (fst (snd (stored_run ref_lib E (''kyma-system'', ''waiting'') (st'((''kyma-system'', ''default'') := None), c'))))
        (''kyma-system'', ''waiting'')"
proof -
  let ?q = "(''kyma-system'', ''default'')" and ?p = "(''kyma-system'', ''waiting'')" and ?c = "ref_fsm\<lparr>f_Objs := ref_objects\<rparr>"
  let ?st = "[?q \<mapsto> ref_leaving, ?p \<mapsto> ref_waiting]"
  have left: "deletion_left ref_leaving = 2" by (simp add: deletion_left_def ref_leaving_def)
  have "dom ?st = {?q, ?p}" by auto
  then obtain Es where Es: "length Es = Suc (deletion_left ref_leaving)" "\<forall>E\<in>set Es. \<exists>st. E = two_api st"
    "all_serve ref_lib Es ?q (?st, ?c)"
    using series_exist [of "{?q, ?p}" two_api ?q "(?st, ?c)" 3 ref_lib] two_api_serves left by auto
  have d: "\<forall>E\<in>set Es. deletable ref_lib E (f_Objs ?c)" using Es(2) two_api_deletable by auto
  have v: "deletes ref_lib ?q (?st, ?c) ref_leaving" "st_Served (k_Status ref_leaving) = ''True''"
    by (simp_all add: deletes_def delete_ok_def served_def IsServedEmpty_def has_finalizer_def deleting_def IsZero_def key_def
        ref_leaving_def ref_deleting_def ref_keda_def ref_meta_def ref_lib_simps ref_fsm_simps)
  have w: "key ref_waiting = ?p" "\<not> served ref_waiting" "st_Served (k_Status ref_waiting) \<noteq> ''True''"
    by (simp_all add: key_def ref_waiting_def ref_keda_def ref_meta_def served_def IsServedEmpty_def zero_Status_def)
  have inv: "store_inv ?st"
    using v(1) w(1,3) by (auto simp: store_inv_def keyed_def is_served_def deletes_def split: if_splits)
  obtain outs st' c' where r: "stored_runs ref_lib Es ?q (?st, ?c) = (outs, st', c')" by (metis prod_cases3)
  note finish = deletion_completes [OF ref_conditions_doc ref_finalizers_doc d v(1) Es(1,3) r inv v(2)]
  then obtain k where k: "st' = ?st(?q \<mapsto> k)" "Finalizer_name \<notin> set (meta_Finalizers (k_Meta k))"
    by (auto simp: ref_fsm_simps)
  have "serves (two_api (st'(?q := None))) c' ?p (st'(?q := None))" by (rule two_api_serves) (auto simp: k(1))
  then have "is_served (fst (snd (stored_run ref_lib (two_api (st'(?q := None))) ?p (st'(?q := None), c')))) ?p"
    using finish w(2) two_api_takes_status by simp
  with r finish left k show ?thesis
    by (intro exI [of _ Es] exI [of _ st'] exI [of _ c'] exI [of _ k] exI [of _ "two_api (st'(?q := None))"])
       (simp add: numeral_2_eq_2)
qed

end
