(* ===== verification/Addon_Round_Trip.thy ===== *)
theory Addon_Round_Trip
  imports Manifest_Properties Config_Properties Cleanup_Properties Object_Identity
begin

text \<open>
  Disabling the HTTP add-on undoes enabling it.  The two work on manifests that are downloaded twice and
  rewritten in two ways, so they have to meet in what identifies an object on the cluster.
\<close>

section \<open>The rewriting keeps the identity\<close>

text \<open>Every helper but the one that sets the namespace writes on a path off the identifying ones.\<close>

lemma alike_helpers:
  assumes "unstructured_doc L"
  shows "alike u (patchSubjectsNamespace L ns u)" "alike u (patchDeploymentEnvNamespace L ns u)"
    "alike u (patchDeploymentPodTemplateLabels L u)"
    "alike u (patchDeploymentIstioExcludePortsAnnotation L u)"
    "alike u (patchDeploymentIstioSidecarAnnotation L v u)"
  using assms
  by (simp_all add: patchSubjectsNamespace_def patchDeploymentEnvNamespace_def
      patchDeploymentPodTemplateLabels_def patchDeploymentIstioExcludePortsAnnotation_def
      patchDeploymentIstioSidecarAnnotation_def unstructured_doc_def Let_def split: option.split)

lemma alike_steps:
  assumes "unstructured_doc L" "alike w u"
  shows "alike w (patchSubjectsNamespace L ns u)" "alike w (patchDeploymentEnvNamespace L ns u)"
    "alike w (patchDeploymentPodTemplateLabels L u)"
    "alike w (patchDeploymentIstioExcludePortsAnnotation L u)"
    "alike w (patchDeploymentIstioSidecarAnnotation L v u)"
  by (rule alike_trans [OF assms(2)], rule alike_helpers [OF assms(1)])+

lemma overridden_alike:
  assumes "unstructured_doc L" "ns \<noteq> []"
  shows "alike (rebased ns u) (overridden L ns istio u)"
  unfolding overridden_eq [OF assms] Let_def
  using alike_steps [OF assms(1)] by simp

lemma overridden_id:
  assumes "unstructured_doc L" "ns \<noteq> []"
  shows "resource_id L (overridden L ns istio u) = resource_id L (overridden L ns istio' u)"
  using alike_id [OF assms(1) overridden_alike [OF assms]] by simp

section \<open>Downloading again\<close>

text \<open>Both environments serve the same downloads at any time, and the same file of policies.\<close>

definition same_downloads :: "env \<Rightarrow> env \<Rightarrow> bool" where
  "same_downloads E E' \<longleftrightarrow>
     (\<forall>h h' u. e_http_get E' h' u = e_http_get E h u)
   \<and> e_open E' addonNetworkPoliciesFile = e_open E addonNetworkPoliciesFile"

lemma fetchURL_again:
  "same_downloads E E' \<Longrightarrow> fst (fetchURL L E' u v r') = fst (fetchURL L E u v r)"
  unfolding same_downloads_def
  by (elim conjE allE [where x = "f_hist r"] allE [where x = "f_hist r'"] allE [where x = u])
     (simp add: fetchURL_def http_Get_def split: sum.split)

lemma FetchResources_again:
  assumes "same_downloads E E'"
  shows "fst (FetchResources L E' v r') = fst (FetchResources L E v r)"
  using fetchURL_again [OF assms]
  by (auto simp: FetchResources_def split: sum.splits prod.splits) (metis fst_conv sum.inject sum.distinct)+

text \<open>What is fetched with Istio injection or without, up to the Istio resource.\<close>

lemma fetch_again:
  assumes doc: "unstructured_doc L" and ns: "ns \<noteq> []" and same: "same_downloads E E'"
    and f: "fetchAddonObjs L E v ns istio r = (Ret (Inr objs), rb)"
  shows "\<exists>us objs' qs rb'. objs = (if istio then us @ [PeerAuthentication ns] else us)
    \<and> fetchAddonObjs L E' v ns False r' = (Ret (Inr objs'), rb')
    \<and> map (resource_id L) objs' = map (resource_id L) us
    \<and> f_hist rb' = f_hist r' @ qs \<and> list_all is_ReqHTTPGet qs"
proof -
  obtain x y where x: "FetchResources L E v r = (x, rb)" and y: "FetchResources L E' v r' = (x, y)"
    using f FetchResources_again [OF same, of L v r' r]
    by (cases "FetchResources L E v r"; cases "FetchResources L E' v r'")
       (auto simp: fetchAddonObjs_def split: sum.splits)
  obtain ms where ms: "x = Inr ms" using f x by (cases x) (auto simp: fetchAddonObjs_def)
  obtain nps where nps: "NetworkPolicies L E ns = Ret nps"
    using f x ms by (cases "NetworkPolicies L E ns") (auto simp: fetchAddonObjs_def overrideNamespace_eq)
  then have nps': "NetworkPolicies L E' ns = Ret nps"
    using same by (simp add: NetworkPolicies_def same_downloads_def)
  let ?us = "map (overridden L ns istio) ms @ nps"
  let ?objs' = "map (overridden L ns False) ms @ nps"
  have "objs = (if istio then ?us @ [PeerAuthentication ns] else ?us)"
    using f x ms nps by (auto simp: fetchAddonObjs_def overrideNamespace_eq attachIstioAddonResources_def)
  moreover have f': "fetchAddonObjs L E' v ns False r' = (Ret (Inr ?objs'), y)"
    using y ms nps' by (simp add: fetchAddonObjs_def overrideNamespace_eq attachIstioAddonResources_def)
  moreover have "map (resource_id L) ?objs' = map (resource_id L) ?us"
    using overridden_id [OF doc ns] by simp
  moreover have "\<exists>qs. f_hist y = f_hist r' @ qs \<and> list_all is_ReqHTTPGet qs"
    using effect_fetchAddonObjs [OF f'] by (auto simp: effect_def hist_ext_def)
  ultimately show ?thesis by blast
qed

section \<open>What the requests leave on the cluster\<close>

type_synonym resources = "(string \<times> string \<times> string \<times> string) set"

text \<open>The objects on the cluster after the calls, when each does what it asks for.\<close>

fun after :: "k8s_lib \<Rightarrow> request \<Rightarrow> resources \<Rightarrow> resources" where
  "after L (ReqCreateNamespace n) C = insert (''v1'', ''Namespace'', n, []) C"
| "after L (ReqPatch u) C = insert (resource_id L u) C"
| "after L (ReqDelete u) C = C - {resource_id L u}"
| "after L _ C = C"

definition left_by :: "k8s_lib \<Rightarrow> hist \<Rightarrow> resources \<Rightarrow> resources" where
  "left_by L qs = fold (after L) qs"

lemma left_by_simps [simp]:
  "left_by L [] C = C" "left_by L (q # qs) C = left_by L qs (after L q C)"
  "left_by L (ps @ qs) C = left_by L qs (left_by L ps C)"
  by (simp_all add: left_by_def)

lemma left_by_patches [simp]: "left_by L (map ReqPatch us) C = C \<union> set (map (resource_id L) us)"
  by (induction us arbitrary: C) auto

lemma left_by_deletes [simp]: "left_by L (map ReqDelete us) C = C - set (map (resource_id L) us)"
  by (induction us arbitrary: C) auto

lemma left_by_reads [simp]: "list_all is_ReqHTTPGet qs \<Longrightarrow> left_by L qs C = C"
  by (induction qs arbitrary: C) (auto elim: is_ReqHTTPGet.elims)

text \<open>The objects applied and deleted by the calls.\<close>

fun applied_objs :: "hist \<Rightarrow> obj list" where
  "applied_objs [] = []"
| "applied_objs (ReqPatch u # qs) = u # applied_objs qs"
| "applied_objs (q # qs) = applied_objs qs"

fun deleted_objs :: "hist \<Rightarrow> obj list" where
  "deleted_objs [] = []"
| "deleted_objs (ReqDelete u # qs) = u # deleted_objs qs"
| "deleted_objs (q # qs) = deleted_objs qs"

lemma applied_objs_append [simp]: "applied_objs (ps @ qs) = applied_objs ps @ applied_objs qs"
  by (induction ps rule: applied_objs.induct) simp_all

lemma deleted_objs_append [simp]: "deleted_objs (ps @ qs) = deleted_objs ps @ deleted_objs qs"
  by (induction ps rule: deleted_objs.induct) simp_all

lemma applied_objs_map [simp]: "applied_objs (map ReqPatch us) = us" "applied_objs (map ReqDelete us) = []"
  by (induction us) simp_all

lemma deleted_objs_map [simp]: "deleted_objs (map ReqDelete us) = us" "deleted_objs (map ReqPatch us) = []"
  by (induction us) simp_all

lemma reads_neither [simp]:
  "list_all is_ReqHTTPGet qs \<Longrightarrow> applied_objs qs = []" "list_all is_ReqHTTPGet qs \<Longrightarrow> deleted_objs qs = []"
  by (induction qs) (auto elim: is_ReqHTTPGet.elims)

section \<open>Enabling and disabling\<close>

lemma no_updates_reads [simp]: "list_all is_ReqHTTPGet qs \<Longrightarrow> ReqUpdate k \<notin> set qs"
  by (induction qs) auto

lemma persisted_hist:
  assumes "persisted L k0 st reason msg h r' s'"
  obtains k where "f_hist r' = h @ [ReqUpdate k]" "k_Meta k = k_Meta k0"
  using assms
proof (clarsimp simp: persisted_def)
  fix k
  assume "f_hist r' = h @ [ReqUpdate k]"
    and e: "status_effect L k0 (st_State (k_Status k0)) conditionTypeAddon st reason msg k"
  have "k_Meta k = k_Meta k0"
    using e unfolding status_effect_def by (metis (no_types, lifting) Keda.ext_inject Keda.surjective Keda.update_convs)
  then show thesis using that \<open>f_hist r' = _\<close> by blast
qed

text \<open>The calls of an enabling that was recorded, when nothing had been installed before.\<close>

lemma enabled_calls:
  assumes doc: "conditions_doc L"
    and a: "sFnApplyAddon L E r s = (Ret y, r1, s1)" and h: "f_hist r1 = f_hist r @ qs"
    and k: "ReqUpdate k \<in> set qs"
    and new: "map_get (meta_Annotations (k_Meta (s_instance s))) AnnotationAddonInstalledVersion = []"
    and cfg: "cfg = ReadAddonCfg (s_instance s)" "ns = EffectiveNamespace cfg"
  obtains r0 objs rb gets where
    "fetchAddonObjs L E DefaultAddonVersion ns (addon_IstioInjection cfg) r0 = (Ret (Inr objs), rb)"
    "qs = ReqCreateNamespace ns # gets @ map ReqPatch objs
       @ (if addon_IstioInjection cfg then [] else [ReqDelete (PeerAuthentication ns)]) @ [ReqUpdate k]"
    "list_all is_ReqHTTPGet gets"
    "k_Meta k = k_Meta (record_addon DefaultAddonVersion ns (s_instance s))"
proof -
  let ?r0 = "log_req (ReqCreateNamespace ns) r"
  have n: "ensureNamespace E ns r = (None, ?r0)"
  proof (rule ccontr)
    assume "\<not> ?thesis"
    then have "f_hist r1 = f_hist r @ [ReqCreateNamespace ns]"
      using a cfg by (auto simp: sFnApplyAddon_def ensureNamespace_def Let_def split: option.splits if_splits)
    with h k show False by auto
  qed
  obtain z rb where f: "fetchAddonObjs L E DefaultAddonVersion ns (addon_IstioInjection cfg) ?r0 = (z, rb)"
    by fastforce
  obtain gets where gets: "f_hist rb = f_hist ?r0 @ gets" "list_all is_ReqHTTPGet gets"
    using effect_fetchAddonObjs [OF f] by (auto simp: effect_def hist_ext_def)
  have ap: "(case z of Panic p \<Rightarrow> (Panic p, rb, s)
      | Ret (Inl err) \<Rightarrow> (Ret stopWithNoRequeue, rb,
          addon_condition L E rb ''False'' ConditionReasonAddonInstallErr (Error err) s)
      | Ret (Inr objs) \<Rightarrow> apply_fetched L E cfg DefaultAddonVersion ns objs rb s) = (Ret y, r1, s1)"
    using a n new cfg f
    by (auto simp: sFnApplyAddon_def cleanup_previous_def Let_def split: go.splits sum.splits)
  have "z \<noteq> Ret (Inl err)" for err
    using ap h k gets by auto
  then obtain objs where z: "z = Ret (Inr objs)"
    using ap by (cases z) (auto split: sum.splits)
  have af: "apply_fetched L E cfg DefaultAddonVersion ns objs rb s = (Ret y, r1, s1)" using ap z by simp
  have "\<not> failed L reason err rb s r1 s1" for reason err
  proof
    assume "failed L reason err rb s r1 s1"
    then show False using h k gets by (fastforce simp: failed_def hist_ext_def list_all_iff)
  qed
  then obtain h' where h': "addon_applied E ns (addon_IstioInjection cfg) objs (f_hist rb) h'"
    and p: "persisted L (record_addon DefaultAddonVersion ns (s_instance s)) ''True''
      ConditionReasonAddonInstalled (installed_message DefaultAddonVersion ns) h' r1 s1"
    using apply_fetched_cases [OF doc af] by (auto split: if_splits)
  obtain k' where k': "f_hist r1 = h' @ [ReqUpdate k']"
    "k_Meta k' = k_Meta (record_addon DefaultAddonVersion ns (s_instance s))"
    using persisted_hist [OF p] by blast
  have q: "qs = ReqCreateNamespace ns # gets @ map ReqPatch objs
      @ (if addon_IstioInjection cfg then [] else [ReqDelete (PeerAuthentication ns)]) @ [ReqUpdate k']"
    using h h' k'(1) gets(1) by (auto simp: addon_applied_def split: if_splits)
  then have "k' = k" using k gets(2) by (auto split: if_splits)
  with q k'(2) f z gets(2) show thesis using that by blast
qed

text \<open>
  The calls of a disabling whose manifests were fetched: the objects, then the Istio resource, then the
  update; it stops after the first of these that fails.
\<close>

lemma disabled_calls:
  assumes doc: "conditions_doc L" and a: "delete_known L E ns objs r s = (y, r', s')"
  obtains k qs where "y = Ret stopWithNoRequeue" "f_hist r' = f_hist r @ map ReqDelete objs @ qs"
    "qs \<in> {[], [ReqDelete (PeerAuthentication ns)], [ReqDelete (PeerAuthentication ns), ReqUpdate k]}"
    "k_Meta k = k_Meta (record_addon [] [] (s_instance s))"
    "(\<forall>h u. IgnoreNotFound (e_delete E h u) = None) \<Longrightarrow> ReqUpdate k \<in> set qs"
proof (cases "all_deleted E (f_hist r) objs \<and> istio_gone E ns (f_hist r @ map ReqDelete objs)")
  case True
  then show thesis
    using delete_known_cases [OF doc a] that by (auto elim!: persisted_hist)
next
  case False
  have no: "\<not> (\<forall>h u. IgnoreNotFound (e_delete E h u) = None)"
  proof
    assume ok: "\<forall>h u. IgnoreNotFound (e_delete E h u) = None"
    then have "a = None" if "a \<in> set (deletions E h us)" for a h us
      using that by (induction E h us rule: deletions.induct) auto
    then show False using ok False by (auto simp: all_deleted_def istio_gone_def Let_def)
  qed
  obtain e r1 where d: "deleteObjects E objs r = (e, r1)" by fastforce
  obtain e2 r2 where p: "deletePeerAuthentication E ns r1 = (e2, r2)" by fastforce
  note dc = deleteObjects_cases [OF d] and pc = deletePeerAuthentication_cases [OF p]
  have "f_hist r' = f_hist r @ map ReqDelete objs @ (if e = None then [ReqDelete (PeerAuthentication ns)] else [])"
    using a d p dc pc False by (auto simp: delete_known_def split: option.splits)
  then show thesis
    using that [where k = "record_addon [] [] (s_instance s)"] delete_known_cases [OF doc a] no
    by (cases e) auto
qed

lemma record_addon_annotations:
  "map_get (meta_Annotations (k_Meta (record_addon v ns k))) a =
     (if a = AnnotationAddonInstalledNamespace then ns
      else if a = AnnotationAddonInstalledVersion then v
      else map_get (meta_Annotations (k_Meta k)) a)"
  by (simp add: record_addon_def SetAnnotation_read_back)

text \<open>The calls of the two cancel out.\<close>

lemma calls_cancel:
  assumes qs: "qs = ReqCreateNamespace ns # gets @ map ReqPatch (if istio then us @ [PeerAuthentication ns] else us)
       @ (if istio then [] else [ReqDelete (PeerAuthentication ns)]) @ [ReqUpdate k]"
    and q2: "q2 = gets' @ map ReqDelete objs' @ q"
      "q \<in> {[], [ReqDelete (PeerAuthentication ns)], [ReqDelete (PeerAuthentication ns), ReqUpdate k2]}"
    and ids: "map (resource_id L) objs' = ids" "map (resource_id L) us = ids"
    and gets: "list_all is_ReqHTTPGet gets" "list_all is_ReqHTTPGet gets'"
    and pa: "pa = resource_id L (PeerAuthentication ns)"
  shows "map (resource_id L) (applied_objs qs) \<in> {ids, ids @ [pa]}"
    and "map (resource_id L) (deleted_objs q2) \<in> {ids, ids @ [pa]}"
    and "ReqUpdate k' \<in> set q2 \<Longrightarrow>
      k' = k2 \<and> left_by L (qs @ q2) C = insert (''v1'', ''Namespace'', ns, []) C - insert pa (set ids)"
proof -
  show "map (resource_id L) (applied_objs qs) \<in> {ids, ids @ [pa]}"
    using gets(1) ids(2) by (simp add: qs pa)
  show "map (resource_id L) (deleted_objs q2) \<in> {ids, ids @ [pa]}"
    using gets(2) q2(2) ids(1) by (auto simp: q2(1) pa)
  have sets: "resource_id L ` set objs' = set ids" "resource_id L ` set us = set ids"
    by (simp_all only: set_map [symmetric] ids)
  assume "ReqUpdate k' \<in> set q2"
  then have "k' = k2" and "q = [ReqDelete (PeerAuthentication ns), ReqUpdate k2]"
    using q2 gets(2) by auto
  then show "k' = k2 \<and> left_by L (qs @ q2) C = insert (''v1'', ''Namespace'', ns, []) C - insert pa (set ids)"
    using gets by (auto simp: qs q2(1) pa sets)
qed

abbreviation "annotation k a \<equiv> map_get (meta_Annotations (k_Meta k)) a"

text \<open>
  C17: Disabling the add-on undoes enabling it.  Let an enabling of the add-on have been recorded in the
  resource, where nothing was installed before, and let the downloads stay what they are.  A
  later disabling, in a run of its own that knows only the recorded version and namespace, returns; it
  deletes, in the order in which they were applied, the objects the enabling applied (the same kinds,
  names and namespaces, although the manifests are rewritten for Istio injection when they are applied
  and not when they are deleted), and the Istio resource last unless a deletion failed.  When
  every deletion is acknowledged it updates the resource; and whenever it does, what the two left
  on the cluster is what was there before and the namespace, without the objects of the add-on, and the
  annotations of the resource are as before but for the two of the record, which are gone.
\<close>

theorem addon_round_trip:
  assumes "conditions_doc L" "unstructured_doc L" "same_downloads E E'"
    and "sFnApplyAddon L E r s = (Ret y, r1, s1)" "f_hist r1 = f_hist r @ qs" "ReqUpdate k \<in> set qs"
    and "annotation (s_instance s) ''keda.kyma-project.io/addon-installed-version'' = []"
    and "f_AddonObjs r2 = []"
    and "\<forall>a \<in> {''keda.kyma-project.io/addon-installed-version'', ''keda.kyma-project.io/addon-installed-namespace''}.
      annotation (s_instance s2) a = annotation k a"
    and "ns = EffectiveNamespace (ReadAddonCfg (s_instance s))"
    and "istio = resource_id L (PeerAuthentication ns)"
  shows "\<exists>r3 s3 q2 ids. sFnDeleteAddon L E' r2 s2 = (Ret stopWithNoRequeue, r3, s3)
    \<and> f_hist r3 = f_hist r2 @ q2
    \<and> map (resource_id L) (applied_objs qs) \<in> {ids, ids @ [istio]}
    \<and> map (resource_id L) (deleted_objs q2) \<in> {ids, ids @ [istio]}
    \<and> ((\<forall>h u. IgnoreNotFound (e_delete E' h u) = None) \<longrightarrow> (\<exists>k2. ReqUpdate k2 \<in> set q2))
    \<and> (\<forall>k2. ReqUpdate k2 \<in> set q2 \<longrightarrow>
         (\<forall>C. left_by L (qs @ q2) C = insert (''v1'', ''Namespace'', ns, []) C - insert istio (set ids))
       \<and> (\<forall>a. annotation k2 a =
            (if a \<in> {''keda.kyma-project.io/addon-installed-version'', ''keda.kyma-project.io/addon-installed-namespace''}
             then [] else annotation (s_instance s2) a)))"
proof -
  have ns: "ns \<noteq> []" by (simp add: assms(10) EffectiveNamespace_def)
  obtain r0 objs rb gets where f: "fetchAddonObjs L E DefaultAddonVersion ns
        (addon_IstioInjection (ReadAddonCfg (s_instance s))) r0 = (Ret (Inr objs), rb)"
    and qs: "qs = ReqCreateNamespace ns # gets @ map ReqPatch objs
       @ (if addon_IstioInjection (ReadAddonCfg (s_instance s)) then []
          else [ReqDelete (PeerAuthentication ns)]) @ [ReqUpdate k]"
    and gets: "list_all is_ReqHTTPGet gets"
    and k: "k_Meta k = k_Meta (record_addon DefaultAddonVersion ns (s_instance s))"
    using enabled_calls [OF assms(1,4-6,7) refl assms(10)] by blast
  obtain us objs' gets' rb' where us: "objs = (if addon_IstioInjection (ReadAddonCfg (s_instance s))
        then us @ [PeerAuthentication ns] else us)"
    and f': "fetchAddonObjs L E' DefaultAddonVersion ns False r2 = (Ret (Inr objs'), rb')"
    and ids: "map (resource_id L) objs' = map (resource_id L) us"
    and gets': "f_hist rb' = f_hist r2 @ gets'" "list_all is_ReqHTTPGet gets'"
    using fetch_again [OF assms(2) ns assms(3) f, of r2] by blast
  obtain z r3 s3 where d: "delete_known L E' ns objs' rb' s2 = (z, r3, s3)" by (metis prod_cases3)
  obtain k2 q where q: "z = Ret stopWithNoRequeue" "f_hist r3 = f_hist rb' @ map ReqDelete objs' @ q"
      "q \<in> {[], [ReqDelete (PeerAuthentication ns)], [ReqDelete (PeerAuthentication ns), ReqUpdate k2]}"
      "k_Meta k2 = k_Meta (record_addon [] [] (s_instance s2))"
      "(\<forall>h u. IgnoreNotFound (e_delete E' h u) = None) \<Longrightarrow> ReqUpdate k2 \<in> set q"
    by (rule disabled_calls [OF assms(1) d]) (rule that)
  let ?q2 = "gets' @ map ReqDelete objs' @ q" and ?ids = "map (resource_id L) us"
  have d': "sFnDeleteAddon L E' r2 s2 = (Ret stopWithNoRequeue, r3, s3)" "f_hist r3 = f_hist r2 @ ?q2"
    using d q(1,2) f' ns assms(8,9) gets'
    by (simp_all add: sFnDeleteAddon_def Let_def k record_addon_annotations)
  have A: "annotation k2 a = (if a \<in> {AnnotationAddonInstalledVersion, AnnotationAddonInstalledNamespace}
       then [] else annotation (s_instance s2) a)" for a
    by (simp add: q(4) record_addon_annotations)
  have ack: "(\<forall>h u. IgnoreNotFound (e_delete E' h u) = None) \<longrightarrow> (\<exists>k2. ReqUpdate k2 \<in> set ?q2)"
    using q(5) by auto
  note cancel = calls_cancel [OF qs [unfolded us] refl q(3) ids refl gets gets'(2) assms(11)]
  have u: "\<forall>k'. ReqUpdate k' \<in> set ?q2 \<longrightarrow>
         (\<forall>C. left_by L (qs @ ?q2) C = insert (''v1'', ''Namespace'', ns, []) C - insert istio (set ?ids))
       \<and> (\<forall>a. annotation k' a =
            (if a \<in> {AnnotationAddonInstalledVersion, AnnotationAddonInstalledNamespace}
             then [] else annotation (s_instance s2) a))"
    using cancel(3) A by metis
  show ?thesis
    by (rule exI [of _ r3], rule exI [of _ s3], rule exI [of _ ?q2], rule exI [of _ ?ids])
       (intro conjI d' cancel(1,2) ack u)
qed

section \<open>The round trip at work\<close>

text \<open>Every download has one document, and Istio injection is on when the add-on is enabled.\<close>

definition text_env :: env where
  "text_env = ref_env\<lparr>e_http_get := (\<lambda>h u. Inr \<lparr>StatusCode = 200, Body = Inr ''add-on''\<rparr>)\<rparr>"

definition text_obj :: obj where
  "text_obj = fmap_of_list [(''kind'', JStr ''Text''), (''text'', JStr ''add-on'')]"

lemma text_load: "LoadData ref_lib ''add-on'' = Inr [text_obj]"
proof -
  have "\<not> gvk_Kind (GroupVersionKind ref_lib text_obj) = CRDKind" "text_obj \<noteq> fmempty"
    by (simp_all add: text_obj_def ref_lib_simps ref_gvk_def fld_str_def str_at_def Let_def)
  moreover have "fmupd ''kind'' (JStr ''Text'') (fmupd ''text'' (JStr ''add-on'') fmempty) = text_obj"
    "fld_str text_obj ''text'' = ''add-on''"
    by (simp_all add: text_obj_def fld_str_def)
  ultimately show ?thesis
    by (simp add: LoadData_def ref_lib_simps ref_decode_def normalizeToJSON_def ref_marshal_def
        ref_unmarshal_def)
qed

lemma text_fetchURL: "fetchURL ref_lib text_env u v r = (Inr [text_obj], log_req (ReqHTTPGet u) r)"
  by (simp add: fetchURL_def http_Get_def text_env_def text_load)

lemma text_policies: "NetworkPolicies ref_lib text_env ns = Ret []"
  by (simp add: NetworkPolicies_def text_env_def ref_env_simps LoadData_def ref_lib_simps ref_decode_def)

lemma text_fetch:
  "fetchAddonObjs ref_lib text_env DefaultAddonVersion ns istio r =
     (Ret (Inr (map (overridden ref_lib ns istio) [text_obj, text_obj]
        @ (if istio then [PeerAuthentication ns] else []))),
      log_req (ReqHTTPGet (releaseURL DefaultAddonVersion))
        (log_req (ReqHTTPGet (crdURL DefaultAddonVersion)) r))"
  by (simp add: fetchAddonObjs_def FetchResources_def ref_version text_fetchURL text_policies
      overrideNamespace_eq attachIstioAddonResources_def del: overrideNamespace.simps)

text \<open>The enabling is recorded.\<close>

lemma text_enabled:
  "\<exists>r1 s1 k qs. sFnApplyAddon ref_lib text_env ref_fsm (init_state ref_enabled) = (Ret stopWithNoRequeue, r1, s1)
     \<and> f_hist r1 = f_hist ref_fsm @ qs \<and> ReqUpdate k \<in> set qs
     \<and> applied_objs qs = map (overridden ref_lib ''http'' True) [text_obj, text_obj] @ [PeerAuthentication ''http'']"
  unfolding sFnApplyAddon_def init_state_simps ref_enabled_cfg Let_def
  by (simp add: ensureNamespace_def cleanup_previous_def ref_enabled_def map_get_def text_env_def
      text_fetch [unfolded text_env_def] ref_env_simps EffectiveNamespace_def Let_def
      apply_fetched_def applyObjects_eq persist_annotations_def client_Update_def ref_fsm_simps)

lemma text_id: "resource_id ref_lib (overridden ref_lib ''http'' True text_obj) = ([], ''Text'', [], [])"
proof -
  have "alike text_obj (rebased ''http'' text_obj)"
    by (simp add: rebased_def str_at_def text_obj_def)
  then have "alike text_obj (overridden ref_lib ''http'' True text_obj)"
    using overridden_alike [OF ref_unstructured_doc] alike_trans by blast
  from alike_id [OF ref_unstructured_doc this] show ?thesis
    by (simp add: resource_id_def ref_lib_simps str_at_def text_obj_def)
qed

lemma istio_id: "resource_id ref_lib (PeerAuthentication ''http'')
    = (''security.istio.io/v1'', ''PeerAuthentication'', peerAuthenticationName, ''http'')"
  by (simp add: resource_id_def ref_lib_simps str_at_def PeerAuthentication_def json_map_def)

theorem addon_round_trip_witness:
  "\<exists>qs k r3 s3 q2 k2. ReqUpdate k \<in> set qs \<and> length (applied_objs qs) = 3
    \<and> sFnDeleteAddon ref_lib text_env ref_fsm (init_state k) = (Ret stopWithNoRequeue, r3, s3)
    \<and> f_hist r3 = f_hist ref_fsm @ q2 \<and> ReqUpdate k2 \<in> set q2
    \<and> left_by ref_lib (qs @ q2) {(''v1'', ''Namespace'', ''http'', [])} = {(''v1'', ''Namespace'', ''http'', [])}
    \<and> annotation k2 AnnotationAddonInstalledVersion = []"
proof -
  obtain r1 s1 k qs where
    a: "sFnApplyAddon ref_lib text_env ref_fsm (init_state ref_enabled) = (Ret stopWithNoRequeue, r1, s1)"
      "f_hist r1 = f_hist ref_fsm @ qs" "ReqUpdate k \<in> set qs"
    and p: "applied_objs qs = map (overridden ref_lib ''http'' True) [text_obj, text_obj] @ [PeerAuthentication ''http'']"
    using text_enabled by blast
  let ?k = "init_state k"
  have new: "annotation (s_instance (init_state ref_enabled)) AnnotationAddonInstalledVersion = []"
    by (simp add: ref_enabled_def map_get_def)
  have ns: "''http'' = EffectiveNamespace (ReadAddonCfg (s_instance (init_state ref_enabled)))"
    by (simp add: ref_enabled_cfg EffectiveNamespace_def)
  have same: "same_downloads text_env text_env" "f_AddonObjs ref_fsm = []"
    by (simp_all add: same_downloads_def text_env_def ref_fsm_simps)
  have rec: "\<forall>a \<in> {AnnotationAddonInstalledVersion, AnnotationAddonInstalledNamespace}.
      annotation (s_instance ?k) a = annotation k a" by simp
  have ack: "\<forall>h u. IgnoreNotFound (e_delete text_env h u) = None"
    by (simp add: text_env_def ref_env_simps)
  note rt = addon_round_trip [OF ref_conditions_doc ref_unstructured_doc same(1) a new same(2) rec ns refl]
  then obtain r3 s3 q2 ids k2 where
    d: "sFnDeleteAddon ref_lib text_env ref_fsm ?k = (Ret stopWithNoRequeue, r3, s3)"
      "f_hist r3 = f_hist ref_fsm @ q2" "ReqUpdate k2 \<in> set q2"
    and ids: "map (resource_id ref_lib) (applied_objs qs)
        \<in> {ids, ids @ [resource_id ref_lib (PeerAuthentication ''http'')]}"
    and u: "\<And>C. left_by ref_lib (qs @ q2) C = insert (''v1'', ''Namespace'', ''http'', []) C
        - insert (resource_id ref_lib (PeerAuthentication ''http'')) (set ids)"
      "annotation k2 AnnotationAddonInstalledVersion = []"
    using ack by (elim exE conjE) (metis insertI1)
  have "set ids \<subseteq> {([], ''Text'', [], []), resource_id ref_lib (PeerAuthentication ''http'')}"
    using ids by (auto simp: p text_id append_eq_Cons_conv Cons_eq_append_conv)
  then have "(''v1'', ''Namespace'', ''http'', []) \<notin> insert (resource_id ref_lib (PeerAuthentication ''http'')) (set ids)"
    by (auto simp: istio_id)
  then have "left_by ref_lib (qs @ q2) {(''v1'', ''Namespace'', ''http'', [])} = {(''v1'', ''Namespace'', ''http'', [])}"
    unfolding u(1) by (simp only: insert_absorb2 insert_Diff_if if_False empty_Diff)
  moreover have "length (applied_objs qs) = 3" by (simp add: p)
  ultimately show ?thesis using a(3) d u(2) by blast
qed

end
