(* ===== verification/Managed_Objects.thy ===== *)
theory Managed_Objects
  imports Never_Panics Uninstall_Store Addon_Round_Trip
begin

text \<open>
  The objects of the module are the same ones for the life of the process: whatever the reconciliations
  do to them, each keeps its identity, what is sent for the module has one of these identities, and the
  reconciliation that removes the finalizer deletes all of them.
\<close>

section \<open>What is sent for an object of the module\<close>

lemma image_override_meta: "updateImageIfOverride getenv x b d = Ret d' \<Longrightarrow> same_meta d d'"
  by (auto simp: updateImageIfOverride_def Let_def container0_Ret same_meta_def split: if_splits)

lemma images_id:
  assumes "library_doc L" "updateImagesInDeployments L getenv u = Ret (u', e)"
  shows "u' = fmempty \<or> resource_id L u' = resource_id L u"
proof (cases "fmlookup u ''kind'' = Some (JStr ''Deployment'')")
  case True
  note docs = library_docD [OF assms(1)]
  have k: "GetKind L u = ''Deployment''" using docs(3) True by (simp add: unstructured_doc_def str_at_def)
  show ?thesis
  proof (cases "FromDeployment L u")
    case (Inl err)
    with True assms(2) show ?thesis by (simp add: updateImagesInDeployments_def)
  next
    case (Inr d)
    let ?fips = "ToLower (getenv EnvKymaFipsMode) = ''true''"
    let ?ov = "if d_Name d = operatorName then updateImageIfOverride getenv EnvOperatorImage ?fips d
      else if d_Name d = matricsServerName then updateImageIfOverride getenv EnvMetricsImage ?fips d
      else if d_Name d = admissionWebhooksName then updateImageIfOverride getenv EnvAdmissionImage ?fips d else Ret d"
    obtain d' where d': "?ov = Ret d'"
      using True assms(2) Inr by (cases ?ov) (simp_all add: updateImagesInDeployments_def Let_def split del: if_split)
    then have "same_meta d d'" using image_override_meta by (auto simp: same_meta_def split: if_splits)
    moreover obtain w where w: "ToDeployment L d' = Inr w" using docs(5) by blast
    moreover from True assms(2) Inr d' w have "u' = w"
      by (simp add: updateImagesInDeployments_def Let_def split del: if_split)
    ultimately have "\<exists>d'. same_meta d d' \<and> ToDeployment L d' = Inr u'" by blast
    then show ?thesis using docs(2) k Inr unfolding identity_doc_def by blast
  qed
next
  case False
  with assms(2) show ?thesis by (auto simp: updateImagesInDeployments_def)
qed

lemma patched_id:
  assumes "library_doc L" "sound_object L u"
  shows "patched L E u = fmempty \<or> resource_id L (patched L E u) = resource_id L u"
proof -
  obtain u2 e where p: "snd (prepare L E u) = Ret (u2, e)"
    using prepare_sound(1) [OF assms, of E] by (auto simp: returns_iff)
  obtain u1 where u1: "prepare L E u = (in_place u u1, if fmlookup u1 ''kind'' = Some (JStr ''Deployment'')
      then updateImagesInDeployments L (e_getenv E) u1 else Ret (u1, None))"
  proof -
    obtain ls where "setCommonLabels (GetLabels L (AddDoNotEditDisclaimer L u)) = Ret ls"
      using p by (auto simp: prepare_def Let_def split: go.splits)
    then show thesis by (intro that [of "SetLabels L (AddDoNotEditDisclaimer L u) ls"]) (simp add: prepare_def Let_def)
  qed
  have "u \<noteq> fmempty"
    using assms by (auto simp: sound_object_def library_docD(3) doc_labels smap_at_def nil_if_empty_def)
  then have "resource_id L u1 = resource_id L u" using prepare_sound(3) [OF assms, of E] u1 by (simp add: in_place_def)
  moreover have "u2 = fmempty \<or> resource_id L u2 = resource_id L u1"
    using p u1 images_id [OF assms(1), of "e_getenv E" u1 u2 e] by (auto split: if_splits)
  ultimately show ?thesis by (simp add: patched_def p)
qed

section \<open>The calls of a run\<close>

fun is_ReqCreateNamespace :: "request \<Rightarrow> bool" where
  "is_ReqCreateNamespace (ReqCreateNamespace n) = True"
| "is_ReqCreateNamespace _ = False"

text \<open>The calls before the add-on is enabled, which begins with its namespace.\<close>

definition module_calls :: "hist \<Rightarrow> hist" where
  "module_calls qs = takeWhile (\<lambda>q. \<not> is_ReqCreateNamespace q) qs"

definition keeps_to :: "k8s_lib \<Rightarrow> (string \<times> string \<times> string \<times> string) list \<Rightarrow> hist \<Rightarrow> bool" where
  "keeps_to L ids qs \<longleftrightarrow> (\<forall>u\<in>set (applied_objs (module_calls qs)). u = fmempty \<or> resource_id L u \<in> set ids)"

lemma keeps_to_append: "keeps_to L ids ps \<Longrightarrow> keeps_to L ids qs \<Longrightarrow> keeps_to L ids (ps @ qs)"
  by (cases "\<forall>q\<in>set ps. \<not> is_ReqCreateNamespace q")
     (simp_all add: keeps_to_def module_calls_def takeWhile_append takeWhile_eq_all_conv [THEN iffD2] ball_Un)

lemma no_patches: "list_all (\<lambda>q. \<not> is_ReqPatch q) qs \<Longrightarrow> applied_objs qs = []"
  by (induction qs rule: applied_objs.induct) auto

lemma keeps_to_quiet: "list_all (\<lambda>q. \<not> is_ReqPatch q) qs \<Longrightarrow> keeps_to L ids qs"
proof -
  assume "list_all (\<lambda>q. \<not> is_ReqPatch q) qs"
  then have "list_all (\<lambda>q. \<not> is_ReqPatch q) (module_calls qs)"
    by (auto simp: module_calls_def list_all_iff dest: set_takeWhileD)
  from no_patches [OF this] show ?thesis by (simp add: keeps_to_def)
qed

lemma exec_keeps_to:
  assumes doc: "library_doc L" and safe: "safe_config L ids (Some fn) r" and e: "exec L E fn r s = (y, r', s')"
  shows "\<exists>qs. f_hist r' = f_hist r @ qs \<and> keeps_to L ids qs"
proof (cases "fn = SFnApply \<or> fn = SFnApplyAddon")
  case False
  obtain qs where "f_hist r' = f_hist r @ qs" "list_all (allowed fn) qs"
    using exec_effect [OF e] by (auto simp: effect_def hist_ext_def)
  moreover have "allowed fn q \<Longrightarrow> \<not> is_ReqPatch q" for q using False by (cases fn; cases q) simp_all
  ultimately have "list_all (\<lambda>q. \<not> is_ReqPatch q) qs" by (auto simp: list_all_iff)
  with \<open>f_hist r' = f_hist r @ qs\<close> show ?thesis using keeps_to_quiet by blast
next
  case True
  then show ?thesis
  proof
    assume fn: "fn = SFnApplyAddon"
    with e have "ends (allowed fn) (log_req (ReqCreateNamespace (EffectiveNamespace (ReadAddonCfg (s_instance s)))) r) (y, r', s')"
      using ApplyAddon_after_namespace [of s r L E] by simp
    then show ?thesis by (auto simp: effect_def hist_ext_def keeps_to_def module_calls_def)
  next
    assume fn: "fn = SFnApply"
    have objs: "map (resource_id L) (f_Objs r) = ids" "list_all (sound_object L) (f_Objs r)"
      using safe_configD [OF safe] fn by simp_all
    have "\<not> panics L E u" if "sound_object L u" for u
      using prepare_sound(1) [OF doc that, of E] by (cases "snd (prepare L E u)") (simp_all add: panics_def)
    with objs(2) have np: "\<not> list_ex (panics L E) (f_Objs r)" by (auto simp: list_ex_iff list_all_iff)
    have "f_hist r' = f_hist r @ map ReqPatch (map (patched L E) (f_Objs r))"
      using e fn by (auto simp: sFnApply_def apply_loop_Ret [OF np] Let_def split: if_splits)
    moreover have "module_calls (map ReqPatch us) = map ReqPatch us" for us by (induction us) (simp_all add: module_calls_def)
    moreover have "patched L E u = fmempty \<or> resource_id L (patched L E u) \<in> set ids" if "u \<in> set (f_Objs r)" for u
    proof -
      have "sound_object L u" "resource_id L u \<in> set ids" using that objs by (auto simp: list_all_iff)
      then show ?thesis using patched_id [OF doc, of u E] by metis
    qed
    ultimately have "f_hist r' = f_hist r @ map ReqPatch (map (patched L E) (f_Objs r))"
      "keeps_to L ids (map ReqPatch (map (patched L E) (f_Objs r)))" by (auto simp: keeps_to_def simp del: map_map)
    then show ?thesis by blast
  qed
qed

text \<open>The invariant of the loop with the calls made so far.\<close>

lemma Run_keeps_to:
  assumes doc: "library_doc L" "policies_load L E" "list_all (sound_object L) (f_Objs r)"
    and run: "Run L E r v = (out, r', s')"
  shows "\<exists>qs. f_hist r' = f_hist r @ qs \<and> keeps_to L (map (resource_id L) (f_Objs r)) qs"
proof -
  let ?ids = "map (resource_id L) (f_Objs r)"
  let ?K = "\<lambda>r1. \<exists>qs. f_hist r1 = f_hist r @ qs \<and> keeps_to L ?ids qs"
  obtain res where l: "run_loop L E 0 (Some SFnServedFilter) None r (init_state v) = (res, r', s')"
    using run by (auto simp: Run_def split: prod.splits go.splits)
  have step: "panic_free L E ?ids f r1 s1 \<and> ?K r1" if "panic_free L E ?ids (Some fn) ra sa" "?K ra" "exec L E fn ra sa = (Ret (f, x, e), r1, s1)"
    for f fn ra sa r1 s1 x e
  proof -
    have "safe_config L ?ids (Some fn) ra" using that(1) by (simp add: panic_free_def)
    with that(2) exec_keeps_to [OF doc(1) _ that(3)] have "?K r1" by (metis append_assoc keeps_to_append)
    moreover have "goes_on L ?ids (exec L E fn ra sa)"
      by (rule exec_goes_on) (use that(1) in \<open>simp_all add: panic_free_def\<close>)
    ultimately show ?thesis using that(1,3) by (simp add: panic_free_def)
  qed
  show ?thesis
  proof (rule fsm_loop.loop_rule [OF l, where I = "\<lambda>f x r s. panic_free L E ?ids f r s \<and> ?K r" and Q = "\<lambda>out r s. ?K r"])
    show "panic_free L E ?ids (Some SFnServedFilter) r (init_state v) \<and> ?K r"
      using doc by (auto simp: panic_free_def safe_config_def keeps_to_def module_calls_def)
  next
    fix f x ra sa p r1 s1
    assume I: "panic_free L E ?ids (Some f) ra sa \<and> ?K ra" and e: "exec L E f ra sa = (Panic p, r1, s1)"
    have "goes_on L ?ids (exec L E f ra sa)"
      by (rule exec_goes_on) (use I in \<open>simp_all add: panic_free_def\<close>)
    with e show "?K r1" by (simp add: goes_on_def)
  qed (use step in blast)+
qed

section \<open>Reconciliations\<close>

lemma reconcile_all_kept:
  assumes "library_doc L"
  shows "\<forall>q\<in>set qs. policies_load L (fst q) \<Longrightarrow> list_all (sound_object L) (f_Objs c) \<Longrightarrow>
    list_all (sound_object L) (f_Objs (snd (reconcile_all L qs c)))
    \<and> map (resource_id L) (f_Objs (snd (reconcile_all L qs c))) = map (resource_id L) (f_Objs c)"
proof (induction qs arbitrary: c)
  case (Cons q qs)
  obtain E req where q: "q = (E, req)" by (cases q)
  have "policies_load L E" using Cons.prems(1) q by simp
  from Reconcile_returns [OF assms this Cons.prems(2), of req] obtain y c' where
    r: "Reconcile L E c req = (Ret y, c')" "list_all (sound_object L) (f_Objs c')"
      "map (resource_id L) (f_Objs c') = map (resource_id L) (f_Objs c)" by blast
  obtain outs c2 where "reconcile_all L qs c' = (outs, c2)" by fastforce
  with Cons.IH [OF _ r(2)] Cons.prems(1) r(1,3) q show ?case by simp
qed simp

lemma Reconcile_keeps_to:
  assumes "library_doc L" "policies_load L E" "list_all (sound_object L) (f_Objs c)"
    and "Reconcile L E c req = (out, c')"
  shows "keeps_to L (map (resource_id L) (f_Objs c)) (calls_between c c')"
proof (cases "e_get E (f_hist c) (fst req) (snd req)")
  case (Inl e)
  with assms(4) show ?thesis by (auto simp: Reconcile_def Let_def calls_between_def intro!: keeps_to_quiet)
next
  case (Inr v)
  let ?c = "log_req (ReqGet (fst req) (snd req)) c"
  obtain y r' s' where run: "Run L E ?c v = (y, r', s')" by (metis prod_cases3)
  obtain qs where qs: "f_hist r' = f_hist ?c @ qs" "keeps_to L (map (resource_id L) (f_Objs ?c)) qs"
    using Run_keeps_to [OF assms(1,2) _ run] assms(3) by auto
  have "keeps_to L ids [ReqGet (fst req) (snd req)]" for ids by (rule keeps_to_quiet) simp
  from keeps_to_append [OF this qs(2)] have "keeps_to L (map (resource_id L) (f_Objs c)) (ReqGet (fst req) (snd req) # qs)" by simp
  moreover have "f_hist c' = f_hist r'" using assms(4) Inr run by (auto simp: Reconcile_def Let_def NewFsm_def after_run_def)
  ultimately show ?thesis using qs(1) by (simp add: calls_between_def)
qed

lemma Reconcile_deletes:
  assumes "Reconcile L E c req = (out, c')" "e_get E (f_hist c) (fst req) (snd req) = Inr v" "deleting v"
    and "list_ex is_ReqUpdate (calls_between c c')"
  shows "module_gone L E (f_Objs c) (f_hist c) (f_hist c')"
proof -
  let ?c = "log_req (ReqGet (fst req) (snd req)) c"
  obtain y r' s' where run: "Run L E ?c v = (y, r', s')" by (metis prod_cases3)
  then have h: "f_hist c' = f_hist r'" using assms(1,2) by (auto simp: Reconcile_def Let_def NewFsm_def after_run_def)
  obtain qs where qs: "f_hist r' = f_hist ?c @ qs" using run_permitted [of L ?c v E] run by (auto simp: hist_ext_def)
  have "list_ex is_ReqUpdate (drop (length (f_hist ?c)) (f_hist r'))"
    using assms(4) h qs by (simp add: calls_between_def)
  with deletion_updates_gone [OF assms(3), of L E ?c] run have "module_gone L E (f_Objs c) (f_hist ?c) (f_hist c')"
    by (simp add: updates_gone_def h)
  then show ?thesis by (rule module_gone_mono [rotated 2]) (simp_all add: prefix_def)
qed

text \<open>
  C9: The module is a fixed set of objects.  Let a process have made any sequence of reconciliations, of whatever
  resources and whatever the cluster answered.  Then the objects in memory still have, one by one, the versions, kinds,
  names and namespaces they were loaded with, and so they do after another reconciliation; what this one sends before it enables the
  add-on has one of these identities, or is the empty object of a conversion that failed; and if it removes the finalizer of
  a resource that is being deleted, it has deleted an object of each of these identities, so nothing that was ever
  applied for the module stays behind.
\<close>

theorem module_objects_fixed:
  assumes doc: "library_doc L" "list_all (sound_object L) (f_Objs c)" "\<forall>q\<in>set qs. policies_load L (fst q)" "policies_load L E"
    and ids: "ids = map (resource_id L) (f_Objs c)"
    and run: "c1 = snd (reconcile_all L qs c)" "Reconcile L E c1 req = (out, c2)"
  shows "map (resource_id L) (f_Objs c1) = ids \<and> map (resource_id L) (f_Objs c2) = ids
    \<and> (\<forall>u\<in>set (applied_objs (module_calls (calls_between c1 c2))). u = fmempty \<or> resource_id L u \<in> set ids)
    \<and> (\<forall>v. e_get E (f_hist c1) (fst req) (snd req) = Inr v \<longrightarrow> deleting v \<longrightarrow> list_ex is_ReqUpdate (calls_between c1 c2) \<longrightarrow>
         (\<forall>i\<in>set ids. \<exists>u. resource_id L u = i \<and> deleted E u (f_hist c1) (f_hist c2)))"
proof -
  note k = reconcile_all_kept [OF doc(1,3,2), folded run(1)]
  have c2: "map (resource_id L) (f_Objs c2) = map (resource_id L) (f_Objs c1)"
    using Reconcile_returns [OF doc(1,4) k [THEN conjunct1], of req] run(2) by auto
  have "keeps_to L ids (calls_between c1 c2)"
    using Reconcile_keeps_to [OF doc(1,4) k [THEN conjunct1] run(2)] k ids by simp
  moreover have "\<exists>u. resource_id L u = i \<and> deleted E u (f_hist c1) (f_hist c2)"
    if "e_get E (f_hist c1) (fst req) (snd req) = Inr v" "deleting v" "list_ex is_ReqUpdate (calls_between c1 c2)" "i \<in> set ids" for v i
  proof -
    have "i \<in> resource_id L ` set (f_Objs c1)" using that(4) k ids by (metis list.set_map)
    with Reconcile_deletes [OF run(2) that(1-3)] show ?thesis by (auto simp: module_gone_def)
  qed
  ultimately show ?thesis using k c2 ids by (simp add: keeps_to_def)
qed

text \<open>The last reconciliation of a deletion.\<close>

theorem module_objects_fixed_witness:
  "\<exists>c2. snd (Reconcile ref_lib (ref_api [(''kyma-system'', ''default'') \<mapsto> ref_deleting]) (ref_fsm\<lparr>f_Objs := ref_objects\<rparr>) (''kyma-system'', ''default'')) = c2
     \<and> map (resource_id ref_lib) (f_Objs c2) = map (resource_id ref_lib) ref_objects
     \<and> (\<exists>u. resource_id ref_lib u = (''apps/v1'', ''Deployment'', ''keda-operator'', ''kyma-system'') \<and> ReqDelete u \<in> set (f_hist c2))"
proof -
  let ?q = "(''kyma-system'', ''default'')" and ?c = "ref_fsm\<lparr>f_Objs := ref_objects\<rparr>"
  let ?E = "ref_api [?q \<mapsto> ref_deleting]" and ?r = "log_req (ReqGet (fst ?q) (snd ?q)) ?c"
  obtain out c2 where run: "Reconcile ref_lib ?E ?c ?q = (out, c2)" by fastforce
  have get: "e_get ?E (f_hist ?c) (fst ?q) (snd ?q) = Inr ref_deleting" by (simp add: ref_api_def)
  have v: "delete_ok ref_lib ?r ref_deleting" "f_AddonObjs ?r = []" "deletable ref_lib ?E (f_Objs ?r)" "deletion_left ref_deleting = 0"
    by (simp_all add: ref_api_deletable delete_ok_def served_def IsServedEmpty_def has_finalizer_def deleting_def IsZero_def ref_deleting_def
        ref_meta_def ref_keda_def ref_lib_simps ref_fsm_simps deletion_left_def mk_condition_def)
  obtain r' s' pre where "Run ref_lib ?E ?r ref_deleting = (Ret (\<lparr>r_Requeue = deletion_left ref_deleting \<noteq> 0, r_RequeueAfter = 0\<rparr>, None), r', s')"
    and "f_hist r' = f_hist ?r @ pre @ [ReqUpdate (s_instance s')]"
    by (rule deletion_run [OF v(3,2,1) ref_conditions_doc]) (use that v(4) in blast)
  then have upd: "list_ex is_ReqUpdate (calls_between ?c c2)"
    using run get by (auto simp: Reconcile_def Let_def NewFsm_def after_run_def calls_between_def)
  have load: "policies_load ref_lib ?E" "list_all (sound_object ref_lib) (f_Objs ?c)" "\<forall>q\<in>set []. policies_load ref_lib (fst q)"
    using ref_policies_load by (simp_all add: policies_load_def ref_api_def ref_objects_sound)
  have "?c = snd (reconcile_all ref_lib [] ?c)" by simp
  note t = module_objects_fixed [OF ref_library_doc load(2,3,1) refl this run]
  have "resource_id ref_lib (enc_deployment (ref_deployment ''keda-operator'')) = (''apps/v1'', ''Deployment'', ''keda-operator'', ''kyma-system'')"
    by (simp add: dec_deployment_id enc_deployment_inv ref_deployment_def) (simp add: str_at_def enc_deployment_def)
  then have "(''apps/v1'', ''Deployment'', ''keda-operator'', ''kyma-system'') \<in> set (map (resource_id ref_lib) (f_Objs ?c))"
    by (simp add: ref_objects_def)
  moreover have "deleting ref_deleting" using v(1) by (simp add: delete_ok_def)
  ultimately obtain u where "resource_id ref_lib u = (''apps/v1'', ''Deployment'', ''keda-operator'', ''kyma-system'')"
    "deleted ?E u (f_hist ?c) (f_hist c2)" using t get upd by blast
  then have "\<exists>u. resource_id ref_lib u = (''apps/v1'', ''Deployment'', ''keda-operator'', ''kyma-system'') \<and> ReqDelete u \<in> set (f_hist c2)"
    by (auto simp: deleted_def answered_def)
  then show ?thesis using t run by simp
qed

end
