(* ===== verification/Addon_Runs.thy ===== *)
theory Addon_Runs
  imports Uninstall_Store Addon_Round_Trip
begin

text \<open>
  Switching the HTTP add-on on and off as seen from the cluster: the reconciliation that installs it with the module,
  the one that removes it after the annotation was taken away, and what the two leave in the store and on the cluster.
\<close>

section \<open>The states of the add-on on a cluster that cooperates\<close>

text \<open>The namespace can be had, deletions are acknowledged and the manifests can be fetched at any time.\<close>

definition deletes_all :: "env \<Rightarrow> bool" where
  "deletes_all E \<longleftrightarrow> (\<forall>h u. IgnoreNotFound (e_delete E h u) = None)"

definition offers_addon :: "k8s_lib \<Rightarrow> env \<Rightarrow> AddonCfg \<Rightarrow> bool" where
  "offers_addon L E cfg \<longleftrightarrow> deletes_all E
   \<and> (\<forall>h. e_create_ns E h (EffectiveNamespace cfg) = None \<or> IsAlreadyExists (e_create_ns E h (EffectiveNamespace cfg)))
   \<and> (\<forall>r. \<exists>objs rb. fetchAddonObjs L E DefaultAddonVersion (EffectiveNamespace cfg) (addon_IstioInjection cfg) r = (Ret (Inr objs), rb))"

lemma offersD:
  assumes "offers_addon L E cfg" "ns = EffectiveNamespace cfg"
  shows "deletes_all E" "ensureNamespace E ns r = (None, log_req (ReqCreateNamespace ns) r)"
    "\<exists>objs rb. fetchAddonObjs L E DefaultAddonVersion ns (addon_IstioInjection cfg) r = (Ret (Inr objs), rb)"
proof -
  from assms have "e_create_ns E (f_hist r) ns = None \<or> IsAlreadyExists (e_create_ns E (f_hist r) ns)"
    by (simp add: offers_addon_def)
  then show "ensureNamespace E ns r = (None, log_req (ReqCreateNamespace ns) r)"
    by (auto simp: ensureNamespace_def Let_def split: option.split)
qed (use assms in \<open>simp_all add: offers_addon_def\<close>)

lemma deletes_all_istio: "deletes_all E \<Longrightarrow> deletePeerAuthentication E ns r = (None, log_req (ReqDelete (PeerAuthentication ns)) r)"
  by (simp add: deletes_all_def deletePeerAuthentication_def client_Delete_def)

lemma deletes_all_objects: "deletes_all E \<Longrightarrow> deleteObjects E us r = (None, r\<lparr>f_hist := f_hist r @ map ReqDelete us\<rparr>)"
proof -
  assume ok: "deletes_all E"
  have "a = None" if "a \<in> set (deletions E h us)" for a h
    using that ok by (induction E h us rule: deletions.induct) (auto simp: deletes_all_def)
  then show ?thesis by (auto simp: deleteObjects_def deleteObjects_loop_eq prod_eq_iff fold_join_opt_None)
qed

lemma cooperative_patches: "cooperative E applied \<Longrightarrow> patches E h us = map (\<lambda>u. (None, applied u)) us"
  by (induction us arbitrary: h) (simp_all add: cooperativeD)

lemma cooperative_applies:
  "cooperative E applied \<Longrightarrow> applyObjects E us r = (None, map applied us, r\<lparr>f_hist := f_hist r @ map ReqPatch us\<rparr>)"
  by (simp add: applyObjects_eq cooperative_patches prod_eq_iff fold_join_None comp_def)

lemma cooperative_persists:
  "cooperative E applied \<Longrightarrow> persist_annotations E r s = (log_req (ReqUpdate (s_instance s)) r, s)"
  by (simp add: persist_annotations_def client_Update_def cooperativeD set_instance_def)

text \<open>The resource as the two states leave it.\<close>

definition addon_installed :: "k8s_lib \<Rightarrow> time \<Rightarrow> string \<Rightarrow> Keda \<Rightarrow> Keda" where
  "addon_installed L t ns k = SetAddonCondition L t ''True'' ''HTTPAddonInstalled'' (installed_message DefaultAddonVersion ns)
     (record_addon DefaultAddonVersion ns k)"

definition addon_removed :: "k8s_lib \<Rightarrow> time \<Rightarrow> Keda \<Rightarrow> Keda" where
  "addon_removed L t k = SetAddonCondition L t ''False'' ''HTTPAddonDeleted'' ''HTTP add-on removed'' (record_addon [] [] k)"

lemma apply_fetched_ok:
  assumes co: "cooperative E applied" and del: "deletes_all E"
  shows "\<exists>r1 t. apply_fetched L E cfg DefaultAddonVersion ns objs r s
      = (Ret stopWithNoRequeue, r1, set_instance (addon_installed L t ns (s_instance s)) s)
    \<and> f_hist r1 = f_hist r @ map ReqPatch objs @ (if addon_IstioInjection cfg then [] else [ReqDelete (PeerAuthentication ns)])
        @ [ReqUpdate (addon_installed L t ns (s_instance s))]"
proof -
  let ?r = "r\<lparr>f_hist := f_hist r @ map ReqPatch objs\<rparr>"
  define r2 where "r2 = (if addon_IstioInjection cfg then ?r else log_req (ReqDelete (PeerAuthentication ns)) ?r)"
  let ?r3 = "r2\<lparr>f_AddonObjs := map applied objs\<rparr>"
  let ?k = "addon_installed L (e_now E (f_hist ?r3)) ns (s_instance s)"
  have "(if \<not> addon_IstioInjection cfg then deletePeerAuthentication E ns ?r else (None, ?r)) = (None, r2)"
    by (simp add: r2_def deletes_all_istio [OF del])
  then have "apply_fetched L E cfg DefaultAddonVersion ns objs r s = (Ret stopWithNoRequeue, log_req (ReqUpdate ?k) ?r3, set_instance ?k s)"
    by (simp add: apply_fetched_def cooperative_applies [OF co] cooperative_persists [OF co] addon_condition_def
        addon_installed_def record_addon_def Let_def)
  moreover have "f_hist (log_req (ReqUpdate ?k) ?r3) = f_hist r @ map ReqPatch objs
      @ (if addon_IstioInjection cfg then [] else [ReqDelete (PeerAuthentication ns)]) @ [ReqUpdate ?k]"
    by (simp add: r2_def)
  ultimately show ?thesis by blast
qed

lemma apply_addon_ok:
  assumes co: "cooperative E applied" and cfg: "cfg = ReadAddonCfg (s_instance s)" "ns = EffectiveNamespace cfg"
    and off: "offers_addon L E cfg" and new: "annotation (s_instance s) AnnotationAddonInstalledVersion = []"
  obtains r1 t r0 objs rb gets where
    "sFnApplyAddon L E r s = (Ret stopWithNoRequeue, r1, set_instance (addon_installed L t ns (s_instance s)) s)"
    "fetchAddonObjs L E DefaultAddonVersion ns (addon_IstioInjection cfg) r0 = (Ret (Inr objs), rb)" "list_all is_ReqHTTPGet gets"
    "f_hist r1 = f_hist r @ ReqCreateNamespace ns # gets @ map ReqPatch objs
        @ (if addon_IstioInjection cfg then [] else [ReqDelete (PeerAuthentication ns)])
        @ [ReqUpdate (addon_installed L t ns (s_instance s))]"
proof -
  note o = offersD [OF off cfg(2)]
  let ?r0 = "log_req (ReqCreateNamespace ns) r"
  obtain objs rb where f: "fetchAddonObjs L E DefaultAddonVersion ns (addon_IstioInjection cfg) ?r0 = (Ret (Inr objs), rb)"
    using o(3) by blast
  obtain gets where gets: "f_hist rb = f_hist ?r0 @ gets" "list_all is_ReqHTTPGet gets"
    using effect_fetchAddonObjs [OF f] by (auto simp: effect_def hist_ext_def)
  have "sFnApplyAddon L E r s = apply_fetched L E cfg DefaultAddonVersion ns objs rb s"
    using o(2) f cfg new by (simp add: sFnApplyAddon_def cleanup_previous_def Let_def)
  moreover obtain r1 t where "apply_fetched L E cfg DefaultAddonVersion ns objs rb s
        = (Ret stopWithNoRequeue, r1, set_instance (addon_installed L t ns (s_instance s)) s)"
      "f_hist r1 = f_hist rb @ map ReqPatch objs @ (if addon_IstioInjection cfg then [] else [ReqDelete (PeerAuthentication ns)])
        @ [ReqUpdate (addon_installed L t ns (s_instance s))]"
    using apply_fetched_ok [OF co o(1)] by blast
  ultimately show thesis using f gets by (intro that) simp_all
qed

lemma delete_addon_ok:
  assumes co: "cooperative E applied" and del: "deletes_all E" and a: "f_AddonObjs r = []"
    and rec: "annotation (s_instance s) AnnotationAddonInstalledVersion = version" "version \<noteq> []"
      "annotation (s_instance s) AnnotationAddonInstalledNamespace = ns" "ns \<noteq> []"
    and f: "fetchAddonObjs L E version ns False r = (Ret (Inr objs), rb)"
  shows "\<exists>r1 t. sFnDeleteAddon L E r s = (Ret stopWithNoRequeue, r1, set_instance (addon_removed L t (s_instance s)) s)
    \<and> f_hist r1 = f_hist rb @ map ReqDelete objs
        @ [ReqDelete (PeerAuthentication ns), ReqUpdate (addon_removed L t (s_instance s))]"
  using assms
  by (simp add: sFnDeleteAddon_def delete_known_def deletes_all_objects deletes_all_istio cooperative_persists [OF co]
      addon_condition_def addon_removed_def record_addon_def Let_def) blast

section \<open>The two runs\<close>

text \<open>The calls of a run up to the update of the resource, which is stored as it is reported.\<close>

definition stores_report :: "k8s_lib \<Rightarrow> env \<Rightarrow> fsm \<Rightarrow> Keda \<Rightarrow> hist \<Rightarrow> Keda \<Rightarrow> bool" where
  "stores_report L E r v qs k \<longleftrightarrow> (\<exists>r' s' cs. Run L E r v = (Ret (\<lparr>r_Requeue = False, r_RequeueAfter = 0\<rparr>, None), r', s')
     \<and> f_hist r' = f_hist r @ qs @ [ReqUpdate k, ReqStatusUpdate k] @ map event_of cs)"

definition enabling_calls :: "string \<Rightarrow> bool \<Rightarrow> hist \<Rightarrow> obj list \<Rightarrow> hist" where
  "enabling_calls ns istio gets objs = ReqCreateNamespace ns # gets @ map ReqPatch objs
     @ (if istio then [] else [ReqDelete (PeerAuthentication ns)])"

lemma verified_meta: "k_Meta (verified_report L t version (map_logging f v)) = k_Meta v"
  by (simp add: verified_report_def map_logging_def)

lemma enabling_run:
  assumes co: "cooperative E applied" and ok: "install_ok L r v" and i: "installable L E applied r v us"
    and cfg: "cfg = ReadAddonCfg v" "ns = EffectiveNamespace cfg" "addon_Enabled cfg" "offers_addon L E cfg"
    and new: "annotation v AnnotationAddonInstalledVersion = []"
  obtains t t' version k r0 objs rb gets where
    "stores_report L E r v (map ReqPatch (map (patched L E) us) @ enabling_calls ns (addon_IstioInjection cfg) gets objs) k"
    "k = addon_installed L t' ns (verified_report L t version (map_logging sanitize_logging v))"
    "fetchAddonObjs L E DefaultAddonVersion ns (addon_IstioInjection cfg) r0 = (Ret (Inr objs), rb)" "list_all is_ReqHTTPGet gets"
proof -
  obtain t version r2 s3 where to: "reaches L E (SFnUpdateKedaDeployment, r, saveKedaStatus (init_state v)) (SFnHandleAddon, r2, s3)"
    and s3: "s_instance s3 = verified_report L t version (map_logging sanitize_logging v)" "s_snapshot s3 = k_Status v"
    and r2: "f_hist r2 = f_hist r @ map ReqPatch (map (patched L E) us)"
    using verified_reaches [OF co i] by blast
  have m: "ReadAddonCfg (s_instance s3) = cfg" "annotation (s_instance s3) AnnotationAddonInstalledVersion = []"
    using new by (simp_all add: s3(1) verified_meta ReadAddonCfg_def cfg(1))
  obtain r1 t' r0 objs rb gets where
    a: "sFnApplyAddon L E r2 s3 = (Ret stopWithNoRequeue, r1, set_instance (addon_installed L t' ns (s_instance s3)) s3)"
    and f: "fetchAddonObjs L E DefaultAddonVersion ns (addon_IstioInjection cfg) r0 = (Ret (Inr objs), rb)" "list_all is_ReqHTTPGet gets"
    and h: "f_hist r1 = f_hist r2 @ ReqCreateNamespace ns # gets @ map ReqPatch objs
        @ (if addon_IstioInjection cfg then [] else [ReqDelete (PeerAuthentication ns)])
        @ [ReqUpdate (addon_installed L t' ns (s_instance s3))]"
    by (rule apply_addon_ok [OF co m(1) [symmetric] cfg(2,4) m(2)]) (rule that)
  let ?s4 = "set_instance (addon_installed L t' ns (s_instance s3)) s3"
  have "reaches L E (SFnApplyAddon, r2, s3) (SFnUpdateStatus None None, r1, ?s4)"
    by (rule reaches_stop) (simp only: exec.simps a)
  then have add: "reaches L E (SFnHandleAddon, r2, s3) (SFnUpdateStatus None None, r1, ?s4)"
    by (rule reaches_switch [rotated]) (simp add: sFnHandleAddon_def m(1) cfg(3))
  have "s_snapshot ?s4 = k_Status v" by (simp add: s3(2))
  from reported_run [OF co ok to add this] h r2
  have "stores_report L E r v (map ReqPatch (map (patched L E) us) @ enabling_calls ns (addon_IstioInjection cfg) gets objs)
      (addon_installed L t' ns (s_instance s3))"
    unfolding stores_report_def enabling_calls_def by fastforce
  then show thesis using that f unfolding s3(1) by blast
qed

lemma disabling_run:
  assumes co: "cooperative E applied" and ok: "install_ok L r v" and i: "installable L E applied r v us"
    and off: "\<not> addon_Enabled (ReadAddonCfg v)" "deletes_all E" "f_AddonObjs r = []"
    and rec: "annotation v AnnotationAddonInstalledVersion = version" "version \<noteq> []"
      "annotation v AnnotationAddonInstalledNamespace = ns" "ns \<noteq> []"
    and doc: "unstructured_doc L" and f: "same_downloads E0 E" "fetchAddonObjs L E0 version ns istio r0 = (Ret (Inr objs), rb)"
  obtains t t' y k ms objs' gets where
    "stores_report L E r v (map ReqPatch (map (patched L E) us) @ ReqList httpScaledObjectGVK # gets @ map ReqDelete objs'
       @ [ReqDelete (PeerAuthentication ns)]) k"
    "k = addon_removed L t' (verified_report L t y (map_logging sanitize_logging v))"
    "objs = (if istio then ms @ [PeerAuthentication ns] else ms)" "map (resource_id L) objs' = map (resource_id L) ms"
    "list_all is_ReqHTTPGet gets"
proof -
  obtain t y r2 s3 where to: "reaches L E (SFnUpdateKedaDeployment, r, saveKedaStatus (init_state v)) (SFnHandleAddon, r2, s3)"
    and s3: "s_instance s3 = verified_report L t y (map_logging sanitize_logging v)" "s_snapshot s3 = k_Status v"
    and r2: "f_hist r2 = f_hist r @ map ReqPatch (map (patched L E) us)" "f_AddonObjs r2 = f_AddonObjs r"
    using verified_reaches [OF co i] by blast
  let ?r3 = "log_req (ReqList httpScaledObjectGVK) r2"
  have m: "ReadAddonCfg (s_instance s3) = ReadAddonCfg v" "f_AddonObjs ?r3 = []"
    "annotation (s_instance s3) AnnotationAddonInstalledVersion = version" "annotation (s_instance s3) AnnotationAddonInstalledNamespace = ns"
    using rec off(3) r2(2) by (simp_all add: s3(1) verified_meta ReadAddonCfg_def)
  obtain ms objs' gets rb' where ms: "objs = (if istio then ms @ [PeerAuthentication ns] else ms)"
    and f': "fetchAddonObjs L E version ns False ?r3 = (Ret (Inr objs'), rb')"
    and ids: "map (resource_id L) objs' = map (resource_id L) ms"
    and gets: "f_hist rb' = f_hist ?r3 @ gets" "list_all is_ReqHTTPGet gets"
    using fetch_again [OF doc rec(4) f, of ?r3] by blast
  obtain r1 t' where a: "sFnDeleteAddon L E ?r3 s3 = (Ret stopWithNoRequeue, r1, set_instance (addon_removed L t' (s_instance s3)) s3)"
    and h: "f_hist r1 = f_hist rb' @ map ReqDelete objs'
        @ [ReqDelete (PeerAuthentication ns), ReqUpdate (addon_removed L t' (s_instance s3))]"
    using delete_addon_ok [OF co off(2) m(2,3) rec(2) m(4) rec(4) f'] by blast
  let ?s4 = "set_instance (addon_removed L t' (s_instance s3)) s3"
  have "reaches L E (SFnDeleteAddon, ?r3, s3) (SFnUpdateStatus None None, r1, ?s4)"
    by (rule reaches_stop) (simp only: exec.simps a)
  then have "reaches L E (SFnGuardAddonInUse, r2, s3) (SFnUpdateStatus None None, r1, ?s4)"
    by (rule reaches_switch [rotated]) (simp add: sFnGuardAddonInUse_def cooperativeD [OF co])
  then have add: "reaches L E (SFnHandleAddon, r2, s3) (SFnUpdateStatus None None, r1, ?s4)"
    by (rule reaches_switch [rotated]) (simp add: sFnHandleAddon_def m(1) off(1))
  have "s_snapshot ?s4 = k_Status v" by (simp add: s3(2))
  from reported_run [OF co ok to add this] h r2(1) gets(1)
  have "stores_report L E r v (map ReqPatch (map (patched L E) us) @ ReqList httpScaledObjectGVK # gets @ map ReqDelete objs'
       @ [ReqDelete (PeerAuthentication ns)]) (addon_removed L t' (s_instance s3))"
    unfolding stores_report_def by fastforce
  then show thesis using that ms ids gets(2) unfolding s3(1) by blast
qed

section \<open>What the two leave\<close>

text \<open>In the store: the resource as it was updated and reported.\<close>

lemma report_stored:
  assumes co: "cooperative E applied" and s: "serves E c q st" "st q = Some v" "key k = q"
    and rep: "stores_report L E (log_req (ReqGet (fst q) (snd q)) c) v qs k"
    and quiet: "list_all (\<lambda>q. \<not> is_ReqUpdate q \<and> \<not> is_ReqStatusUpdate q) qs"
  shows "\<exists>c' cs. stored_run L E q (st, c) = (Ret (\<lparr>r_Requeue = False, r_RequeueAfter = 0\<rparr>, None), st(q \<mapsto> k), c')
    \<and> f_hist c' = f_hist c @ ReqGet (fst q) (snd q) # qs @ [ReqUpdate k, ReqStatusUpdate k] @ map event_of cs"
proof -
  obtain r' s' cs where run: "Run L E (log_req (ReqGet (fst q) (snd q)) c) v = (Ret (\<lparr>r_Requeue = False, r_RequeueAfter = 0\<rparr>, None), r', s')"
    and h: "f_hist r' = f_hist c @ ReqGet (fst q) (snd q) # qs @ [ReqUpdate k, ReqStatusUpdate k] @ map event_of cs"
    using rep unfolding stores_report_def by auto
  have "stored_run L E q (st, c) = (Ret (\<lparr>r_Requeue = False, r_RequeueAfter = 0\<rparr>, None), st(q \<mapsto> k),
      c\<lparr>f_Objs := take (length (f_Objs c)) (f_Objs r'), f_hist := f_hist r'\<rparr>)"
    using stored_run_eq [OF s(1,2) run h] s(2,3)
    by (simp add: written_skip [OF quiet] cooperativeD [OF co] written_events store_put)
  with h show ?thesis by (intro exI [of _ "c\<lparr>f_Objs := take (length (f_Objs c)) (f_Objs r'), f_hist := f_hist r'\<rparr>"] exI [of _ cs]) simp
qed

lemma left_by_events [simp]: "left_by L (map event_of cs) C = C"
  by (induction cs arbitrary: C) (simp_all add: event_of_def)

lemma quiet_gets [simp]: "list_all is_ReqHTTPGet qs \<Longrightarrow> list_all (\<lambda>q. \<not> is_ReqUpdate q \<and> \<not> is_ReqStatusUpdate q) qs"
  by (erule list.pred_mono_strong) (auto elim: is_ReqHTTPGet.elims)

lemma quiet_map [simp]:
  "list_all (\<lambda>q. \<not> is_ReqUpdate q \<and> \<not> is_ReqStatusUpdate q) (map (ReqPatch \<circ> g) us)"
  "list_all (\<lambda>q. \<not> is_ReqUpdate q \<and> \<not> is_ReqStatusUpdate q) (map ReqPatch us)"
  "list_all (\<lambda>q. \<not> is_ReqUpdate q \<and> \<not> is_ReqStatusUpdate q) (map ReqDelete us)"
  by (simp_all add: list_all_iff)

text \<open>In the status: the module is ready, and the add-on in the given condition.\<close>

definition ready_with_addon :: "k8s_lib \<Rightarrow> Keda \<Rightarrow> string \<Rightarrow> string \<Rightarrow> string \<Rightarrow> bool" where
  "ready_with_addon L k status reason msg \<longleftrightarrow> st_State (k_Status k) = ''Ready''
     \<and> has_condition L k ''Installed'' ''True'' ''Verified'' ''keda-operator and keda-operator-metrics-server ready''
     \<and> has_condition L k ''AddonInstalled'' status reason msg"

lemma record_addon_status [simp]: "k_Status (record_addon v ns k) = k_Status k" "k_Spec (record_addon v ns k) = k_Spec k"
  by (simp_all add: record_addon_def SetAnnotation_def Let_def)

lemma addon_reported:
  assumes doc: "conditions_doc L"
  shows "ready_with_addon L (SetAddonCondition L t' status reason msg (record_addon a ns (verified_report L t y k))) status reason msg"
  using find_set_condition [OF doc]
  by (simp add: ready_with_addon_def has_condition_def Find_doc [OF doc] SetAddonCondition_def verified_report_def
      UpdateStateReady_def)

lemma addon_meta:
  "k_Meta (SetAddonCondition L t status reason msg k) = k_Meta k" "k_Spec (SetAddonCondition L t status reason msg k) = k_Spec k"
  "k_Spec (verified_report L t y k) = k_Spec k"
  by (simp_all add: SetAddonCondition_def set_condition_def verified_report_def status_defs set_KedaVersion_def)

text \<open>On the cluster: the identities of the objects of the module, as they are sent.\<close>

definition module_ids :: "k8s_lib \<Rightarrow> env \<Rightarrow> obj list \<Rightarrow> resources" where
  "module_ids L E us = set (map (resource_id L \<circ> patched L E) us)"

lemma left_by_module [simp]: "left_by L (map (ReqPatch \<circ> patched L E) us) C = C \<union> module_ids L E us"
  using left_by_patches [of L "map (patched L E) us" C] by (simp add: module_ids_def image_comp comp_def)

lemma enabling_stored:
  assumes co: "cooperative E applied" and doc: "conditions_doc L" and s: "serves E c q st" "st q = Some v" "key v = q"
    and ok: "install_ok L c v" and i: "installable L E applied c v us"
    and cfg: "cfg = ReadAddonCfg v" "ns = EffectiveNamespace cfg" "addon_Enabled cfg" "offers_addon L E cfg"
    and new: "annotation v AnnotationAddonInstalledVersion = []"
  obtains c1 k r0 objs rb where
    "stored_run L E q (st, c) = (Ret (\<lparr>r_Requeue = False, r_RequeueAfter = 0\<rparr>, None), st(q \<mapsto> k), c1)"
    "ready_with_addon L k ''True'' ''HTTPAddonInstalled'' (installed_message DefaultAddonVersion ns)"
    "k_Meta k = k_Meta (record_addon DefaultAddonVersion ns v)" "k_Spec k = k_Spec (map_logging sanitize_logging v)"
    "fetchAddonObjs L E DefaultAddonVersion ns (addon_IstioInjection cfg) r0 = (Ret (Inr objs), rb)"
    "\<And>C. left_by L (calls_between c c1) C = insert (''v1'', ''Namespace'', ns, []) (C \<union> module_ids L E us) \<union> set (map (resource_id L) objs)
       - (if addon_IstioInjection cfg then {} else {resource_id L (PeerAuthentication ns)})"
proof -
  let ?r = "log_req (ReqGet (fst q) (snd q)) c"
  have r: "install_ok L ?r v" "installable L E applied ?r v us"
    using ok i installable_cong [of ?r c v v L E applied us] by (simp_all add: log_req_def install_ok_def has_finalizer_def)
  obtain t t' version k r0 objs rb gets where
    rep: "stores_report L E ?r v (map ReqPatch (map (patched L E) us) @ enabling_calls ns (addon_IstioInjection cfg) gets objs) k"
    and k: "k = addon_installed L t' ns (verified_report L t version (map_logging sanitize_logging v))"
    and f: "fetchAddonObjs L E DefaultAddonVersion ns (addon_IstioInjection cfg) r0 = (Ret (Inr objs), rb)" "list_all is_ReqHTTPGet gets"
    by (rule enabling_run [OF co r cfg new]) (rule that)
  have m: "k_Meta k = k_Meta (record_addon DefaultAddonVersion ns v)"
    by (simp add: k addon_installed_def addon_meta record_addon_def SetAnnotation_def Let_def verified_meta)
  have key: "key k = q" using s(3) by (simp add: key_def m record_addon_def SetAnnotation_def Let_def)
  have "list_all (\<lambda>q. \<not> is_ReqUpdate q \<and> \<not> is_ReqStatusUpdate q)
      (map ReqPatch (map (patched L E) us) @ enabling_calls ns (addon_IstioInjection cfg) gets objs)"
    using f(2) by (simp add: enabling_calls_def)
  from report_stored [OF co s(1,2) key rep this] obtain c1 cs where
    c1: "stored_run L E q (st, c) = (Ret (\<lparr>r_Requeue = False, r_RequeueAfter = 0\<rparr>, None), st(q \<mapsto> k), c1)"
    and h: "f_hist c1 = f_hist c @ ReqGet (fst q) (snd q) # (map ReqPatch (map (patched L E) us)
        @ enabling_calls ns (addon_IstioInjection cfg) gets objs) @ [ReqUpdate k, ReqStatusUpdate k] @ map event_of cs"
    by blast
  show thesis
  proof (rule that [OF c1 _ m _ f(1)])
    show "ready_with_addon L k ''True'' ''HTTPAddonInstalled'' (installed_message DefaultAddonVersion ns)"
      unfolding k addon_installed_def by (rule addon_reported [OF doc])
    show "k_Spec k = k_Spec (map_logging sanitize_logging v)" by (simp add: k addon_installed_def addon_meta)
    show "left_by L (calls_between c c1) C = insert (''v1'', ''Namespace'', ns, []) (C \<union> module_ids L E us) \<union> set (map (resource_id L) objs)
       - (if addon_IstioInjection cfg then {} else {resource_id L (PeerAuthentication ns)})" for C
      using f(2) by (auto simp: calls_between_def h enabling_calls_def)
  qed
qed

lemma disabling_stored:
  assumes co: "cooperative E applied" and docs: "conditions_doc L" "unstructured_doc L"
    and s: "serves E c q st" "st q = Some v" "key v = q"
    and ok: "install_ok L c v" and i: "installable L E applied c v us"
    and off: "\<not> addon_Enabled (ReadAddonCfg v)" "deletes_all E" "f_AddonObjs c = []"
    and rec: "annotation v AnnotationAddonInstalledVersion = version" "version \<noteq> []"
      "annotation v AnnotationAddonInstalledNamespace = ns" "ns \<noteq> []"
    and f: "same_downloads E0 E" "fetchAddonObjs L E0 version ns istio r0 = (Ret (Inr objs), rb)"
  obtains c1 k where
    "stored_run L E q (st, c) = (Ret (\<lparr>r_Requeue = False, r_RequeueAfter = 0\<rparr>, None), st(q \<mapsto> k), c1)"
    "ready_with_addon L k ''False'' ''HTTPAddonDeleted'' ''HTTP add-on removed''"
    "k_Meta k = k_Meta (record_addon [] [] v)"
    "\<And>C. left_by L (calls_between c c1) C = C \<union> module_ids L E us
       - insert (resource_id L (PeerAuthentication ns)) (set (map (resource_id L) objs))"
proof -
  let ?r = "log_req (ReqGet (fst q) (snd q)) c"
  have r: "install_ok L ?r v" "installable L E applied ?r v us" "f_AddonObjs ?r = []"
    using ok i off(3) installable_cong [of ?r c v v L E applied us] by (simp_all add: log_req_def install_ok_def has_finalizer_def)
  obtain t t' y k ms objs' gets where
    rep: "stores_report L E ?r v (map ReqPatch (map (patched L E) us) @ ReqList httpScaledObjectGVK # gets @ map ReqDelete objs'
       @ [ReqDelete (PeerAuthentication ns)]) k"
    and k: "k = addon_removed L t' (verified_report L t y (map_logging sanitize_logging v))"
    and ms: "objs = (if istio then ms @ [PeerAuthentication ns] else ms)" "map (resource_id L) objs' = map (resource_id L) ms"
    and gets: "list_all is_ReqHTTPGet gets"
    by (rule disabling_run [OF co r(1,2) off(1,2) r(3) rec docs(2) f]) (rule that)
  have m: "k_Meta k = k_Meta (record_addon [] [] v)"
    by (simp add: k addon_removed_def addon_meta record_addon_def SetAnnotation_def Let_def verified_meta)
  have key: "key k = q" using s(3) by (simp add: key_def m record_addon_def SetAnnotation_def Let_def)
  have "list_all (\<lambda>q. \<not> is_ReqUpdate q \<and> \<not> is_ReqStatusUpdate q) (map ReqPatch (map (patched L E) us)
      @ ReqList httpScaledObjectGVK # gets @ map ReqDelete objs' @ [ReqDelete (PeerAuthentication ns)])"
    using gets by simp
  from report_stored [OF co s(1,2) key rep this] obtain c1 cs where
    c1: "stored_run L E q (st, c) = (Ret (\<lparr>r_Requeue = False, r_RequeueAfter = 0\<rparr>, None), st(q \<mapsto> k), c1)"
    and h: "f_hist c1 = f_hist c @ ReqGet (fst q) (snd q) # (map ReqPatch (map (patched L E) us)
        @ ReqList httpScaledObjectGVK # gets @ map ReqDelete objs' @ [ReqDelete (PeerAuthentication ns)])
        @ [ReqUpdate k, ReqStatusUpdate k] @ map event_of cs"
    by blast
  have ids: "resource_id L ` set objs' = resource_id L ` set ms" using ms(2) by (metis set_map)
  show thesis
  proof (rule that [OF c1 _ m])
    show "ready_with_addon L k ''False'' ''HTTPAddonDeleted'' ''HTTP add-on removed''"
      unfolding k addon_removed_def by (rule addon_reported [OF docs(1)])
    show "left_by L (calls_between c c1) C = C \<union> module_ids L E us
       - insert (resource_id L (PeerAuthentication ns)) (set (map (resource_id L) objs))" for C
      using gets by (auto simp: calls_between_def h ms(1) ids)
  qed
qed

section \<open>On and off\<close>

text \<open>
  C7: Switching the HTTP add-on on and off, as seen from the cluster.  Let the store hold a resource that is
  installed and asks for the add-on, with none recorded, on a cluster that accepts every call and brings the deployments up,
  where the manifests can be downloaded.  Then its reconciliation ends without asking for another; the stored resource reports the module
  as ready and the add-on as installed, and its annotations record the version and the namespace; the namespace,
  the objects of the module and those of the add-on are on the cluster, the Istio resource among them exactly when it was asked for.  Its
  specification is stored as the run sanitised it.  Whatever happened to the store since, the record still there, and with a reconciler
  that knows nothing of that run: when the resource no longer asks for the add-on and no HTTPScaledObject is left, its
  next reconciliation deletes the objects of the add-on and the Istio resource and nothing else, and the stored resource
  reports the module as ready, the add-on as removed, and keeps no record of it, with its other annotations as they were.
\<close>

theorem addon_on_and_off:
  assumes co: "cooperative E1 applied1" "cooperative E2 applied2"
    and docs: "conditions_doc L" "unstructured_doc L" and down: "same_downloads E1 E2" "deletes_all E2"
    and on: "st q = Some v" "key v = q" "install_ok L c v" "installable L E1 applied1 c v us1"
      "addon_Enabled (ReadAddonCfg v)" "offers_addon L E1 (ReadAddonCfg v)"
      "annotation v ''keda.kyma-project.io/addon-installed-version'' = []"
    and run1: "serves E1 c q st" "stored_run L E1 q (st, c) = (out1, st1, c1)"
    and off: "st2 q = Some w" "key w = q" "install_ok L d w" "installable L E2 applied2 d w us2" "f_AddonObjs d = []"
      "\<not> addon_Enabled (ReadAddonCfg w)"
      "\<forall>a \<in> {''keda.kyma-project.io/addon-installed-version'', ''keda.kyma-project.io/addon-installed-namespace''}.
         annotation w a = annotation (the (st1 q)) a"
    and run2: "serves E2 d q st2" "stored_run L E2 q (st2, d) = (out2, st3, d1)"
    and names: "ns = EffectiveNamespace (ReadAddonCfg v)" "istio = resource_id L (PeerAuthentication ns)"
      "injected = addon_IstioInjection (ReadAddonCfg v)"
  shows "out1 = Ret (\<lparr>r_Requeue = False, r_RequeueAfter = 0\<rparr>, None) \<and> out2 = Ret (\<lparr>r_Requeue = False, r_RequeueAfter = 0\<rparr>, None)
    \<and> (\<exists>k. st1 = st(q \<mapsto> k) \<and> k_Spec k = k_Spec (map_logging sanitize_logging v)
         \<and> ready_with_addon L k ''True'' ''HTTPAddonInstalled'' (''HTTP add-on v'' @ DefaultAddonVersion @ '' installed in namespace '' @ ns)
         \<and> (\<forall>a. annotation k a = (if a = ''keda.kyma-project.io/addon-installed-version'' then DefaultAddonVersion
              else if a = ''keda.kyma-project.io/addon-installed-namespace'' then ns else annotation v a)))
    \<and> (\<exists>k. st3 = st2(q \<mapsto> k) \<and> ready_with_addon L k ''False'' ''HTTPAddonDeleted'' ''HTTP add-on removed''
         \<and> (\<forall>a. annotation k a = (if a \<in> {''keda.kyma-project.io/addon-installed-version'', ''keda.kyma-project.io/addon-installed-namespace''}
              then [] else annotation w a)))
    \<and> (\<exists>objs r0 rb. fetchAddonObjs L E1 DefaultAddonVersion ns injected r0 = (Ret (Inr objs), rb)
         \<and> (\<forall>C. left_by L (calls_between c c1) C = insert (''v1'', ''Namespace'', ns, []) (C \<union> module_ids L E1 us1)
               \<union> set (map (resource_id L) objs) - (if injected then {} else {istio})
            \<and> left_by L (calls_between d d1) C = C \<union> module_ids L E2 us2 - insert istio (set (map (resource_id L) objs))))"
proof -
  have ns: "ns \<noteq> []" "DefaultAddonVersion \<noteq> []" by (simp_all add: names(1) EffectiveNamespace_def)
  obtain x k r0 objs rb where 1:
    "stored_run L E1 q (st, c) = (Ret (\<lparr>r_Requeue = False, r_RequeueAfter = 0\<rparr>, None), st(q \<mapsto> k), x)"
    "ready_with_addon L k ''True'' ''HTTPAddonInstalled'' (installed_message DefaultAddonVersion ns)"
    "k_Meta k = k_Meta (record_addon DefaultAddonVersion ns v)" "k_Spec k = k_Spec (map_logging sanitize_logging v)"
    and f: "fetchAddonObjs L E1 DefaultAddonVersion ns injected r0 = (Ret (Inr objs), rb)"
    and l1: "\<And>C. left_by L (calls_between c x) C = insert (''v1'', ''Namespace'', ns, []) (C \<union> module_ids L E1 us1)
       \<union> set (map (resource_id L) objs) - (if injected then {} else {istio})"
    by (rule enabling_stored [OF co(1) docs(1) run1(1) on(1-4) refl names(1) on(5-7), folded names(2,3)]) (rule that)
  have y: "out1 = Ret (\<lparr>r_Requeue = False, r_RequeueAfter = 0\<rparr>, None)" "st1 = st(q \<mapsto> k)" "x = c1"
    using 1(1) run1(2) by simp_all
  have rec: "annotation w AnnotationAddonInstalledVersion = DefaultAddonVersion" "annotation w AnnotationAddonInstalledNamespace = ns"
    using off(7) by (simp_all add: y(2) 1(3) record_addon_annotations)
  obtain z k2 where 2:
    "stored_run L E2 q (st2, d) = (Ret (\<lparr>r_Requeue = False, r_RequeueAfter = 0\<rparr>, None), st2(q \<mapsto> k2), z)"
    "ready_with_addon L k2 ''False'' ''HTTPAddonDeleted'' ''HTTP add-on removed''" "k_Meta k2 = k_Meta (record_addon [] [] w)"
    and l2: "\<And>C. left_by L (calls_between d z) C = C \<union> module_ids L E2 us2 - insert istio (set (map (resource_id L) objs))"
    by (rule disabling_stored [OF co(2) docs run2(1) off(1-4) off(6) down(2) off(5) rec(1) ns(2) rec(2) ns(1) down(1) f, folded names(2)])
      (rule that)
  have z: "out2 = Ret (\<lparr>r_Requeue = False, r_RequeueAfter = 0\<rparr>, None)" "st3 = st2(q \<mapsto> k2)" "z = d1"
    using 2(1) run2(2) by simp_all
  have "\<exists>k. st1 = st(q \<mapsto> k) \<and> k_Spec k = k_Spec (map_logging sanitize_logging v)
         \<and> ready_with_addon L k ''True'' ''HTTPAddonInstalled'' (''HTTP add-on v'' @ DefaultAddonVersion @ '' installed in namespace '' @ ns)
         \<and> (\<forall>a. annotation k a = (if a = AnnotationAddonInstalledVersion then DefaultAddonVersion
              else if a = AnnotationAddonInstalledNamespace then ns else annotation v a))"
    by (rule exI [of _ k]) (use 1(2) in \<open>simp add: y(2) 1(3,4) record_addon_annotations installed_message_def\<close>)
  moreover have "\<exists>k. st3 = st2(q \<mapsto> k) \<and> ready_with_addon L k ''False'' ''HTTPAddonDeleted'' ''HTTP add-on removed''
         \<and> (\<forall>a. annotation k a = (if a \<in> {AnnotationAddonInstalledVersion, AnnotationAddonInstalledNamespace} then [] else annotation w a))"
    by (rule exI [of _ k2]) (use 2(2) in \<open>simp add: z(2) 2(3) record_addon_annotations\<close>)
  moreover have "\<exists>objs r0 rb. fetchAddonObjs L E1 DefaultAddonVersion ns injected r0 = (Ret (Inr objs), rb)
         \<and> (\<forall>C. left_by L (calls_between c c1) C = insert (''v1'', ''Namespace'', ns, []) (C \<union> module_ids L E1 us1)
               \<union> set (map (resource_id L) objs) - (if injected then {} else {istio})
            \<and> left_by L (calls_between d d1) C = C \<union> module_ids L E2 us2 - insert istio (set (map (resource_id L) objs)))"
    by (rule exI [of _ objs], rule exI [of _ r0], rule exI [of _ rb]) (simp only: f l1 [unfolded y(3)] l2 [unfolded z(3)] simp_thms)
  ultimately show ?thesis by (intro conjI y(1) z(1))
qed

section \<open>The two runs at work\<close>

text \<open>A cluster with one resource, whose API answers from the store and where every download has one document.\<close>

definition text_api :: "store \<Rightarrow> env" where
  "text_api st = (ref_api st)\<lparr>e_http_get := e_http_get text_env\<rparr>"

definition ref_on :: Keda where
  "ref_on = ref_enabled\<lparr>k_Status := k_Status ref_ready\<rparr>"

definition ref_off :: Keda where
  "ref_off = Addon_Properties.ref_installed\<lparr>k_Status := k_Status ref_ready\<rparr>"

lemma text_api_env: "cooperative (text_api st) id" "deletes_all (text_api st)" "same_downloads (text_api st) (text_api st')"
  by (simp_all add: text_api_def cooperative_def deletes_all_def same_downloads_def ref_api_def text_env_def ref_env_simps
      httpScaledObjectsInUse_def client_List_def)

lemma text_api_serves: "dom st = {(''kyma-system'', ''default'')} \<Longrightarrow> serves (text_api st) c (''kyma-system'', ''default'') st"
  using ref_api_serves [of st c] by (simp add: text_api_def serves_def Keda_Store.answers_def)

lemma text_api_offers: "offers_addon ref_lib (text_api st) cfg"
proof -
  have "fetchURL ref_lib (text_api st) u v r = (Inr [text_obj], log_req (ReqHTTPGet u) r)" for u v r
    by (simp add: fetchURL_def http_Get_def text_api_def text_env_def text_load)
  moreover have "NetworkPolicies ref_lib (text_api st) ns = Ret []" for ns
    using text_policies [of ns] by (simp add: NetworkPolicies_def text_api_def ref_api_def text_env_def)
  ultimately have "\<exists>objs rb. fetchAddonObjs ref_lib (text_api st) DefaultAddonVersion ns istio r = (Ret (Inr objs), rb)" for ns istio r
    by (simp add: fetchAddonObjs_def FetchResources_def ref_version overrideNamespace_eq del: overrideNamespace.simps)
  then show ?thesis
    using text_api_env(2) [of st] by (simp add: offers_addon_def) (simp add: text_api_def ref_api_def ref_env_simps)
qed

lemma text_api_installable:
  assumes "k_Spec k = k_Spec ref_new"
  shows "installable ref_lib (text_api st) id (ref_fsm\<lparr>f_Objs := ref_objects\<rparr>) k Install_Progress.ref_installed"
proof -
  have "e_getenv (text_api st) = e_getenv (ref_api st)" by (simp add: text_api_def)
  then have "prepare ref_lib (text_api st) = prepare ref_lib (ref_api st)" by (intro ext) (simp only: prepare_def)
  then have "installable ref_lib (text_api st) id r k us \<longleftrightarrow> installable ref_lib (ref_api st) id r k us" for r k us
    by (simp add: installable_def panics_def [abs_def] image_failed_def [abs_def] patched_def [abs_def] comp_def)
  then show ?thesis using ref_api_installable installable_cong [OF refl refl assms] by blast
qed

lemma ref_on_off:
  "key ref_on = (''kyma-system'', ''default'')" "key ref_off = (''kyma-system'', ''default'')"
  "install_ok ref_lib (ref_fsm\<lparr>f_Objs := ref_objects\<rparr>) ref_on" "install_ok ref_lib (ref_fsm\<lparr>f_Objs := ref_objects\<rparr>) ref_off"
  "k_Spec ref_on = k_Spec ref_new" "k_Spec ref_off = k_Spec ref_new"
  "ReadAddonCfg ref_on = \<lparr>addon_Enabled = True, addon_Namespace = ''http'', addon_IstioInjection = True\<rparr>"
  "\<not> addon_Enabled (ReadAddonCfg ref_off)" "annotation ref_on AnnotationAddonInstalledVersion = []"
  "annotation ref_off AnnotationAddonInstalledVersion = DefaultAddonVersion" "annotation ref_off AnnotationAddonInstalledNamespace = ''http''"
  using ref_enabled_cfg
  by (simp_all add: ref_on_def ref_off_def ref_enabled_def Addon_Properties.ref_installed_def ref_ready_def ref_new_def ref_keda_def
      ref_meta_def ref_spec_def ReadAddonCfg_def map_get_def EqualFold_def ToLower_def key_def install_ok_def served_def IsServedEmpty_def
      has_finalizer_def deleting_def IsZero_def hasRestrictedAnnotations_def ref_lib_simps ref_fsm_simps)

text \<open>On, then off again by a reconciler that was restarted in between.\<close>

theorem addon_on_and_off_witness:
  "\<exists>E1 E2 k1 c1 k2 d1.
     stored_run ref_lib E1 (''kyma-system'', ''default'') ([(''kyma-system'', ''default'') \<mapsto> ref_on], ref_fsm\<lparr>f_Objs := ref_objects\<rparr>)
       = (Ret (\<lparr>r_Requeue = False, r_RequeueAfter = 0\<rparr>, None), [(''kyma-system'', ''default'') \<mapsto> k1], c1)
     \<and> ready_with_addon ref_lib k1 ''True'' ''HTTPAddonInstalled'' ''HTTP add-on v0.15.0 installed in namespace http''
     \<and> stored_run ref_lib E2 (''kyma-system'', ''default'') ([(''kyma-system'', ''default'') \<mapsto> ref_off], ref_fsm\<lparr>f_Objs := ref_objects\<rparr>)
       = (Ret (\<lparr>r_Requeue = False, r_RequeueAfter = 0\<rparr>, None), [(''kyma-system'', ''default'') \<mapsto> k2], d1)
     \<and> ready_with_addon ref_lib k2 ''False'' ''HTTPAddonDeleted'' ''HTTP add-on removed''
     \<and> annotation k2 ''keda.kyma-project.io/addon-installed-version'' = []"
proof -
  let ?q = "(''kyma-system'', ''default'')" and ?c = "ref_fsm\<lparr>f_Objs := ref_objects\<rparr>"
  let ?E1 = "text_api [?q \<mapsto> ref_on]" and ?E2 = "text_api [?q \<mapsto> ref_off]"
  have s: "serves ?E1 ?c ?q [?q \<mapsto> ref_on]" "serves ?E2 ?c ?q [?q \<mapsto> ref_off]" by (simp_all add: text_api_serves)
  have a: "f_AddonObjs ?c = []" by (simp add: ref_fsm_simps)
  have q: "[?q \<mapsto> ref_on] ?q = Some ref_on" "[?q \<mapsto> ref_off] ?q = Some ref_off" by simp_all
  have en: "addon_Enabled (ReadAddonCfg ref_on)" "''http'' = EffectiveNamespace (ReadAddonCfg ref_on)"
    by (simp_all add: ref_on_off(7) EffectiveNamespace_def)
  have inst: "installable ref_lib ?E1 id ?c ref_on Install_Progress.ref_installed" "installable ref_lib ?E2 id ?c ref_off Install_Progress.ref_installed"
    by (simp_all add: text_api_installable ref_on_off)
  obtain out1 st1 c1 where 1: "stored_run ref_lib ?E1 ?q ([?q \<mapsto> ref_on], ?c) = (out1, st1, c1)" by (metis prod_cases3)
  obtain out2 st3 d1 where 2: "stored_run ref_lib ?E2 ?q ([?q \<mapsto> ref_off], ?c) = (out2, st3, d1)" by (metis prod_cases3)
  obtain x k r0 objs rb where "stored_run ref_lib ?E1 ?q ([?q \<mapsto> ref_on], ?c) = (Ret (\<lparr>r_Requeue = False, r_RequeueAfter = 0\<rparr>, None), [?q \<mapsto> ref_on, ?q \<mapsto> k], x)"
    and k: "k_Meta k = k_Meta (record_addon DefaultAddonVersion ''http'' ref_on)"
    by (rule enabling_stored [OF text_api_env(1) ref_conditions_doc s(1) q(1) ref_on_off(1,3) inst(1) refl en(2,1) text_api_offers ref_on_off(9)])
      (rule that)
  then have rec: "\<forall>a \<in> {AnnotationAddonInstalledVersion, AnnotationAddonInstalledNamespace}. annotation ref_off a = annotation (the (st1 ?q)) a"
    using 1 by (auto simp: record_addon_annotations k ref_on_off(10,11))
  note t = addon_on_and_off [OF text_api_env(1) text_api_env(1) ref_conditions_doc ref_unstructured_doc text_api_env(3,2) q(1) ref_on_off(1,3)
      inst(1) en(1) text_api_offers ref_on_off(9) s(1) 1 q(2) ref_on_off(2,4) inst(2) a ref_on_off(8) rec s(2) 2 en(2) refl refl]
  obtain k1 where k1: "st1 = [?q \<mapsto> ref_on, ?q \<mapsto> k1]"
    "ready_with_addon ref_lib k1 ''True'' ''HTTPAddonInstalled'' (''HTTP add-on v'' @ DefaultAddonVersion @ '' installed in namespace '' @ ''http'')"
    using t [THEN conjunct2, THEN conjunct2, THEN conjunct1] by blast
  obtain k2 where k2: "st3 = [?q \<mapsto> ref_off, ?q \<mapsto> k2]" "ready_with_addon ref_lib k2 ''False'' ''HTTPAddonDeleted'' ''HTTP add-on removed''"
    "annotation k2 AnnotationAddonInstalledVersion = []"
    using t [THEN conjunct2, THEN conjunct2, THEN conjunct2, THEN conjunct1] by (metis insertI1)
  have "out1 = Ret (\<lparr>r_Requeue = False, r_RequeueAfter = 0\<rparr>, None)" "out2 = Ret (\<lparr>r_Requeue = False, r_RequeueAfter = 0\<rparr>, None)"
    using t [THEN conjunct1] t [THEN conjunct2, THEN conjunct1] by simp_all
  then show ?thesis using 1 2 k1 k2
    by (intro exI [of _ ?E1] exI [of _ ?E2] exI [of _ k1] exI [of _ c1] exI [of _ k2] exI [of _ d1]) simp
qed

end
