(* ===== verification/Registration.thy ===== *)
theory Registration
  imports Fsm
begin

text \<open>
  What happens before \<open>main\<close>: the package variables of \<open>api/v1alpha1/groupversion_info.go\<close>, the \<open>init\<close> of
  \<open>keda_types.go\<close>, which registers the types of the API with the builder, and the \<open>init\<close> of \<open>main.go\<close>,
  which adds the types of three packages to the scheme and panics when one cannot be added.  Schemes
  and builders belong to the library \<open>runtime\<close> and are parameters.
\<close>

section \<open>Schemes and builders\<close>

record GroupVersion =
  gv_Group :: string
  gv_Version :: string

datatype api_object =
    KedaObject
  | KedaListObject

record ('b, 's) scheme_lib =
  NewScheme :: 's
  NewBuilder :: "GroupVersion \<Rightarrow> 'b"
  Register :: "'b \<Rightarrow> api_object list \<Rightarrow> 'b"
  AddToScheme :: "'b \<Rightarrow> 's \<Rightarrow> goerror option \<times> 's"
  Clientgo_AddToScheme :: "'s \<Rightarrow> goerror option \<times> 's"
  Apiextensions_AddToScheme :: "'s \<Rightarrow> goerror option \<times> 's"
  Recognizes :: "'s \<Rightarrow> GVK \<Rightarrow> bool"

section \<open>The package v1alpha1\<close>

definition GroupVersion_v1alpha1 :: GroupVersion where
  "GroupVersion_v1alpha1 = \<lparr>gv_Group = ''operator.kyma-project.io'', gv_Version = ''v1alpha1''\<rparr>"

definition SchemeBuilder :: "('b, 's) scheme_lib \<Rightarrow> 'b" where
  "SchemeBuilder S = NewBuilder S GroupVersion_v1alpha1"

text \<open>The builder is a pointer, so \<open>AddToScheme\<close>, bound to it before, sees what \<open>init\<close> registers.\<close>

definition init_v1alpha1 :: "('b, 's) scheme_lib \<Rightarrow> 'b" where
  "init_v1alpha1 S = Register S (SchemeBuilder S) [KedaObject, KedaListObject]"

section \<open>The package main\<close>

definition Must :: "goerror option \<Rightarrow> unit go" where
  "Must e = (case e of None \<Rightarrow> Ret () | Some err \<Rightarrow> Panic (Error err))"

definition add_types :: "('s \<Rightarrow> goerror option \<times> 's) \<Rightarrow> 's \<Rightarrow> 's go" where
  "add_types add s = (case add s of (err, s') \<Rightarrow> go_bind (Must err) (\<lambda>_. Ret s'))"

definition init_main :: "('b, 's) scheme_lib \<Rightarrow> 'b \<Rightarrow> 's go" where
  "init_main S builder =
     go_bind (add_types (Clientgo_AddToScheme S) (NewScheme S)) (\<lambda>s1.
     go_bind (add_types (Apiextensions_AddToScheme S) s1) (\<lambda>s2.
     add_types (AddToScheme S builder) s2))"

section \<open>What the scheme knows\<close>

text \<open>A builder adds the types registered with it, under its group and version and the names of the types.\<close>

fun kind_of_object :: "api_object \<Rightarrow> string" where
  "kind_of_object KedaObject = ''Keda''"
| "kind_of_object KedaListObject = ''KedaList''"

definition builder_doc :: "('b, 's) scheme_lib \<Rightarrow> bool" where
  "builder_doc S \<longleftrightarrow> (\<forall>gv ts s s'. AddToScheme S (Register S (NewBuilder S gv) ts) s = (None, s') \<longrightarrow>
     (\<forall>x\<in>set ts. Recognizes S s' \<lparr>gvk_Group = gv_Group gv, gvk_Version = gv_Version gv, gvk_Kind = kind_of_object x\<rparr>))"

lemma add_types_Ret: "add_types add s = Ret s' \<longleftrightarrow> add s = (None, s')"
  by (auto simp: add_types_def Must_def split: prod.split option.split)

text \<open>
  The process starts with a scheme that knows the Keda resource and its list, or panics; it panics exactly
  when one of the three packages cannot be added.
\<close>

theorem init_main_recognizes:
  assumes "builder_doc S" "init_main S (init_v1alpha1 S) = Ret s"
  shows "Recognizes S s \<lparr>gvk_Group = ''operator.kyma-project.io'', gvk_Version = ''v1alpha1'', gvk_Kind = ''Keda''\<rparr>
    \<and> Recognizes S s \<lparr>gvk_Group = ''operator.kyma-project.io'', gvk_Version = ''v1alpha1'', gvk_Kind = ''KedaList''\<rparr>"
proof -
  obtain s2 where "AddToScheme S (Register S (NewBuilder S GroupVersion_v1alpha1) [KedaObject, KedaListObject]) s2 = (None, s)"
    using assms(2) by (auto simp: init_main_def go_bind_Ret_iff add_types_Ret init_v1alpha1_def SchemeBuilder_def)
  with assms(1) have "\<forall>x\<in>set [KedaObject, KedaListObject]. Recognizes S s \<lparr>gvk_Group = gv_Group GroupVersion_v1alpha1,
      gvk_Version = gv_Version GroupVersion_v1alpha1, gvk_Kind = kind_of_object x\<rparr>"
    unfolding builder_doc_def by blast
  then show ?thesis by (simp add: GroupVersion_v1alpha1_def)
qed

theorem init_main_returns_iff:
  "(\<exists>s. init_main S b = Ret s) \<longleftrightarrow>
     (\<exists>s1 s2 s. Clientgo_AddToScheme S (NewScheme S) = (None, s1) \<and> Apiextensions_AddToScheme S s1 = (None, s2)
        \<and> AddToScheme S b s2 = (None, s))"
  by (auto simp: init_main_def go_bind_Ret_iff add_types_Ret)

text \<open>A scheme as the list of the kinds it knows.\<close>

definition ref_scheme :: "(GroupVersion \<times> api_object list, GVK list) scheme_lib" where
  "ref_scheme = \<lparr>NewScheme = [], NewBuilder = (\<lambda>gv. (gv, [])), Register = (\<lambda>(gv, ts) us. (gv, ts @ us)),
     AddToScheme = (\<lambda>(gv, ts) s. (None, s @ map (\<lambda>x. \<lparr>gvk_Group = gv_Group gv, gvk_Version = gv_Version gv,
        gvk_Kind = kind_of_object x\<rparr>) ts)),
     Clientgo_AddToScheme = (\<lambda>s. (None, s)), Apiextensions_AddToScheme = (\<lambda>s. (None, s)),
     Recognizes = (\<lambda>s g. g \<in> set s)\<rparr>"

theorem init_main_recognizes_witness:
  "\<exists>s. init_main ref_scheme (init_v1alpha1 ref_scheme) = Ret s
     \<and> Recognizes ref_scheme s \<lparr>gvk_Group = ''operator.kyma-project.io'', gvk_Version = ''v1alpha1'', gvk_Kind = ''Keda''\<rparr>"
proof -
  have "builder_doc ref_scheme" by (auto simp: builder_doc_def ref_scheme_def)
  moreover obtain s where s: "init_main ref_scheme (init_v1alpha1 ref_scheme) = Ret s"
    by (simp add: init_main_def add_types_def Must_def init_v1alpha1_def SchemeBuilder_def ref_scheme_def)
  ultimately show ?thesis using init_main_recognizes [of ref_scheme s] by blast
qed

section \<open>Names of states\<close>

text \<open>
  \<open>stateFnName\<close> of \<open>fsm.go\<close>, the name of the current state in the log.  The name of a function is given by the
  runtime: the path of its package and its own name, separated by a dot.
\<close>

definition stateFnName :: "string \<Rightarrow> string" where
  "stateFnName fullName =
     (let splitFullName = split_on CHR ''.'' fullName in
      if length splitFullName < 3 then fullName else splitFullName ! 2)"

lemma split_on_dot:
  "c \<notin> set xs \<Longrightarrow> split_on c xs = [xs]" "c \<notin> set xs \<Longrightarrow> split_on c (xs @ c # ys) = xs # split_on c ys"
  by (induction xs) auto

text \<open>
  The package path contains one dot, so the short name is that of the function, up to its own first dot:
  the states built by the generic function \<open>buildSfnUpdateObject\<close> all share one name in the log.
\<close>

theorem stateFnName_short:
  assumes "CHR ''.'' \<notin> set host" "CHR ''.'' \<notin> set path" "CHR ''.'' \<notin> set name"
  shows "stateFnName (host @ ''.'' @ path @ ''.'' @ name) = name"
    and "stateFnName (host @ ''.'' @ path @ ''.'' @ name @ ''.'' @ rest) = name"
  using assms split_on_nonempty [of "CHR ''.''"] by (simp_all add: stateFnName_def split_on_dot Let_def)

theorem stateFnName_short_witness:
  "stateFnName ''github.com/kyma-project/keda-manager/pkg/reconciler.sFnApply'' = ''sFnApply''
   \<and> stateFnName ''github.com/kyma-project/keda-manager/pkg/reconciler.buildSfnUpdateObject[...].func1'' = ''buildSfnUpdateObject[''"
  using stateFnName_short(1) [of "''github''" "''com/kyma-project/keda-manager/pkg/reconciler''" "''sFnApply''"]
    stateFnName_short(2) [of "''github''" "''com/kyma-project/keda-manager/pkg/reconciler''" "''buildSfnUpdateObject[''" "''..].func1''"]
  by simp

end
