(* ===== verification/Spec2Isabelle.thy ===== *)
theory Spec2Isabelle
  imports Config_Properties Apply_Properties Manifest_Properties Stability_Properties Startup_Properties
    Cleanup_Properties Event_Properties Permissions Heap_Refinement Managed_Objects Addon_Runs Registration
begin

text \<open>
  Verification of the Keda manager, a Kubernetes operator written in Go that installs and configures
  KEDA from a custom resource of the kind \<open>Keda\<close>.

  \<^bold>\<open>The program.\<close>  The process (\<open>main.go\<close>) loads the manifests of the module from two files, builds the
  controller (\<open>controllers/\<close>) and starts it.  The controller turns events on Keda resources and on
  module objects into requests and answers a request with a run of a state machine
  (\<open>pkg/reconciler/\<close>).  A run works on a copy of one Keda resource: it decides whether this resource is
  the served one, takes a snapshot of its status, adds the finalizer, validates the resource,
  configures the deployments and the network policy of the module, applies all objects, verifies
  that the deployments are ready, installs or removes the HTTP add-on (\<open>pkg/addon\<close>) or, when the
  resource is being deleted, deletes the module; at last it writes the status and emits events.
  The manifests live in memory for the life of the process and are changed in place.

  \<^bold>\<open>The model.\<close>  One group of definitions for each part, with the names of the code:

  \<^item> \<open>Go_Prelude\<close>: panics (\<open>'a go\<close>), error values, strings and maps of Go.  \<open>K8s_Lib\<close>: the types of the
    Kubernetes packages and the record \<open>k8s_lib\<close> of the functions the program calls in them; what the
    theorems use of their documented behaviour are the predicates \<open>conditions_doc\<close>,
    \<open>finalizers_doc\<close>, \<open>unstructured_doc\<close>, \<open>converter_doc\<close>, \<open>identity_doc\<close> (\<open>Stability\<close>), \<open>typed_doc\<close>
    (\<open>Panic_Freedom\<close>), \<open>distinct_doc\<close> (\<open>Install_Progress\<close>) and \<open>builder_doc\<close> (\<open>Registration\<close>).
    \<open>Ref_Lib\<close> is a concrete instance that satisfies all of them and carries the witnesses.
  \<^item> \<open>Log_Args\<close>, \<open>Keda_Types\<close>: \<open>api/v1alpha1/keda_types.go\<close>, \<open>pkg/reconciler/api\<close>.
  \<^item> \<open>Environment\<close>: the calls that leave the process.  Each is recorded in a history, and an answer of the
    environment is a function of the history and the arguments, otherwise arbitrary.
  \<^item> \<open>Deployment_Updates\<close>, \<open>Update_Objects\<close>: the updates of deployments and network policies of
    \<open>fsm.go\<close> and the states of \<open>update_objects.go\<close>.  A pointer into the list of objects is an index; the
    writes through pointers shared with the resource are explicit (\<open>share_operator\<close> and others).
  \<^item> \<open>State_Fns\<close>: \<open>served_filter.go\<close>, \<open>take_snapshot.go\<close>, \<open>initialize.go\<close>, \<open>validate.go\<close>,
    \<open>update_status.go\<close>, \<open>emmit_event.go\<close>, \<open>remove_finalizer.go\<close>, \<open>common.go\<close>.  \<open>Apply_Verify\<close>: \<open>apply.go\<close>,
    \<open>verify.go\<close> and the disclaimer.  \<open>Addon_Pkg\<close>: loading of manifests and \<open>pkg/addon\<close>;
    \<open>Addon_Objs\<close>, \<open>Addon_States\<close>: \<open>addon.go\<close>.  \<open>Delete_Resources\<close>: \<open>delete_resources.go\<close>.
  \<^item> \<open>Fsm\<close>: one step (\<open>exec\<close>) and the loop (\<open>Run\<close>) of the machine; a state function is a value of the
    datatype \<open>stateFn\<close>.
  \<^item> \<open>Controller\<close>: reconciliation, events, watches.  \<open>Startup\<close>: \<open>main.go\<close> and \<open>pkg/logging\<close>, with the
    packages they call as the record \<open>runtime\<close>.  \<open>Registration\<close>: what runs before \<open>main\<close>, the registration of
    the types of the API (\<open>groupversion_info.go\<close> and the two \<open>init\<close> functions), with the scheme library as
    the record \<open>scheme_lib\<close>, and the names of states.  \<open>Permissions\<close>: the markers of the role.
  \<^item> \<open>Go_Heap\<close>, \<open>Deep_Copy\<close>: the cells behind pointers, slices and maps, and the generated copies
    (\<open>zz_generated.deepcopy.go\<close>).  The other theories work on values; \<open>Heap_Refinement\<close> shows for the two
    places where sharing matters, the snapshot and \<open>Sanitize\<close>, that the values tell the same.

  \<^bold>\<open>The contracts.\<close>  The interfaces are locales, each interpreted on the definitions of the model:
  \<open>match_stringer\<close> and \<open>arg_updater\<close> (rewriting command-line flags, \<open>Log_Args\<close>), \<open>updater\<close> (a typed
  update that keeps normal forms and settles, \<open>Updater_Contract\<close>), \<open>settling\<close> (steps of which none
  disturbs another: their effect is a fixed point; for deployments in \<open>Update_Chains\<close>, for lists of
  objects in \<open>Stability\<close>), \<open>machine\<close> (a loop whose steps lower a rank, \<open>Fsm\<close>), \<open>safe_machine\<close> (its extension
  by an invariant under which every step returns, \<open>Never_Panics\<close>), \<open>progress\<close> (a task of several reconciliations, each of
  which leaves one less, \<open>Store_Runs\<close>; for installations and deletions), \<open>instance_invariant\<close>
  (what every way of changing the resource keeps, \<open>Instance_Invariants\<close>; for well-formed statuses
  and, in \<open>Served_Instance\<close>, for the field \<open>Served\<close>), \<open>deep_copy\<close> (a copy that shares no cell with the
  original, \<open>Go_Heap\<close>; for every type of the API in \<open>Deep_Copy\<close>).

  \<^bold>\<open>The properties.\<close>  They are numbered in the order of their importance.
  \<^item> A whole run (\<open>Effects\<close>, \<open>Run_Properties\<close>, \<open>State_Properties\<close>): which calls each state makes, its
    length, when it may write, what it reports.  \<open>Delete_Properties\<close>: the order of a deletion and what blocks
    it.  \<open>Install_Progress\<close>: what a reconciliation of an installed module does.
  \<^item> Series of reconciliations that read the resource from the store and write it back (\<open>Store_Runs\<close>): an
    installation (\<open>Install_Store\<close>) and a deletion (\<open>Uninstall_Store\<close>) complete from any stage in as many as are left;
    the add-on is installed in one and removed in another, by a reconciler that need not know of the first
    (\<open>Addon_Runs\<close>).  \<open>cooperative\<close>, \<open>deletable\<close> and \<open>offers_addon\<close> say what the cluster does for that;
    the witnesses show clusters that do.
  \<^item> Panics (\<open>Panic_Freedom\<close>, \<open>Never_Panics\<close>): the places where the program indexes a list, writes to a map or
    reads a port without a check; \<open>sound_object\<close> is the property of the objects in memory that makes them
    safe and that every state keeps, so no reconciliation panics.
  \<^item> Identities (\<open>Object_Identity\<close>, \<open>Managed_Objects\<close>): the objects in memory keep their versions, kinds, names and
    namespaces in every reconciliation, the module applies no others, and its deletion leaves none of them.
  \<^item> Configuration (\<open>Config_Properties\<close>, \<open>Stability_Properties\<close>): what each update does to a deployment; the
    phase from the update of the operator to the apply state as a relation on objects, its fixed
    point, what it does not reset and what it writes into the resource.
  \<^item> Apply, verification, images (\<open>Apply_Properties\<close>, \<open>State_Properties\<close>).
  \<^item> The add-on (\<open>Addon_Properties\<close>, \<open>Manifest_Properties\<close>, \<open>Cleanup_Properties\<close>, \<open>Addon_Round_Trip\<close>): the guard,
    every outcome of enabling and disabling, the rewriting of manifests, the move to another namespace, and
    that disabling undoes enabling, with the objects on the cluster as a set of identities.
  \<^item> Several resources (\<open>Served_Instance\<close>, \<open>Keda_Store\<close>): the store of all Keda resources and the cache the manager
    reads from as a step relation; at most one resource is served as long as the cache does not miss the
    served one, and two can be when it does.
  \<^item> Memory (\<open>Heap_Refinement\<close>): independence of deep copies, the snapshot, the shared format pointer.
  \<^item> Controller and process (\<open>Controller_Properties\<close>, \<open>Event_Properties\<close>, \<open>Startup_Properties\<close>,
    \<open>Permissions\<close>).

  \<^bold>\<open>Bounds and termination.\<close>  Every definition is total.  The loop of \<open>Run\<close> ends because each step goes to
  a state of smaller \<open>rank\<close>; the first state has rank 33, which bounds the length of a run: \<open>run_for\<close> is the
  loop with a budget of steps, and 33 are always enough.  No definition that models code uses fuel.

  \<^bold>\<open>Not modelled.\<close>  Log lines (the name of a state that one of them prints is \<open>stateFnName\<close>); the generated
  mocks and the tests.  The packages of Kubernetes, controller-runtime, zap and the logging toolkit
  are parameters; the package \<open>flag\<close> of the standard library is modelled on the flags of \<open>main\<close>, without the
  usage text it prints.  The reads of the manager are answered by its cache, which may be behind the store
  (\<open>sys_step\<close> in \<open>Keda_Store\<close>); the theorems about series of reconciliations assume that it is up to date
  (\<open>serves\<close> in \<open>Store_Runs\<close>).  In the model of copies the metadata, the elements of conditions and the
  resource requirements are values, as the copy functions of their packages are taken to be deep.
\<close>

end
